theory Spec2Isabelle
  imports Complex_Main "HOL-Library.Monad_Syntax"
begin

section \<open>Classic perimeter generator: loop hierarchy and loop roles\<close>

text \<open>
  \<^verbatim>\<open>class PerimeterGeneratorLoop\<close> (PerimeterGenerator.cpp): a polygon, the contour/hole
  flag, the depth in the hierarchy (an \<^verbatim>\<open>unsigned short\<close>) and the children. The polygon
  type is left open.
\<close>

datatype 'p PerimeterGeneratorLoop =
  PerimeterGeneratorLoop (polygon: 'p) (depth: nat) (is_contour: bool)
    (children: "'p PerimeterGeneratorLoop list")

definition is_external :: "'p PerimeterGeneratorLoop \<Rightarrow> bool" where
  "is_external l \<longleftrightarrow> depth l = 0"

text \<open>The \<^verbatim>\<open>for\<close> loop of \<^verbatim>\<open>is_internal_contour\<close> over the children.\<close>

fun no_child_contour :: "'p PerimeterGeneratorLoop list \<Rightarrow> bool" where
  "no_child_contour [] = True"
| "no_child_contour (c # cs) = (if is_contour c then False else no_child_contour cs)"

definition is_internal_contour :: "'p PerimeterGeneratorLoop \<Rightarrow> bool" where
  "is_internal_contour l =
     (if \<not> is_contour l then False else no_child_contour (children l))"

datatype ExtrusionLoopRole = elrDefault | elrContourInternalPerimeter

datatype ExtrusionRole = Perimeter | ExternalPerimeter | Bridge ExtrusionRole

datatype FlowKind = ExtPerimeterFlow | PerimeterFlow | OverhangFlow

record 'pl ExtrusionPath =
  polyline :: 'pl
  role :: ExtrusionRole
  flow :: FlowKind

record 'pl ExtrusionLoop =
  paths :: "'pl ExtrusionPath list"
  loop_role :: ExtrusionLoopRole

text \<open>
  What \<^verbatim>\<open>traverse_loops_classic\<close> takes from its parameters and from the clipping
  library: whether overhang detection runs (the condition on \<^verbatim>\<open>params.config.overhangs\<close>,
  the raft layers and the support settings), the fuzzy skin applied to the loop polygon,
  the part of a polygon over the grown lower slices (\<^verbatim>\<open>intersection_pl\<close>), the part
  outside of them (\<^verbatim>\<open>diff_pl\<close>), \<^verbatim>\<open>split_at_first_point\<close> and the re-chaining of
  the clipped paths.
\<close>

record ('p, 'pl) traverse_params =
  detect_overhangs :: bool
  apply_fuzzy_skin :: "'p PerimeterGeneratorLoop \<Rightarrow> 'p"
  intersection_pl :: "'p \<Rightarrow> 'pl list"
  diff_pl :: "'p \<Rightarrow> 'pl list"
  split_at_first_point :: "'p \<Rightarrow> 'pl"
  chain_and_reorder :: "'pl ExtrusionPath list \<Rightarrow> 'pl ExtrusionPath list"

text \<open>The \<^verbatim>\<open>if (loop.is_internal_contour())\<close> of \<^verbatim>\<open>traverse_loops_classic\<close>.\<close>

definition loop_role_of :: "'p PerimeterGeneratorLoop \<Rightarrow> ExtrusionLoopRole" where
  "loop_role_of l =
     (if is_internal_contour l then elrContourInternalPerimeter else elrDefault)"

definition loop_paths ::
  "('p, 'pl) traverse_params \<Rightarrow> 'p PerimeterGeneratorLoop \<Rightarrow> 'pl ExtrusionPath list" where
  "loop_paths P l =
     (let role_normal = (if is_external l then ExternalPerimeter else Perimeter);
          role_overhang = Bridge role_normal;
          flow_normal = (if is_external l then ExtPerimeterFlow else PerimeterFlow);
          pg = apply_fuzzy_skin P l
      in if detect_overhangs P
         then map (\<lambda>pl. \<lparr>polyline = pl, role = role_normal, flow = flow_normal\<rparr>)
                (intersection_pl P pg)
              @ map (\<lambda>pl. \<lparr>polyline = pl, role = role_overhang, flow = OverhangFlow\<rparr>)
                (diff_pl P pg)
         else [\<lparr>polyline = split_at_first_point P pg, role = role_normal,
                flow = flow_normal\<rparr>])"

text \<open>
  A loop is skipped (\<^verbatim>\<open>continue\<close>) when overhang detection runs and clipping left no
  path of it.
\<close>

definition loop_emitted :: "('p, 'pl) traverse_params \<Rightarrow> 'p PerimeterGeneratorLoop \<Rightarrow> bool" where
  "loop_emitted P l \<longleftrightarrow> \<not> (detect_overhangs P \<and> loop_paths P l = [])"

text \<open>
  The first loop of \<^verbatim>\<open>traverse_loops_classic\<close>: the collection \<^verbatim>\<open>coll\<close> of
  extrusion loops built from \<^verbatim>\<open>loops\<close>. The second half of the function chains the
  entities of \<^verbatim>\<open>coll\<close> and the collections of the children into \<^verbatim>\<open>out\<close>; it
  moves and reverses loops and leaves their loop role as it is.
\<close>

fun traverse_loops_classic_coll ::
  "('p, 'pl) traverse_params \<Rightarrow> 'p PerimeterGeneratorLoop list \<Rightarrow> 'pl ExtrusionLoop list" where
  "traverse_loops_classic_coll P [] = []"
| "traverse_loops_classic_coll P (l # ls) =
     (let loop_role = loop_role_of l;
          ps = loop_paths P l
      in if detect_overhangs P
         then (if ps = [] then traverse_loops_classic_coll P ls
               else \<lparr>paths = chain_and_reorder P ps, loop_role = loop_role\<rparr>
                      # traverse_loops_classic_coll P ls)
         else \<lparr>paths = ps, loop_role = loop_role\<rparr> # traverse_loops_classic_coll P ls)"


section \<open>Classic perimeter generator: the onion shells of process\_classic\<close>

text \<open>
  The scaled (\<^verbatim>\<open>coord_t\<close>) locals of \<^verbatim>\<open>PerimeterGenerator::process_classic\<close> that
  the insets use. They are computed from the flows of the parameters, whose class is not
  part of these sources, so they are taken as given.
\<close>

record classic_locals =
  perimeter_width :: int
  perimeter_spacing :: int
  ext_perimeter_width :: int
  ext_perimeter_spacing :: int
  ext_perimeter_spacing2 :: int
  min_spacing :: int
  ext_min_spacing :: int

text \<open>
  The call that computes \<^verbatim>\<open>offsets\<close> from \<^verbatim>\<open>last\<close> in iteration \<open>i\<close>:
  \<^verbatim>\<open>offset_ex(last, delta)\<close> or \<^verbatim>\<open>offset2_ex(last, delta1, delta2)\<close>. The deltas are
  the exact values of the source's expressions; the rounding of the cast to
  \<^verbatim>\<open>float\<close> is left out.
\<close>

datatype inset_call = Offset_ex real | Offset2_ex real real

definition onion_shell_call :: "classic_locals \<Rightarrow> bool \<Rightarrow> nat \<Rightarrow> inset_call" where
  "onion_shell_call L thin_walls i =
     (if i = 0 then
        (if thin_walls
         then Offset2_ex
                (- (real_of_int (ext_perimeter_width L) / 2
                    + real_of_int (ext_min_spacing L) / 2 - 1))
                (real_of_int (ext_min_spacing L) / 2 - 1)
         else Offset_ex (- (real_of_int (ext_perimeter_width L) / 2)))
      else
        (let distance = (if i = 1 then ext_perimeter_spacing2 L else perimeter_spacing L)
         in if thin_walls
            then Offset2_ex
                   (- (real_of_int distance + real_of_int (min_spacing L) / 2 - 1))
                   (real_of_int (min_spacing L) / 2 - 1)
            else Offset_ex (- real_of_int distance)))"

text \<open>The distance by which a call moves the boundary inwards, all steps added.\<close>

fun net_inset :: "inset_call \<Rightarrow> real" where
  "net_inset (Offset_ex d) = - d"
| "net_inset (Offset2_ex d1 d2) = - (d1 + d2)"


section \<open>Extra perimeters over overhangs\<close>

text \<open>
  One contiguous island of \<^verbatim>\<open>union_ex(to_expolygons(inset_overhang_area))\<close> in
  \<^verbatim>\<open>generate_extra_perimeters_over_overhangs\<close>, with the quantities the source
  measures on it: whether \<^verbatim>\<open>real_overhang\<close> is empty, \<^verbatim>\<open>unbridgeable_area\<close>,
  \<^verbatim>\<open>area(real_overhang)\<close>, \<^verbatim>\<open>unsupp_dist\<close> and \<^verbatim>\<open>total_length(real_overhang)\<close>
  (doubles in the source, the real numbers they stand for here), and the geometry of the
  island.
\<close>

record 'g overhang_island =
  overhang_to_cover :: 'g
  real_overhang_empty :: bool
  unbridgeable_area :: real
  real_overhang_area :: real
  unsupp_dist :: real
  real_overhang_length :: real

text \<open>
  The arithmetic of the test is that of doubles. \<open>double_0_2\<close> is the double that the
  literal \<^verbatim>\<open>0.2\<close> denotes, \<open>3602879701896397 / 2 ^ 54\<close>. \<open>round_to_double\<close> rounds a real
  number to the nearest number with a significand of 53 bits, ties to the even significand
  (overflow and subnormal numbers are left out), and \<open>double_mul\<close> is the product of two
  doubles.
\<close>

definition double_0_2 :: real where
  "double_0_2 = 3602879701896397 / 18014398509481984"

definition round_to_double :: "real \<Rightarrow> real" where
  "round_to_double x =
     (if x = 0 then 0
      else
        (let ulp = 2 powi (\<lfloor>log 2 \<bar>x\<bar>\<rfloor> - 52);
             n = \<lfloor>x / ulp\<rfloor>;
             frac = x / ulp - of_int n
         in (if frac < 1 / 2 \<or> (frac = 1 / 2 \<and> even n) then of_int n else of_int n + 1) * ulp))"

definition double_mul :: "real \<Rightarrow> real \<Rightarrow> real" where
  "double_mul a b = round_to_double (a * b)"

text \<open>
  The test \<^verbatim>\<open>unbridgeable_area < 0.2 * area(real_overhang) && unsupp_dist <
  total_length(real_overhang) * 0.2\<close>.
\<close>

definition island_is_bridgeable :: "'g overhang_island \<Rightarrow> bool" where
  "island_is_bridgeable ov \<longleftrightarrow>
     unbridgeable_area ov < double_mul double_0_2 (real_overhang_area ov)
     \<and> unsupp_dist ov < double_mul (real_overhang_length ov) double_0_2"

text \<open>
  The loop over the islands. \<open>fill\<close> stands for the \<^verbatim>\<open>else\<close> branch that fills an
  island with perimeters (the \<^verbatim>\<open>while (continuation_loops >= 0)\<close> loop, the removal of
  empty paths and the sorting): it gives the extrusion paths of the island and the
  polygons it adds to \<^verbatim>\<open>inset_overhang_area_left_unfilled\<close>. The result is
  \<^verbatim>\<open>extra_perims\<close> (one entry per island with a real overhang) and
  \<^verbatim>\<open>inset_overhang_area_left_unfilled\<close>.
\<close>

fun extra_perimeters_islands ::
  "('g overhang_island \<Rightarrow> 'path list \<times> 'g list) \<Rightarrow> 'g overhang_island list
     \<Rightarrow> 'path list list \<times> 'g list" where
  "extra_perimeters_islands fill [] = ([], [])"
| "extra_perimeters_islands fill (ov # ovs) =
     (let (extra_perims, left_unfilled) = extra_perimeters_islands fill ovs
      in if real_overhang_empty ov
         then (extra_perims, overhang_to_cover ov # left_unfilled)
         else if island_is_bridgeable ov
         then ([] # extra_perims, overhang_to_cover ov # left_unfilled)
         else (let (overhang_region, unfilled) = fill ov
               in (overhang_region # extra_perims, unfilled @ left_unfilled)))"

text \<open>The entry of \<^verbatim>\<open>extra_perims\<close> that one island gets, if it gets one.\<close>

definition island_extra_perimeters ::
  "('g overhang_island \<Rightarrow> 'path list \<times> 'g list) \<Rightarrow> 'g overhang_island \<Rightarrow> 'path list option" where
  "island_extra_perimeters fill ov =
     (case fst (extra_perimeters_islands fill [ov]) of
        [] \<Rightarrow> None
      | overhang_region # _ \<Rightarrow> Some overhang_region)"


section \<open>The layer pipeline of GCodeGenerator::process\_layers\<close>

text \<open>
  \<^verbatim>\<open>struct LayerResult\<close> (GCode.hpp). \<^verbatim>\<open>layer_id\<close> is a \<^verbatim>\<open>size_t\<close>; the layer
  id of the no-op result is the largest \<^verbatim>\<open>coord_t\<close>, taken as 64 bits wide.
\<close>

record LayerResult =
  gcode :: string
  layer_id :: nat
  spiral_vase_enable :: bool
  cooling_buffer_flush :: bool
  nop_layer_result :: bool

definition make_nop_layer_result :: LayerResult where
  "make_nop_layer_result =
     \<lparr>gcode = [], layer_id = 2 ^ 63 - 1, spiral_vase_enable = False,
      cooling_buffer_flush = False, nop_layer_result = True\<rparr>"

text \<open>
  The first filter of both \<^verbatim>\<open>process_layers\<close>, \<^verbatim>\<open>smooth_path_interpolator\<close>, with its
  counter \<^verbatim>\<open>layer_to_print_idx\<close> as explicit state: \<open>n\<close> is
  \<^verbatim>\<open>layers_to_print.size()\<close>, \<open>has_pe\<close> says whether \<^verbatim>\<open>m_pressure_equalizer\<close> is set,
  \<open>interpolate idx\<close> is the smooth path cache computed for layer \<open>idx\<close> and
  \<open>empty_cache\<close> the default constructed one. The result is the token passed on, or
  \<open>None\<close> at \<^verbatim>\<open>fc.stop()\<close>, and the new counter. The two variants of
  \<^verbatim>\<open>process_layers\<close> differ in the type of \<^verbatim>\<open>layers_to_print\<close> and in how a layer
  is interpolated and processed, which are parameters here. A cancelled print (an
  exception of \<^verbatim>\<open>throw_if_canceled\<close>) is not part of the model.
\<close>

definition smooth_path_interpolator ::
  "nat \<Rightarrow> bool \<Rightarrow> (nat \<Rightarrow> 'c) \<Rightarrow> 'c \<Rightarrow> nat \<Rightarrow> (nat \<times> 'c) option \<times> nat" where
  "smooth_path_interpolator n has_pe interpolate empty_cache layer_to_print_idx =
     (if layer_to_print_idx \<ge> n then
        (if layer_to_print_idx = n + (if has_pe then 1 else 0)
         then (None, layer_to_print_idx)
         else (Some (layer_to_print_idx, empty_cache), layer_to_print_idx + 1))
      else (Some (layer_to_print_idx, interpolate layer_to_print_idx),
            layer_to_print_idx + 1))"

text \<open>
  What the body of \<^verbatim>\<open>GCodeGenerator::process_layer\<close> computes for a layer: the id of
  the layer, whether \<^verbatim>\<open>layer_tools.extruders\<close> is empty, the spiral vase flag if the
  spiral vase branch is entered, the G-code if the function gets as far as generating
  it (it returns early when there are no extrusions or no first point), and whether
  there is an object layer or a raft layer.
\<close>

record layer_gcode =
  lg_layer_id :: nat
  lg_no_extruders :: bool
  lg_spiral_vase :: "bool option"
  lg_gcode :: "string option"
  lg_object_or_raft :: bool

text \<open>The \<^verbatim>\<open>LayerResult\<close> that \<^verbatim>\<open>process_layer\<close> builds and returns.\<close>

definition process_layer :: "layer_gcode \<Rightarrow> bool \<Rightarrow> LayerResult" where
  "process_layer b last_layer =
     (let result = \<lparr>gcode = [], layer_id = lg_layer_id b, spiral_vase_enable = False,
                     cooling_buffer_flush = last_layer, nop_layer_result = False\<rparr>
      in if lg_no_extruders b then result
         else
           (let result = (case lg_spiral_vase b of None \<Rightarrow> result
                          | Some enable \<Rightarrow> result\<lparr>spiral_vase_enable := enable\<rparr>)
            in case lg_gcode b of
                 None \<Rightarrow> result
               | Some g \<Rightarrow> result\<lparr>gcode := g,
                                   cooling_buffer_flush := lg_object_or_raft b \<or> last_layer\<rparr>))"

text \<open>
  The second filter, \<^verbatim>\<open>generator\<close>. \<open>body g idx cache\<close> runs the body of
  \<^verbatim>\<open>process_layer\<close> for layer \<open>idx\<close> in the state \<open>g\<close> of the generator;
  \<^verbatim>\<open>&layer == &layers_to_print.back()\<close> is \<open>idx = n - 1\<close>.
\<close>

definition generator ::
  "nat \<Rightarrow> ('g \<Rightarrow> nat \<Rightarrow> 'c \<Rightarrow> layer_gcode \<times> 'g) \<Rightarrow> 'g \<Rightarrow> nat \<times> 'c \<Rightarrow> LayerResult \<times> 'g" where
  "generator n body g inp =
     (let layer_to_print_idx = fst inp
      in if layer_to_print_idx = n then (make_nop_layer_result, g)
         else (let (b, g') = body g layer_to_print_idx (snd inp)
               in (process_layer b (layer_to_print_idx = n - 1), g')))"

text \<open>
  \<^verbatim>\<open>tbb::parallel_pipeline\<close> over filters that are all \<^verbatim>\<open>serial_in_order\<close>: every
  token the source gives passes through the filters in the order of the source, and
  each filter sees its tokens one after the other, so the stream of results is that of
  the sequential loop below. The loop ends when the source stops; that it does is a
  theorem, not an assumption.
\<close>

partial_function (option) parallel_pipeline ::
  "(nat \<Rightarrow> 't option \<times> nat) \<Rightarrow> ('s \<Rightarrow> 't \<Rightarrow> 'o \<times> 's) \<Rightarrow> nat \<Rightarrow> 's \<Rightarrow> 'o list
     \<Rightarrow> ('o list \<times> 's) option" where
  "parallel_pipeline source filters idx s out =
     (case source idx of
        (None, _) \<Rightarrow> Some (out, s)
      | (Some tok, idx') \<Rightarrow>
          (let (r, s') = filters s tok
           in parallel_pipeline source filters idx' s' (out @ [r])))"

text \<open>
  The results of processing the \<open>k\<close> layers from \<open>idx\<close> on, one after the other: what
  the real layers of a print are expected to give.
\<close>

fun generate_layers ::
  "nat \<Rightarrow> ('g \<Rightarrow> nat \<Rightarrow> 'c \<Rightarrow> layer_gcode \<times> 'g) \<Rightarrow> (nat \<Rightarrow> 'c) \<Rightarrow> 'g \<Rightarrow> nat \<Rightarrow> nat
     \<Rightarrow> LayerResult list \<times> 'g" where
  "generate_layers n body interpolate g idx 0 = ([], g)"
| "generate_layers n body interpolate g idx (Suc k) =
     (let (b, g') = body g idx (interpolate idx);
          (rs, g'') = generate_layers n body interpolate g' (Suc idx) k
      in (process_layer b (idx = n - 1) # rs, g''))"













subsection \<open>Example data of the layer pipeline\<close>









section \<open>Slicing the volumes of a print object\<close>

subsection \<open>Model volumes and the mesh slicer\<close>

text \<open>
  The geometry is that of the polygon algebra the slicer consumes: a set of polygons with
  holes (\<^verbatim>\<open>ExPolygons\<close>, \<^verbatim>\<open>Polygons\<close>) is the set of points it covers, so it is
  empty when it covers nothing, \<^verbatim>\<open>intersection_ex\<close> is \<open>\<inter>\<close>, \<^verbatim>\<open>diff_ex\<close> and
  \<^verbatim>\<open>diff\<close> are \<open>-\<close>, and appending polygons to a collection is \<open>\<union>\<close>. The type of
  the points is left open. Offsetting, opening and closing are parameters.
\<close>

datatype ModelVolumeType =
  MODEL_PART | NEGATIVE_VOLUME | PARAMETER_MODIFIER | SUPPORT_BLOCKER | SUPPORT_ENFORCER

record 'v indexed_triangle_set =
  indices :: "(nat \<times> nat \<times> nat) list"
  vertices :: "'v list"

text \<open>
  A \<^verbatim>\<open>ModelVolume\<close> as far as slicing reads it: its \<^verbatim>\<open>id()\<close>, its type, the
  triangles of its mesh, its matrix and whether it carries multi-material or fuzzy skin
  painting. A pointer to a model volume is compared by the id of the volume.
\<close>

record ('v, 'tr) ModelVolume =
  mv_id :: nat
  volume_type :: ModelVolumeType
  mesh_its :: "'v indexed_triangle_set"
  volume_matrix :: 'tr
  volume_mm_painted :: bool
  volume_fuzzy_skin_painted :: bool

definition is_model_part :: "('v, 'tr) ModelVolume \<Rightarrow> bool" where
  "is_model_part mv \<longleftrightarrow> volume_type mv = MODEL_PART"

definition is_negative_volume :: "('v, 'tr) ModelVolume \<Rightarrow> bool" where
  "is_negative_volume mv \<longleftrightarrow> volume_type mv = NEGATIVE_VOLUME"

definition is_modifier :: "('v, 'tr) ModelVolume \<Rightarrow> bool" where
  "is_modifier mv \<longleftrightarrow> volume_type mv = PARAMETER_MODIFIER"

definition model_volume_needs_slicing :: "('v, 'tr) ModelVolume \<Rightarrow> bool" where
  "model_volume_needs_slicing mv =
     (let type = volume_type mv
      in type = MODEL_PART \<or> type = NEGATIVE_VOLUME \<or> type = PARAMETER_MODIFIER)"

definition model_volumes_sort_by_id ::
  "('v, 'tr) ModelVolume list \<Rightarrow> ('v, 'tr) ModelVolume list" where
  "model_volumes_sort_by_id model_volumes = sort_key mv_id model_volumes"

datatype SlicingMode = Regular | EvenOdd | CloseHoles

datatype MeshSlicingMode =
  MeshRegular | MeshEvenOdd | MeshPositive | MeshPositiveLargestContour

record 'tr MeshSlicingParamsEx =
  closing_radius :: real
  extra_offset :: real
  trafo :: 'tr
  resolution :: real
  mode :: MeshSlicingMode
  mode_below :: MeshSlicingMode
  slicing_mode_normal_below_layer :: nat

text \<open>
  What the slicing code takes from outside these sources: the mesh slicer
  \<^verbatim>\<open>slice_mesh_ex\<close>, \<^verbatim>\<open>its_flip_triangles\<close>, the product of two transformations and
  the sign of the determinant of the rotation of a transformation.
\<close>

record ('v, 'tr, 'a) mesh_slicer =
  slice_mesh_ex ::
    "'v indexed_triangle_set \<Rightarrow> real list \<Rightarrow> 'tr MeshSlicingParamsEx \<Rightarrow> 'a set list"
  its_flip_triangles :: "'v indexed_triangle_set \<Rightarrow> 'v indexed_triangle_set"
  trafo_mult :: "'tr \<Rightarrow> 'tr \<Rightarrow> 'tr"
  rotation_determinant_negative :: "'tr \<Rightarrow> bool"

text \<open>
  The macros \<^verbatim>\<open>EPSILON\<close> and \<^verbatim>\<open>SCALING_FACTOR\<close> of libslic3r.h, which is not part of
  these sources, and \<^verbatim>\<open>scale_\<close> and \<^verbatim>\<open>scaled\<close>, the division by the scaling factor.
\<close>

record libslic3r_constants =
  EPSILON :: real
  SCALING_FACTOR :: real

definition scaled :: "libslic3r_constants \<Rightarrow> real \<Rightarrow> real" where
  "scaled K x = x / SCALING_FACTOR K"

text \<open>\<^verbatim>\<open>slice_volume\<close>, the overload that slices a mesh at all of \<open>zs\<close>.\<close>

definition slice_volume ::
  "('v, 'tr, 'a) mesh_slicer \<Rightarrow> ('v, 'tr) ModelVolume \<Rightarrow> real list \<Rightarrow> 'tr MeshSlicingParamsEx
     \<Rightarrow> 'a set list" where
  "slice_volume S volume zs params =
     (if zs \<noteq> [] then
        (let its = mesh_its volume
         in if length (indices its) > 0 then
              (let params2 = params\<lparr>trafo := trafo_mult S (trafo params) (volume_matrix volume)\<rparr>;
                   its2 = (if rotation_determinant_negative S (trafo params2)
                           then its_flip_triangles S its else its)
               in slice_mesh_ex S its2 zs params2)
            else [])
      else [])"

text \<open>
  The loop \<^verbatim>\<open>for (; i < z.size() && z[i] < bound; ++ i)\<close>: the first index from \<open>i\<close> on
  whose height is not below the bound.
\<close>

function advance_below :: "real list \<Rightarrow> real \<Rightarrow> nat \<Rightarrow> nat" where
  "advance_below z bound i =
     (if i < length z \<and> z ! i < bound then advance_below z bound (Suc i) else i)"
  by pat_completeness auto
termination
  by (relation "measure (\<lambda>(z, bound, i). length z - i)") auto

declare advance_below.simps [simp del]

text \<open>
  The filtering loop of the second \<^verbatim>\<open>slice_volume\<close>: the heights inside the ranges
  (\<^verbatim>\<open>z_filtered\<close>) and the index spans they come from (\<^verbatim>\<open>n_filtered\<close>).
\<close>

fun filter_zs ::
  "real list \<Rightarrow> nat \<Rightarrow> (real \<times> real) list \<Rightarrow> real list \<times> (nat \<times> nat) list" where
  "filter_zs z i [] = ([], [])"
| "filter_zs z i (rng # ranges) =
     (let first = advance_below z (fst rng) i;
          i2 = advance_below z (snd rng) first;
          (z_filtered, n_filtered) = filter_zs z i2 ranges
      in (map (\<lambda>j. z ! j) [first ..< i2] @ z_filtered,
          (if i2 > first then [(first, i2)] else []) @ n_filtered))"

text \<open>
  \<^verbatim>\<open>out[j] = std::move(layers[i ++])\<close> over the spans. Reading \<^verbatim>\<open>layers\<close> or writing
  \<^verbatim>\<open>out\<close> out of range is undefined in the source and \<open>None\<close> here.
\<close>

fun assign_spans ::
  "(nat \<times> nat) list \<Rightarrow> 'e list \<Rightarrow> nat \<Rightarrow> 'e list \<Rightarrow> 'e list option" where
  "assign_spans [] layers i out = Some out"
| "assign_spans (spn # spans) layers i out =
     (let js = [fst spn ..< snd spn]
      in if i + length js \<le> length layers \<and> list_all (\<lambda>j. j < length out) js
         then assign_spans spans layers (i + length js)
                (fold (\<lambda>(j, k). \<lambda>out. out[j := layers ! k]) (zip js [i ..< i + length js]) out)
         else None)"

text \<open>
  \<^verbatim>\<open>slice_volume\<close>, the overload that slices only the heights inside the ranges of a
  volume.
\<close>

definition slice_volume_ranges ::
  "('v, 'tr, 'a) mesh_slicer \<Rightarrow> ('v, 'tr) ModelVolume \<Rightarrow> real list \<Rightarrow> (real \<times> real) list
     \<Rightarrow> 'tr MeshSlicingParamsEx \<Rightarrow> 'a set list option" where
  "slice_volume_ranges S volume z ranges params =
     (if z \<noteq> [] \<and> ranges \<noteq> [] then
        (if length ranges = 1 \<and> hd z \<ge> fst (hd ranges) \<and> last z < snd (hd ranges)
         then Some (slice_volume S volume z params)
         else
           (let (z_filtered, n_filtered) = filter_zs z 0 ranges
            in if n_filtered \<noteq> [] then
                 (let layers = slice_volume S volume z_filtered params
                  in assign_spans n_filtered layers 0 (replicate (length z) {}))
               else Some []))
      else Some [])"


subsection \<open>Regions of a print object\<close>

text \<open>
  The classes of \<^verbatim>\<open>PrintObjectRegions\<close> are declared outside these sources; the
  records hold what the slicing code reads of them. A \<^verbatim>\<open>PrintRegion\<close> is known by its
  \<^verbatim>\<open>print_object_region_id()\<close>, its index in \<^verbatim>\<open>all_regions\<close>, and a pointer to a
  region is compared by that id. The \<^verbatim>\<open>region\<close> of a volume region may be null. A
  layer range knows the ids of the volumes that have extents in it (\<open>volumes\<close>), which
  is what \<^verbatim>\<open>has_volume\<close> looks up. A fuzzy skin painted region carries the result of
  \<^verbatim>\<open>parent_print_object_region_id(layer_range)\<close>.
\<close>

record PrintRegion =
  print_object_region_id :: nat
  bottom_solid_layers :: nat
  bottom_solid_min_thickness :: real

record BoundingBox3 =
  min_x :: real
  min_y :: real
  min_z :: real
  max_x :: real
  max_y :: real
  max_z :: real

record ('v, 'tr) VolumeRegion =
  model_volume :: "('v, 'tr) ModelVolume"
  parent :: int
  region :: "PrintRegion option"
  bbox :: BoundingBox3

record PaintedRegion =
  extruder_id :: nat
  painted_parent :: nat
  painted_region :: PrintRegion

record FuzzySkinPaintedRegion =
  fuzzy_parent_region_id :: nat
  fuzzy_region :: PrintRegion

record ('v, 'tr) LayerRangeRegions =
  layer_height_range :: "real \<times> real"
  volumes :: "nat list"
  volume_regions :: "('v, 'tr) VolumeRegion list"
  painted_regions :: "PaintedRegion list"
  fuzzy_skin_painted_regions :: "FuzzySkinPaintedRegion list"

definition has_volume :: "('v, 'tr) LayerRangeRegions \<Rightarrow> nat \<Rightarrow> bool" where
  "has_volume layer_range i \<longleftrightarrow> i \<in> set (volumes layer_range)"

record ('v, 'tr) PrintObjectRegions =
  all_regions :: "PrintRegion list"
  layer_ranges :: "('v, 'tr) LayerRangeRegions list"

record PrintConfig =
  config_resolution :: real
  nozzle_diameter :: "real list"
  spiral_vase :: bool

record PrintObjectConfig =
  slice_closing_radius :: real
  slicing_mode :: SlicingMode
  xy_size_compensation :: real
  raft_layers :: nat
  elefant_foot_compensation :: real
  interlocking_beam :: bool

record 'a VolumeSlices =
  volume_id :: nat
  slices :: "'a set list"


subsection \<open>slice\_volumes\_inner\<close>

definition params_base_of ::
  "PrintConfig \<Rightarrow> PrintObjectConfig \<Rightarrow> 'tr \<Rightarrow> 'tr MeshSlicingParamsEx" where
  "params_base_of print_config print_object_config object_trafo =
     (let m = (case slicing_mode print_object_config of
                 Regular \<Rightarrow> MeshRegular
               | EvenOdd \<Rightarrow> MeshEvenOdd
               | CloseHoles \<Rightarrow> MeshPositive)
      in \<lparr>closing_radius = slice_closing_radius print_object_config,
          extra_offset = 0,
          trafo = object_trafo,
          resolution = config_resolution print_config,
          mode = m, mode_below = m,
          slicing_mode_normal_below_layer = 0\<rparr>)"

text \<open>The locals \<^verbatim>\<open>is_mm_painted\<close> and \<^verbatim>\<open>extra_offset\<close> of \<^verbatim>\<open>slice_volumes_inner\<close>.\<close>

definition inner_is_mm_painted ::
  "PrintConfig \<Rightarrow> ('v, 'tr) ModelVolume list \<Rightarrow> bool" where
  "inner_is_mm_painted print_config model_volumes \<longleftrightarrow>
     length (nozzle_diameter print_config) > 1 \<and> list_ex volume_mm_painted model_volumes"

definition inner_extra_offset ::
  "PrintConfig \<Rightarrow> PrintObjectConfig \<Rightarrow> ('v, 'tr) ModelVolume list \<Rightarrow> real" where
  "inner_extra_offset print_config print_object_config model_volumes =
     (if inner_is_mm_painted print_config model_volumes then 0
      else max 0 (xy_size_compensation print_object_config))"

text \<open>The slicing parameters of one volume, before the spiral vase mode changes them.\<close>

definition volume_params ::
  "'tr MeshSlicingParamsEx \<Rightarrow> real \<Rightarrow> ('v, 'tr) ModelVolume \<Rightarrow> 'tr MeshSlicingParamsEx" where
  "volume_params params_base extra_off mv =
     (if \<not> is_negative_volume mv then params_base\<lparr>extra_offset := extra_off\<rparr>
      else params_base)"

text \<open>
  The body of the loop over the volumes that need slicing, up to the test of the last
  entry. In spiral vase mode the region of the volume is looked up and dereferenced
  unchecked; not finding it is \<open>None\<close>.
\<close>

definition slice_one_volume ::
  "('v, 'tr, 'a) mesh_slicer \<Rightarrow> libslic3r_constants \<Rightarrow> PrintConfig \<Rightarrow> ('v, 'tr) LayerRangeRegions list \<Rightarrow> real list
     \<Rightarrow> 'tr MeshSlicingParamsEx \<Rightarrow> ('v, 'tr) ModelVolume \<Rightarrow> 'a VolumeSlices list
     \<Rightarrow> 'a VolumeSlices list option" where
  "slice_one_volume S K print_config layer_rngs zs params mv out =
     (if length layer_rngs = 1 then
        (let layer_range = hd layer_rngs
         in if has_volume layer_range (mv_id mv) then
              (if is_model_part mv \<and> spiral_vase print_config then
                 (case find (\<lambda>slice. mv_id mv = mv_id (model_volume slice))
                         (volume_regions layer_range) of
                    None \<Rightarrow> None
                  | Some it \<Rightarrow>
                      (case region it of
                         None \<Rightarrow> None
                       | Some r \<Rightarrow>
                           (let params2 = params
                                  \<lparr>mode := MeshPositiveLargestContour,
                                   slicing_mode_normal_below_layer :=
                                     advance_below zs
                                       (bottom_solid_min_thickness r - EPSILON K)
                                       (bottom_solid_layers r)\<rparr>
                            in Some (out @ [\<lparr>volume_id = mv_id mv,
                                             slices = slice_volume S mv zs params2\<rparr>]))))
               else Some (out @ [\<lparr>volume_id = mv_id mv,
                                   slices = slice_volume S mv zs params\<rparr>]))
            else Some out)
      else
        (let slicing_ranges =
               map layer_height_range
                 (filter (\<lambda>layer_range. has_volume layer_range (mv_id mv)) layer_rngs)
         in if slicing_ranges \<noteq> [] then
              (case slice_volume_ranges S mv zs slicing_ranges params of
                 None \<Rightarrow> None
               | Some sl \<Rightarrow> Some (out @ [\<lparr>volume_id = mv_id mv, slices = sl\<rparr>]))
            else Some out))"

text \<open>
  The loop over the model volumes, with
  \<^verbatim>\<open>if (! out.empty() && out.back().slices.empty()) out.pop_back();\<close> after each volume
  that needs slicing.
\<close>

fun slice_volumes_loop ::
  "('v, 'tr, 'a) mesh_slicer \<Rightarrow> libslic3r_constants \<Rightarrow> PrintConfig \<Rightarrow> ('v, 'tr) LayerRangeRegions list \<Rightarrow> real list
     \<Rightarrow> 'tr MeshSlicingParamsEx \<Rightarrow> real \<Rightarrow> ('v, 'tr) ModelVolume list \<Rightarrow> 'a VolumeSlices list
     \<Rightarrow> 'a VolumeSlices list option" where
  "slice_volumes_loop S K print_config layer_rngs zs params_base extra_off [] out = Some out"
| "slice_volumes_loop S K print_config layer_rngs zs params_base extra_off (mv # mvs) out =
     (if model_volume_needs_slicing mv then
        (case slice_one_volume S K print_config layer_rngs zs
                (volume_params params_base extra_off mv) mv out of
           None \<Rightarrow> None
         | Some out2 \<Rightarrow>
             slice_volumes_loop S K print_config layer_rngs zs params_base extra_off mvs
               (if out2 \<noteq> [] \<and> slices (last out2) = [] then butlast out2 else out2))
      else slice_volumes_loop S K print_config layer_rngs zs params_base extra_off mvs out)"

definition slice_volumes_inner ::
  "('v, 'tr, 'a) mesh_slicer \<Rightarrow> libslic3r_constants \<Rightarrow> PrintConfig \<Rightarrow> PrintObjectConfig \<Rightarrow> 'tr
     \<Rightarrow> ('v, 'tr) ModelVolume list \<Rightarrow> ('v, 'tr) LayerRangeRegions list \<Rightarrow> real list
     \<Rightarrow> 'a VolumeSlices list option" where
  "slice_volumes_inner S K print_config print_object_config object_trafo model_volumes
       layer_rngs zs =
     (let model_volumes = model_volumes_sort_by_id model_volumes;
          params_base = params_base_of print_config print_object_config object_trafo;
          extra_off = inner_extra_offset print_config print_object_config model_volumes
      in slice_volumes_loop S K print_config layer_rngs zs params_base extra_off
           model_volumes [])"


subsection \<open>Example data\<close>

text \<open>
  A mesh slicer for the examples: the vertices of a mesh are heights, and the section
  of a mesh at \<open>z\<close> is the one point \<open>(0, 0)\<close> if \<open>z\<close> lies between two of its
  vertices and empty otherwise.
\<close>

definition plane_slicer :: "(real, unit, int \<times> int) mesh_slicer" where
  "plane_slicer =
     \<lparr>slice_mesh_ex = (\<lambda>its zs params.
          map (\<lambda>z. if list_ex (\<lambda>v. v \<le> z) (vertices its) \<and> list_ex (\<lambda>v. z \<le> v) (vertices its)
                    then {(0, 0)} else {}) zs),
      its_flip_triangles = (\<lambda>its. its),
      trafo_mult = (\<lambda>a b. ()),
      rotation_determinant_negative = (\<lambda>t. False)\<rparr>"

definition libslic3r :: libslic3r_constants where
  "libslic3r = \<lparr>EPSILON = 1 / 10000, SCALING_FACTOR = 1 / 1000000\<rparr>"

definition one_range :: "(real, unit) LayerRangeRegions" where
  "one_range = \<lparr>layer_height_range = (0, 100), volumes = [1, 2, 3], volume_regions = [],
                 painted_regions = [], fuzzy_skin_painted_regions = []\<rparr>"

definition plain_print_config :: PrintConfig where
  "plain_print_config = \<lparr>config_resolution = 0, nozzle_diameter = [0.4], spiral_vase = False\<rparr>"

definition plain_object_config :: PrintObjectConfig where
  "plain_object_config =
     \<lparr>slice_closing_radius = 0.049, slicing_mode = Regular, xy_size_compensation = 0,
      raft_layers = 0, elefant_foot_compensation = 0, interlocking_beam = False\<rparr>"

text \<open>A model part with one triangle over the given vertices, or with no triangle.\<close>

definition part_at :: "nat \<Rightarrow> real list \<Rightarrow> (real, unit) ModelVolume" where
  "part_at i vs =
     \<lparr>mv_id = i, volume_type = MODEL_PART,
      mesh_its = \<lparr>indices = (if vs = [] then [] else [(0, 1, 2)]), vertices = vs\<rparr>,
      volume_matrix = (), volume_mm_painted = False, volume_fuzzy_skin_painted = False\<rparr>"


section \<open>Region resolution: \<^verbatim>\<open>slices_to_regions\<close>\<close>

text \<open>
  \<^verbatim>\<open>slices_to_regions\<close> (PrintObjectSlice.cpp) distributes the slices of the volumes to
  the print regions. The slices of a volume are moved out of \<^verbatim>\<open>volume_slices\<close>; a
  moved-from vector of polygons is empty, so the state carries both the slices by region and
  the remaining volume slices. Polygon sets are sets of points: \<^verbatim>\<open>intersection_ex\<close> is
  \<open>\<inter>\<close>, \<^verbatim>\<open>diff_ex\<close> is \<open>-\<close>, \<^verbatim>\<open>append\<close> is \<open>\<union>\<close>. \<^verbatim>\<open>closing_ex\<close> is a parameter.
  An index out of range, an iterator at the end and a region pointer that is null where the
  code dereferences it are the value \<open>None\<close>. Volumes are compared by their id, the
  pointers \<^verbatim>\<open>VolumeSlices*\<close> of \<^verbatim>\<open>layer_ranges_regions_to_slices\<close> are indices into
  \<^verbatim>\<open>volume_slices\<close>. The first phase runs over the layer ranges (\<open>shuffle_simple\<close>, with
  \<open>move_range\<close> for a range of one volume and \<open>classify_range\<close> with \<open>detect_complex\<close>
  otherwise); the second phase (\<open>resolve_complex\<close> for one height: \<open>build_temp_slices\<close>,
  \<open>clip_regions\<close>, \<open>sort_slices\<close>, \<open>erase_empty\<close>, \<open>merge_and_store\<close>) runs over the
  chunks \<^verbatim>\<open>tbb::parallel_for\<close> makes of \<^verbatim>\<open>zs_complex\<close>, here one after the other; the
  chunking is the parameter \<open>blocked_range\<close>. \<^verbatim>\<open>std::sort\<close> is a stable insertion sort
  with the comparison of \<^verbatim>\<open>RegionSlice::operator<\<close> as it is written, whose last
  disjunct compares \<^verbatim>\<open>volume_id\<close> with itself.
\<close>

definition volume_slices_find_by_id :: "'a VolumeSlices list \<Rightarrow> nat \<Rightarrow> nat option" where
  "volume_slices_find_by_id volume_slices i =
     (let it = length (takeWhile (\<lambda>vs. volume_id vs < i) volume_slices)
      in if it < length volume_slices \<and> volume_id (volume_slices ! it) = i
         then Some it else None)"

definition overlap_in_xy :: "BoundingBox3 \<Rightarrow> BoundingBox3 \<Rightarrow> bool" where
  "overlap_in_xy l r \<longleftrightarrow>
     \<not> (max_x l < min_x r \<or> min_x l > max_x r \<or> max_y l < min_y r \<or> min_y l > max_y r)"

definition layer_range_first :: "('v, 'tr) LayerRangeRegions list \<Rightarrow> real \<Rightarrow> nat option" where
  "layer_range_first layer_rngs z =
     (let it = length (takeWhile (\<lambda>lr. snd (layer_height_range lr) < z) layer_rngs)
      in if it < length layer_rngs
            \<and> fst (layer_height_range (layer_rngs ! it)) \<le> z
            \<and> z \<le> snd (layer_height_range (layer_rngs ! it))
         then
           (let it2 = (if z = snd (layer_height_range (layer_rngs ! it))
                          \<and> Suc it < length layer_rngs
                          \<and> fst (layer_height_range (layer_rngs ! Suc it)) = z
                       then Suc it else it)
            in if fst (layer_height_range (layer_rngs ! it2)) \<le> z
                  \<and> z \<le> snd (layer_height_range (layer_rngs ! it2))
               then Some it2 else None)
         else None)"

definition layer_range_next ::
  "('v, 'tr) LayerRangeRegions list \<Rightarrow> nat \<Rightarrow> real \<Rightarrow> nat option" where
  "layer_range_next layer_rngs it z =
     (let it2 = it + length (takeWhile (\<lambda>lr. snd (layer_height_range lr) \<le> z)
                              (drop it layer_rngs))
      in if it2 < length layer_rngs
            \<and> fst (layer_height_range (layer_rngs ! it2)) \<le> z
            \<and> z < snd (layer_height_range (layer_rngs ! it2))
         then Some it2 else None)"

definition take_slice ::
  "'a VolumeSlices list \<Rightarrow> nat \<Rightarrow> nat \<Rightarrow> ('a set \<times> 'a VolumeSlices list) option" where
  "take_slice volume_slices src z_idx =
     (if src < length volume_slices \<and> z_idx < length (slices (volume_slices ! src))
      then Some (slices (volume_slices ! src) ! z_idx,
                 volume_slices[src := (volume_slices ! src)
                    \<lparr>slices := (slices (volume_slices ! src))[z_idx := {}]\<rparr>])
      else None)"

definition store_slice ::
  "'a set list list \<Rightarrow> nat \<Rightarrow> nat \<Rightarrow> 'a set \<Rightarrow> 'a set list list option" where
  "store_slice slices_by_region rid z_idx x =
     (if rid < length slices_by_region \<and> z_idx < length (slices_by_region ! rid)
      then Some (slices_by_region[rid := (slices_by_region ! rid)[z_idx := x]])
      else None)"

text \<open>Moving the slice of volume \<open>vid\<close> at \<open>z_idx\<close> into the slot of the region of \<open>vr\<close>.\<close>

definition move_to_region ::
  "('v, 'tr) VolumeRegion \<Rightarrow> nat \<Rightarrow> 'a set list list \<times> 'a VolumeSlices list
     \<Rightarrow> ('a set list list \<times> 'a VolumeSlices list) option" where
  "move_to_region vr z_idx st =
     (case region vr of
        None \<Rightarrow> None
      | Some r \<Rightarrow>
          (case volume_slices_find_by_id (snd st) (mv_id (model_volume vr)) of
             None \<Rightarrow> None
           | Some src \<Rightarrow>
               (case take_slice (snd st) src z_idx of
                  None \<Rightarrow> None
                | Some (x, volume_slices') \<Rightarrow>
                    (case store_slice (fst st) (print_object_region_id r) z_idx x of
                       None \<Rightarrow> None
                     | Some slices_by_region' \<Rightarrow> Some (slices_by_region', volume_slices')))))"

function move_range ::
  "real list \<Rightarrow> real \<Rightarrow> ('v, 'tr) VolumeRegion \<Rightarrow> nat
     \<Rightarrow> 'a set list list \<times> 'a VolumeSlices list
     \<Rightarrow> (nat \<times> 'a set list list \<times> 'a VolumeSlices list) option" where
  "move_range zs bound vr z_idx st =
     (if z_idx < length zs \<and> zs ! z_idx < bound then
        (case move_to_region vr z_idx st of
           None \<Rightarrow> None
         | Some st' \<Rightarrow> move_range zs bound vr (Suc z_idx) st')
      else Some (z_idx, st))"
  by pat_completeness auto

termination
  by (relation "measure (\<lambda>(zs, bound, vr, z_idx, st). length zs - z_idx)") auto

declare move_range.simps [simp del]

definition z_in_bbox :: "BoundingBox3 \<Rightarrow> real \<Rightarrow> bool" where
  "z_in_bbox b z \<longleftrightarrow> min_z b \<le> z \<and> max_z b \<ge> z"

definition detect_step ::
  "('v, 'tr) VolumeRegion list \<Rightarrow> real \<Rightarrow> nat \<Rightarrow> int \<times> bool \<Rightarrow> int \<times> bool" where
  "detect_step vrs z idx_region st =
     (let idx_first_printable_region = fst st; complex = snd st; rgn = vrs ! idx_region
      in if z_in_bbox (bbox rgn) z then
           (if idx_first_printable_region = - 1 \<and> is_model_part (model_volume rgn)
            then (int idx_region, complex)
            else if idx_first_printable_region \<noteq> - 1
            then (idx_first_printable_region,
                  complex \<or> list_ex (\<lambda>idx_region2.
                      z_in_bbox (bbox (vrs ! idx_region2)) z
                      \<and> overlap_in_xy (bbox rgn) (bbox (vrs ! idx_region2)))
                    [nat idx_first_printable_region ..< idx_region])
            else st)
         else st)"

definition detect_complex :: "('v, 'tr) VolumeRegion list \<Rightarrow> real \<Rightarrow> int \<times> bool" where
  "detect_complex vrs z = fold (detect_step vrs z) [0 ..< length vrs] (- 1, False)"

record 'a regions_state =
  slices_by_region :: "'a set list list"
  volume_slices :: "'a VolumeSlices list"
  zs_complex :: "(nat \<times> real) list"

function classify_range ::
  "real list \<Rightarrow> ('v, 'tr) LayerRangeRegions \<Rightarrow> nat \<Rightarrow> 'a regions_state
     \<Rightarrow> (nat \<times> 'a regions_state) option" where
  "classify_range zs layer_range z_idx st =
     (if z_idx < length zs \<and> zs ! z_idx < snd (layer_height_range layer_range) then
        (let z = zs ! z_idx;
             (idx_first_printable_region, complex) =
                detect_complex (volume_regions layer_range) z
         in if complex then
              classify_range zs layer_range (Suc z_idx)
                (st\<lparr>zs_complex := zs_complex st @ [(z_idx, z)]\<rparr>)
            else if idx_first_printable_region \<ge> 0 then
              (case move_to_region
                      (volume_regions layer_range ! nat idx_first_printable_region) z_idx
                      (slices_by_region st, volume_slices st) of
                 None \<Rightarrow> None
               | Some (sbr, vss) \<Rightarrow>
                   classify_range zs layer_range (Suc z_idx)
                     (st\<lparr>slices_by_region := sbr, volume_slices := vss\<rparr>))
            else classify_range zs layer_range (Suc z_idx) st)
      else Some (z_idx, st))"
  by pat_completeness auto

termination
  by (relation "measure (\<lambda>(zs, layer_range, z_idx, st). length zs - z_idx)") auto

declare classify_range.simps [simp del]

fun shuffle_simple ::
  "real list \<Rightarrow> ('v, 'tr) LayerRangeRegions list \<Rightarrow> nat \<Rightarrow> 'a regions_state
     \<Rightarrow> 'a regions_state option" where
  "shuffle_simple zs [] z_idx st = Some st"
| "shuffle_simple zs (layer_range # rest) z_idx st =
     (let z_idx = advance_below zs (fst (layer_height_range layer_range)) z_idx
      in if volume_regions layer_range = [] then shuffle_simple zs rest z_idx st
         else if length (volume_regions layer_range) = 1 then
           (if is_model_part (model_volume (hd (volume_regions layer_range))) then
              (case volume_slices_find_by_id (volume_slices st)
                      (mv_id (model_volume (hd (volume_regions layer_range)))) of
                 None \<Rightarrow> None
               | Some src \<Rightarrow>
                   (case region (hd (volume_regions layer_range)) of
                      None \<Rightarrow> None
                    | Some r \<Rightarrow>
                        (if print_object_region_id r < length (slices_by_region st) then
                           (case move_range zs (snd (layer_height_range layer_range))
                                   (hd (volume_regions layer_range)) z_idx
                                   (slices_by_region st, volume_slices st) of
                              None \<Rightarrow> None
                            | Some (z_idx', sbr, vss) \<Rightarrow>
                                shuffle_simple zs rest z_idx'
                                  (st\<lparr>slices_by_region := sbr, volume_slices := vss\<rparr>))
                         else None)))
            else shuffle_simple zs rest z_idx st)
         else
           (case classify_range zs layer_range z_idx st of
              None \<Rightarrow> None
            | Some (z_idx', st') \<Rightarrow> shuffle_simple zs rest z_idx' st'))"

record 'a RegionSlice =
  expolygons :: "'a set"
  region_id :: int
  rs_volume_id :: nat

definition RegionSlice_less :: "'a RegionSlice \<Rightarrow> 'a RegionSlice \<Rightarrow> bool" where
  "RegionSlice_less this rhs =
     (let this_empty = (region_id this < 0 \<or> expolygons this = {});
          rhs_empty = (region_id rhs < 0 \<or> expolygons rhs = {})
      in \<not> this_empty \<and>
         (rhs_empty \<or> (region_id this < region_id rhs
            \<or> (region_id this = region_id rhs \<and> rs_volume_id this < rs_volume_id this))))"

fun insert_slice :: "'a RegionSlice \<Rightarrow> 'a RegionSlice list \<Rightarrow> 'a RegionSlice list" where
  "insert_slice x [] = [x]"
| "insert_slice x (y # ys) =
     (if RegionSlice_less y x then y # insert_slice x ys else x # y # ys)"

definition sort_slices :: "'a RegionSlice list \<Rightarrow> 'a RegionSlice list" where
  "sort_slices xs = foldr insert_slice xs []"

definition erase_empty :: "'a RegionSlice list \<Rightarrow> 'a RegionSlice list" where
  "erase_empty xs = takeWhile (\<lambda>slice. \<not> (region_id slice = - 1 \<or> expolygons slice = {})) xs"

fun build_temp_slices ::
  "('v, 'tr) VolumeRegion list \<Rightarrow> nat list \<Rightarrow> nat \<Rightarrow> 'a VolumeSlices list
     \<Rightarrow> ('a RegionSlice list \<times> 'a VolumeSlices list) option" where
  "build_temp_slices vrs [] z_idx vss = Some ([], vss)"
| "build_temp_slices [] (src # srcs) z_idx vss = None"
| "build_temp_slices (volume_region # vrs) (src # srcs) z_idx vss =
     (case take_slice vss src z_idx of
        None \<Rightarrow> None
      | Some (x, vss') \<Rightarrow>
          (case build_temp_slices vrs srcs z_idx vss' of
             None \<Rightarrow> None
           | Some (temp, vss'') \<Rightarrow>
               Some (\<lparr>expolygons = x,
                      region_id = (case region volume_region of
                                     Some r \<Rightarrow> int (print_object_region_id r)
                                   | None \<Rightarrow> - 1),
                      rs_volume_id = mv_id (model_volume volume_region)\<rparr> # temp, vss'')))"

definition set_expolygons :: "'a RegionSlice list \<Rightarrow> nat \<Rightarrow> 'a set \<Rightarrow> 'a RegionSlice list" where
  "set_expolygons temp i x = temp[i := (temp ! i)\<lparr>expolygons := x\<rparr>]"

definition clip_modifier ::
  "('v, 'tr) VolumeRegion list \<Rightarrow> nat \<Rightarrow> 'a RegionSlice list \<Rightarrow> 'a RegionSlice list option" where
  "clip_modifier vrs idx_region temp_slices =
     (let rgn = vrs ! idx_region
      in if parent rgn > - 1 \<and> nat (parent rgn) < length temp_slices then
           (let next_region_same_modifier =
                  (idx_region + 1 < length temp_slices
                   \<and> mv_id (model_volume (vrs ! (idx_region + 1))) = mv_id (model_volume rgn));
                p = nat (parent rgn);
                source = expolygons (temp_slices ! idx_region);
                temp1 = set_expolygons temp_slices idx_region {};
                temp2 = (if expolygons (temp1 ! p) = {}
                         then set_expolygons temp1 idx_region {}
                         else (let temp3 = set_expolygons temp1 idx_region
                                              (expolygons (temp1 ! p) \<inter> source)
                               in set_expolygons temp3 p (expolygons (temp3 ! p) - source)))
            in Some (if next_region_same_modifier
                     then set_expolygons temp2 (idx_region + 1) source
                     else temp2))
         else None)"

definition clip_one ::
  "('v, 'tr) VolumeRegion list \<Rightarrow> nat \<Rightarrow> nat \<Rightarrow> 'a RegionSlice list \<Rightarrow> 'a RegionSlice list" where
  "clip_one vrs idx_region idx_region2 temp_slices =
     (if expolygons (temp_slices ! idx_region2) \<noteq> {} then
        (if \<not> is_negative_volume (model_volume (vrs ! idx_region2))
            \<and> overlap_in_xy (bbox (vrs ! idx_region)) (bbox (vrs ! idx_region2))
         then set_expolygons temp_slices idx_region2
                (expolygons (temp_slices ! idx_region2) - expolygons (temp_slices ! idx_region))
         else temp_slices)
      else temp_slices)"

definition clip_preceding ::
  "('v, 'tr) VolumeRegion list \<Rightarrow> nat \<Rightarrow> 'a RegionSlice list \<Rightarrow> 'a RegionSlice list" where
  "clip_preceding vrs idx_region temp_slices =
     fold (clip_one vrs idx_region) [0 ..< idx_region] temp_slices"

definition clip_region ::
  "('v, 'tr) VolumeRegion list \<Rightarrow> nat \<Rightarrow> 'a RegionSlice list \<Rightarrow> 'a RegionSlice list option" where
  "clip_region vrs idx_region temp_slices =
     (if expolygons (temp_slices ! idx_region) \<noteq> {} then
        (let mv = model_volume (vrs ! idx_region)
         in if is_modifier mv then clip_modifier vrs idx_region temp_slices
            else if is_model_part mv \<or> is_negative_volume mv
            then Some (clip_preceding vrs idx_region temp_slices)
            else Some temp_slices)
      else Some temp_slices)"

fun clip_regions ::
  "('v, 'tr) VolumeRegion list \<Rightarrow> nat list \<Rightarrow> 'a RegionSlice list \<Rightarrow> 'a RegionSlice list option" where
  "clip_regions vrs [] temp_slices = Some temp_slices"
| "clip_regions vrs (idx_region # rest) temp_slices =
     (case clip_region vrs idx_region temp_slices of
        None \<Rightarrow> None
      | Some temp \<Rightarrow> clip_regions vrs rest temp)"

definition merge_run :: "'a set \<Rightarrow> 'a RegionSlice list \<Rightarrow> 'a set \<times> bool" where
  "merge_run x run =
     fold (\<lambda>t (e, merged).
             if expolygons t \<noteq> {} then
               (if e = {} then (expolygons t, merged) else (e \<union> expolygons t, True))
             else (e, merged))
       run (x, False)"

function merge_and_store ::
  "('a set \<Rightarrow> 'a set) \<Rightarrow> nat \<Rightarrow> 'a RegionSlice list \<Rightarrow> 'a set list list
     \<Rightarrow> 'a set list list option" where
  "merge_and_store closing z_idx [] sbr = Some sbr"
| "merge_and_store closing z_idx (t # ts) sbr =
     (let run = takeWhile (\<lambda>u. region_id t = region_id u) ts;
          (e, merged) = merge_run (expolygons t) run;
          e2 = (if merged then closing e else e)
      in if region_id t \<ge> 0 then
           (case store_slice sbr (nat (region_id t)) z_idx e2 of
              None \<Rightarrow> None
            | Some sbr' \<Rightarrow>
                merge_and_store closing z_idx
                  (dropWhile (\<lambda>u. region_id t = region_id u) ts) sbr')
         else None)"
  by pat_completeness auto

termination
  by (relation "measure (\<lambda>(closing, z_idx, ts, sbr). length ts)")
     (auto simp: length_dropWhile_le less_Suc_eq_le)

definition regions_to_slices ::
  "'a VolumeSlices list \<Rightarrow> ('v, 'tr) LayerRangeRegions list \<Rightarrow> nat list list option" where
  "regions_to_slices vss layer_rngs =
     those (map (\<lambda>layer_range.
        those (map (\<lambda>rgn. volume_slices_find_by_id vss (mv_id (model_volume rgn)))
                 (volume_regions layer_range))) layer_rngs)"

definition resolve_complex ::
  "('a set \<Rightarrow> 'a set) \<Rightarrow> ('v, 'tr) LayerRangeRegions \<Rightarrow> nat list \<Rightarrow> nat
     \<Rightarrow> 'a set list list \<times> 'a VolumeSlices list
     \<Rightarrow> ('a set list list \<times> 'a VolumeSlices list) option" where
  "resolve_complex closing layer_range to_slices z_idx st =
     (case build_temp_slices (volume_regions layer_range) to_slices z_idx (snd st) of
        None \<Rightarrow> None
      | Some (temp_slices, vss) \<Rightarrow>
          (case clip_regions (volume_regions layer_range)
                  [0 ..< length (volume_regions layer_range)] temp_slices of
             None \<Rightarrow> None
           | Some temp \<Rightarrow>
               (case merge_and_store closing z_idx (erase_empty (sort_slices temp)) (fst st) of
                  None \<Rightarrow> None
                | Some sbr \<Rightarrow> Some (sbr, vss))))"

fun complex_items ::
  "('a set \<Rightarrow> 'a set) \<Rightarrow> ('v, 'tr) LayerRangeRegions list \<Rightarrow> nat list list \<Rightarrow> nat
     \<Rightarrow> (nat \<times> real) list \<Rightarrow> 'a set list list \<times> 'a VolumeSlices list
     \<Rightarrow> ('a set list list \<times> 'a VolumeSlices list) option" where
  "complex_items closing layer_rngs lrrts it [] st = Some st"
| "complex_items closing layer_rngs lrrts it ((z_idx, z) # items) st =
     (case layer_range_next layer_rngs it z of
        None \<Rightarrow> None
      | Some it' \<Rightarrow>
          (if it' < length lrrts then
             (case resolve_complex closing (layer_rngs ! it') (lrrts ! it') z_idx st of
                None \<Rightarrow> None
              | Some st' \<Rightarrow> complex_items closing layer_rngs lrrts it' items st')
           else None))"

definition complex_chunk ::
  "('a set \<Rightarrow> 'a set) \<Rightarrow> ('v, 'tr) LayerRangeRegions list \<Rightarrow> nat list list
     \<Rightarrow> (nat \<times> real) list \<Rightarrow> 'a set list list \<times> 'a VolumeSlices list
     \<Rightarrow> ('a set list list \<times> 'a VolumeSlices list) option" where
  "complex_chunk closing layer_rngs lrrts chunk st =
     (case chunk of
        [] \<Rightarrow> Some st
      | (z_idx, z) # _ \<Rightarrow>
          (case layer_range_first layer_rngs z of
             None \<Rightarrow> None
           | Some it \<Rightarrow> complex_items closing layer_rngs lrrts it chunk st))"

fun complex_chunks ::
  "('a set \<Rightarrow> 'a set) \<Rightarrow> ('v, 'tr) LayerRangeRegions list \<Rightarrow> nat list list
     \<Rightarrow> (nat \<times> real) list list \<Rightarrow> 'a set list list \<times> 'a VolumeSlices list
     \<Rightarrow> ('a set list list \<times> 'a VolumeSlices list) option" where
  "complex_chunks closing layer_rngs lrrts [] st = Some st"
| "complex_chunks closing layer_rngs lrrts (chunk # chunks) st =
     (case complex_chunk closing layer_rngs lrrts chunk st of
        None \<Rightarrow> None
      | Some st' \<Rightarrow> complex_chunks closing layer_rngs lrrts chunks st')"

definition slices_to_regions ::
  "('a set \<Rightarrow> real \<Rightarrow> 'a set) \<Rightarrow> libslic3r_constants
     \<Rightarrow> ((nat \<times> real) list \<Rightarrow> (nat \<times> real) list list)
     \<Rightarrow> ('v, 'tr) ModelVolume list \<Rightarrow> ('v, 'tr) PrintObjectRegions \<Rightarrow> real list
     \<Rightarrow> 'a VolumeSlices list \<Rightarrow> 'a set list list option" where
  "slices_to_regions closing_ex K blocked_range model_volumes print_object_regions zs vss =
     (let model_volumes = model_volumes_sort_by_id model_volumes;
          sbr = replicate (length (all_regions print_object_regions))
                  (replicate (length zs) {})
      in case shuffle_simple zs (layer_ranges print_object_regions) 0
                \<lparr>slices_by_region = sbr, volume_slices = vss, zs_complex = []\<rparr> of
           None \<Rightarrow> None
         | Some st \<Rightarrow>
             (if zs_complex st \<noteq> [] then
                (case regions_to_slices (volume_slices st)
                        (layer_ranges print_object_regions) of
                   None \<Rightarrow> None
                 | Some lrrts \<Rightarrow>
                     map_option fst
                       (complex_chunks (\<lambda>e. closing_ex e (scaled K (EPSILON K)))
                          (layer_ranges print_object_regions) lrrts
                          (blocked_range (zs_complex st))
                          (slices_by_region st, volume_slices st)))
              else Some (slices_by_region st)))"

subsection \<open>Predicates of the proofs about the region resolution\<close>

text \<open>
  \<open>regions_well_formed\<close> is what \<^verbatim>\<open>slices_to_regions\<close> expects of the volume regions of
  a layer range: every volume is a part, a negative volume or a modifier, a negative volume
  has no print region, and the parent of a modifier precedes it and is no negative volume.
  \<open>slices_in_bboxes\<close> says that the slices of a volume lie inside the bounding boxes of
  its volume regions (the slices are in scaled coordinates, the boxes are not).
  \<open>row_exclusive\<close> is the state of the slices by region at one height: there are pairwise
  disjoint sets, one for each region, and the slot of a region holds its set or the closing
  of its set. The other predicates are the invariants of the loops.
\<close>

definition regions_well_formed :: "('v, 'tr) VolumeRegion list \<Rightarrow> bool" where
  "regions_well_formed vrs =
     list_all (\<lambda>idx.
        (is_model_part (model_volume (vrs ! idx))
           \<or> is_negative_volume (model_volume (vrs ! idx))
           \<or> is_modifier (model_volume (vrs ! idx)))
        \<and> (if is_negative_volume (model_volume (vrs ! idx)) then region (vrs ! idx) = None
            else True)
        \<and> (if is_modifier (model_volume (vrs ! idx))
            then 0 \<le> parent (vrs ! idx) \<and> nat (parent (vrs ! idx)) < idx
                 \<and> \<not> is_negative_volume (model_volume (vrs ! nat (parent (vrs ! idx))))
            else True))
       [0 ..< length vrs]"

definition clip_inv ::
  "('v, 'tr) VolumeRegion list \<Rightarrow> (nat \<Rightarrow> 'a set) \<Rightarrow> nat \<Rightarrow> 'a RegionSlice list \<Rightarrow> bool" where
  "clip_inv vrs R k temp \<longleftrightarrow>
     length temp = length vrs
     \<and> (\<forall>i < length vrs. expolygons (temp ! i) \<subseteq> R (mv_id (model_volume (vrs ! i))))
     \<and> (\<forall>i < k. \<forall>j < k. i \<noteq> j
           \<and> \<not> is_negative_volume (model_volume (vrs ! i))
           \<and> \<not> is_negative_volume (model_volume (vrs ! j))
           \<longrightarrow> expolygons (temp ! i) \<inter> expolygons (temp ! j) = {})"

definition row_exclusive :: "('a set \<Rightarrow> 'a set) \<Rightarrow> 'a set list list \<Rightarrow> nat \<Rightarrow> bool" where
  "row_exclusive closing sbr z \<longleftrightarrow>
     (\<exists>X. (\<forall>r1 r2. r1 \<noteq> r2 \<longrightarrow> X r1 \<inter> X r2 = {})
        \<and> (\<forall>r < length sbr. sbr ! r ! z = X r \<or> sbr ! r ! z = closing (X r)))"

definition row_within ::
  "('a set \<Rightarrow> 'a set) \<Rightarrow> (nat \<Rightarrow> 'a set) \<Rightarrow> 'a set list list \<Rightarrow> nat \<Rightarrow> bool" where
  "row_within closing G sbr z \<longleftrightarrow>
     (\<forall>r < length sbr. \<exists>e. e \<subseteq> G r \<and> (sbr ! r ! z = e \<or> sbr ! r ! z = closing e))"

definition sbr_shape :: "nat \<Rightarrow> 'a set list list \<Rightarrow> bool" where
  "sbr_shape n sbr \<longleftrightarrow> (\<forall>r < length sbr. length (sbr ! r) = n)"

definition vss_shrunk :: "'a VolumeSlices list \<Rightarrow> 'a VolumeSlices list \<Rightarrow> bool" where
  "vss_shrunk vss0 vss \<longleftrightarrow>
     length vss = length vss0
     \<and> (\<forall>i < length vss0.
           volume_id (vss ! i) = volume_id (vss0 ! i)
           \<and> length (slices (vss ! i)) = length (slices (vss0 ! i))
           \<and> (\<forall>z < length (slices (vss0 ! i)). slices (vss ! i) ! z \<subseteq> slices (vss0 ! i) ! z))"

definition raw_of :: "'a VolumeSlices list \<Rightarrow> nat \<Rightarrow> 'a set" where
  "raw_of vss0 vid = {p. \<exists>vs \<in> set vss0. volume_id vs = vid \<and> (\<exists>s \<in> set (slices vs). p \<in> s)}"

definition temp_of_region :: "(nat \<Rightarrow> 'a set) \<Rightarrow> ('v, 'tr) VolumeRegion \<Rightarrow> 'a RegionSlice \<Rightarrow> bool" where
  "temp_of_region R vr t \<longleftrightarrow>
     expolygons t \<subseteq> R (mv_id (model_volume vr))
     \<and> region_id t = (case region vr of Some r \<Rightarrow> int (print_object_region_id r) | None \<Rightarrow> - 1)"

definition in_bbox_xy :: "libslic3r_constants \<Rightarrow> BoundingBox3 \<Rightarrow> real \<times> real \<Rightarrow> bool" where
  "in_bbox_xy K b p \<longleftrightarrow>
     min_x b \<le> fst p * SCALING_FACTOR K \<and> fst p * SCALING_FACTOR K \<le> max_x b
     \<and> min_y b \<le> snd p * SCALING_FACTOR K \<and> snd p * SCALING_FACTOR K \<le> max_y b"

definition slices_in_bboxes ::
  "libslic3r_constants \<Rightarrow> ('v, 'tr) LayerRangeRegions list \<Rightarrow> (real \<times> real) VolumeSlices list
     \<Rightarrow> bool" where
  "slices_in_bboxes K layer_rngs vss \<longleftrightarrow>
     (\<forall>layer_range \<in> set layer_rngs. \<forall>vr \<in> set (volume_regions layer_range).
        \<forall>vs \<in> set vss. volume_id vs = mv_id (model_volume vr) \<longrightarrow>
          (\<forall>s \<in> set (slices vs). \<forall>p \<in> s. in_bbox_xy K (bbox vr) p))"

definition row_fresh :: "'a set list list \<Rightarrow> nat \<Rightarrow> bool" where
  "row_fresh sbr z \<longleftrightarrow> (\<forall>r < length sbr. sbr ! r ! z = {})"

definition rows_aligned ::
  "'a VolumeSlices list \<Rightarrow> ('v, 'tr) LayerRangeRegions list \<Rightarrow> nat list list \<Rightarrow> bool" where
  "rows_aligned vss0 lrs lrrts \<longleftrightarrow>
     list_all2 (\<lambda>lr srcs.
        list_all2 (\<lambda>vr src. src < length vss0
                     \<and> volume_id (vss0 ! src) = mv_id (model_volume vr))
          (volume_regions lr) srcs) lrs lrrts"

definition phase1_inv ::
  "nat \<Rightarrow> nat \<Rightarrow> ('a set \<Rightarrow> 'a set) \<Rightarrow> 'a VolumeSlices list \<Rightarrow> nat \<Rightarrow> 'a regions_state \<Rightarrow> bool" where
  "phase1_inv n nreg closing vss0 z_idx st \<longleftrightarrow>
     z_idx \<le> n
     \<and> length (slices_by_region st) = nreg
     \<and> sbr_shape n (slices_by_region st)
     \<and> vss_shrunk vss0 (volume_slices st)
     \<and> (\<forall>z. z_idx \<le> z \<and> z < n \<longrightarrow> row_fresh (slices_by_region st) z)
     \<and> distinct (map fst (zs_complex st))
     \<and> (\<forall>zi \<in> fst ` set (zs_complex st). zi < z_idx \<and> row_fresh (slices_by_region st) zi)
     \<and> (\<forall>z < n. row_exclusive closing (slices_by_region st) z)"

subsection \<open>Example data of the region resolution\<close>

text \<open>
  \<open>closing_square\<close> is the morphological closing with a square: a dilation followed by an
  erosion, which is what \<^verbatim>\<open>closing_ex\<close> does to axis-parallel rectangles with mitered
  corners. \<open>slab a b\<close> is the rectangle of the points with \<open>a \<le> x < b\<close> and
  \<open>0 \<le> y \<le> 1000\<close>, in scaled coordinates. \<open>three_parts\<close> are three parts side by side,
  the first and the third in print region 0, the thin one between them in print region 1;
  \<open>part_and_modifier\<close> is a part in print region 0 with a modifier in print region 1 that
  overlaps its right half.
\<close>

definition dilate_square :: "(real \<times> real) set \<Rightarrow> real \<Rightarrow> (real \<times> real) set" where
  "dilate_square S r = {q. \<exists>s \<in> S. \<bar>fst q - fst s\<bar> \<le> r \<and> \<bar>snd q - snd s\<bar> \<le> r}"

definition erode_square :: "(real \<times> real) set \<Rightarrow> real \<Rightarrow> (real \<times> real) set" where
  "erode_square D r = {p. \<forall>q. \<bar>fst q - fst p\<bar> \<le> r \<and> \<bar>snd q - snd p\<bar> \<le> r \<longrightarrow> q \<in> D}"

definition closing_square :: "(real \<times> real) set \<Rightarrow> real \<Rightarrow> (real \<times> real) set" where
  "closing_square S r = erode_square (dilate_square S r) r"

definition slab :: "real \<Rightarrow> real \<Rightarrow> (real \<times> real) set" where
  "slab a b = {p. a \<le> fst p \<and> fst p < b \<and> 0 \<le> snd p \<and> snd p \<le> 1000}"

definition mk_vol :: "nat \<Rightarrow> ModelVolumeType \<Rightarrow> (real, unit) ModelVolume" where
  "mk_vol i t = \<lparr>mv_id = i, volume_type = t,
      mesh_its = \<lparr>indices = [(0, 1, 2)], vertices = []\<rparr>,
      volume_matrix = (), volume_mm_painted = False, volume_fuzzy_skin_painted = False\<rparr>"

definition mk_region :: "nat \<Rightarrow> PrintRegion" where
  "mk_region i = \<lparr>print_object_region_id = i, bottom_solid_layers = 0,
     bottom_solid_min_thickness = 0\<rparr>"

definition box_x :: "real \<Rightarrow> real \<Rightarrow> BoundingBox3" where
  "box_x a b = \<lparr>min_x = a, min_y = 0, min_z = 0, max_x = b, max_y = 1 / 1000, max_z = 10\<rparr>"

definition three_regions :: "(real, unit) VolumeRegion list" where
  "three_regions =
     [\<lparr>model_volume = mk_vol 1 MODEL_PART, parent = - 1,
       region = Some (mk_region 0), bbox = box_x 0 (1000 / 1000000)\<rparr>,
      \<lparr>model_volume = mk_vol 2 MODEL_PART, parent = - 1,
       region = Some (mk_region 1), bbox = box_x (1000 / 1000000) (1100 / 1000000)\<rparr>,
      \<lparr>model_volume = mk_vol 3 MODEL_PART, parent = - 1,
       region = Some (mk_region 0), bbox = box_x (1100 / 1000000) (2000 / 1000000)\<rparr>]"

definition three_parts :: "(real, unit) PrintObjectRegions" where
  "three_parts =
     \<lparr>all_regions = [mk_region 0, mk_region 1],
      layer_ranges =
        [\<lparr>layer_height_range = (0, 10), volumes = [1, 2, 3],
          volume_regions = three_regions,
          painted_regions = [], fuzzy_skin_painted_regions = []\<rparr>]\<rparr>"

definition three_slices :: "(real \<times> real) VolumeSlices list" where
  "three_slices =
     [\<lparr>volume_id = 1, slices = [slab 0 1000]\<rparr>,
      \<lparr>volume_id = 2, slices = [slab 1000 1100]\<rparr>,
      \<lparr>volume_id = 3, slices = [slab 1100 2000]\<rparr>]"

definition single_chunk :: "(nat \<times> real) list \<Rightarrow> (nat \<times> real) list list" where
  "single_chunk xs = [xs]"

definition no_closing :: "(real \<times> real) set \<Rightarrow> real \<Rightarrow> (real \<times> real) set" where
  "no_closing S r = S"

definition pm_regions :: "(real, unit) VolumeRegion list" where
  "pm_regions =
     [\<lparr>model_volume = mk_vol 1 MODEL_PART, parent = - 1,
       region = Some (mk_region 0), bbox = box_x 0 (1000 / 1000000)\<rparr>,
      \<lparr>model_volume = mk_vol 2 PARAMETER_MODIFIER, parent = 0,
       region = Some (mk_region 1), bbox = box_x (500 / 1000000) (1500 / 1000000)\<rparr>]"

definition part_and_modifier :: "(real, unit) PrintObjectRegions" where
  "part_and_modifier =
     \<lparr>all_regions = [mk_region 0, mk_region 1],
      layer_ranges =
        [\<lparr>layer_height_range = (0, 10), volumes = [1, 2],
          volume_regions = pm_regions,
          painted_regions = [], fuzzy_skin_painted_regions = []\<rparr>]\<rparr>"

definition pm_slices :: "(real \<times> real) VolumeSlices list" where
  "pm_slices =
     [\<lparr>volume_id = 1, slices = [slab 0 1000]\<rparr>,
      \<lparr>volume_id = 2, slices = [slab 500 1500]\<rparr>]"

section \<open>Paint-based reclassification\<close>

text \<open>
  \<^verbatim>\<open>apply_mm_segmentation\<close> and \<^verbatim>\<open>apply_fuzzy_skin_segmentation\<close> (PrintObjectSlice.cpp)
  split the slices of the layer regions by the painted masks. The operations on polygons
  that are not part of the file are the fields of \<open>polygon_ops\<close>: bounding boxes
  (\<^verbatim>\<open>get_extents\<close>, \<^verbatim>\<open>BoundingBox::defined\<close>, \<^verbatim>\<open>BoundingBox::overlap\<close>), \<^verbatim>\<open>opening\<close> and
  \<^verbatim>\<open>closing_ex\<close>. On sets of points \<^verbatim>\<open>union_ex\<close> and \<^verbatim>\<open>to_polygons\<close> change nothing.
  A bounding box that was never assigned is \<open>None\<close>. Print regions are compared by
  \<^verbatim>\<open>print_object_region_id\<close>, which is their index in \<^verbatim>\<open>all_regions\<close>. A failing
  \<^verbatim>\<open>assert\<close>, an iterator at the end that is dereferenced and an index out of range are
  the value \<open>None\<close>.
\<close>

record ('a, 'b) polygon_ops =
  get_extents :: "'a set \<Rightarrow> 'b"
  bbox_defined :: "'b \<Rightarrow> bool"
  bbox_overlap :: "'b \<Rightarrow> 'b \<Rightarrow> bool"
  ops_opening :: "'a set \<Rightarrow> real \<Rightarrow> real \<Rightarrow> 'a set"
  ops_closing_ex :: "'a set \<Rightarrow> real \<Rightarrow> 'a set"

record 'a LayerRegion =
  m_region :: PrintRegion
  m_slices :: "'a set"

text \<open>
  A layer. The pointers \<^verbatim>\<open>lower_layer\<close> and \<^verbatim>\<open>upper_layer\<close> are the ids of the layers
  they point to, \<open>None\<close> is the null pointer.
\<close>

record 'a Layer =
  m_id :: int
  height :: real
  print_z :: real
  slice_z :: real
  m_regions :: "'a LayerRegion list"
  lslices :: "'a set"
  lower_layer :: "int option"
  upper_layer :: "int option"

record ('a, 'b) ByExtruder =
  be_expolygons :: "'a set"
  be_bbox :: "'b option"

record 'a ByRegion =
  br_expolygons :: "'a set"
  needs_merge :: bool

text \<open>
  Adding polygons to the entry of a region: \<^verbatim>\<open>if (dst.expolygons.empty()) dst.expolygons =
  std::move(x); else { append(dst.expolygons, std::move(x)); dst.needs_merge = true; }\<close>.
\<close>

definition by_region_add :: "'a ByRegion \<Rightarrow> 'a set \<Rightarrow> 'a ByRegion" where
  "by_region_add dst x =
     (if br_expolygons dst = {} then dst\<lparr>br_expolygons := x\<rparr>
      else dst\<lparr>br_expolygons := br_expolygons dst \<union> x, needs_merge := True\<rparr>)"

definition by_region_add_at ::
  "'a ByRegion list \<Rightarrow> nat \<Rightarrow> 'a set \<Rightarrow> 'a ByRegion list option" where
  "by_region_add_at by_region i x =
     (if i < length by_region then Some (by_region[i := by_region_add (by_region ! i) x])
      else None)"

text \<open>\<^verbatim>\<open>std::find_if\<close> from the position \<open>i\<close>: the position of the first match, or the end.\<close>

definition find_if_from :: "('x \<Rightarrow> bool) \<Rightarrow> 'x list \<Rightarrow> nat \<Rightarrow> nat" where
  "find_if_from P xs i = i + length (takeWhile (\<lambda>x. \<not> P x) (drop i xs))"

text \<open>
  \<^verbatim>\<open>layer_range.volume_regions[painted_region.parent].region->print_object_region_id()\<close>.
\<close>

definition painted_parent_region_id ::
  "('v, 'tr) LayerRangeRegions \<Rightarrow> PaintedRegion \<Rightarrow> nat option" where
  "painted_parent_region_id layer_range pr =
     (if painted_parent pr < length (volume_regions layer_range)
      then map_option print_object_region_id
             (region (volume_regions layer_range ! painted_parent pr))
      else None)"

text \<open>
  The first painted region from \<open>i\<close> on that overrides the print region \<open>rid\<close>; the test
  dereferences the region of the parent of every painted region it visits.
\<close>

fun find_first_painted_region ::
  "('v, 'tr) LayerRangeRegions \<Rightarrow> nat \<Rightarrow> PaintedRegion list \<Rightarrow> nat \<Rightarrow> nat option" where
  "find_first_painted_region layer_range rid [] i = Some i"
| "find_first_painted_region layer_range rid (pr # prs) i =
     (case painted_parent_region_id layer_range pr of
        None \<Rightarrow> None
      | Some p \<Rightarrow> if p = rid then Some i
                  else find_first_painted_region layer_range rid prs (Suc i))"

text \<open>\<^verbatim>\<open>segmented.bbox.defined && parent_layer_region_bbox.overlap(segmented.bbox)\<close>.\<close>

definition segmented_overlaps ::
  "('a, 'b) polygon_ops \<Rightarrow> 'b \<Rightarrow> ('a, 'b) ByExtruder \<Rightarrow> bool" where
  "segmented_overlaps G parent_layer_region_bbox segmented =
     (case be_bbox segmented of
        None \<Rightarrow> False
      | Some b \<Rightarrow> bbox_defined G b \<and> bbox_overlap G parent_layer_region_bbox b)"

record 'a mm_state =
  it_painted_region_begin :: nat
  by_region :: "'a ByRegion list"
  self_extruder_id :: int

text \<open>
  One round of the loop over the extruders that steals from the parent region, for the
  1-based extruder id \<open>extruder_id'\<close>.
\<close>

definition steal_step ::
  "('a, 'b) polygon_ops \<Rightarrow> ('v, 'tr) LayerRangeRegions \<Rightarrow> ('a, 'b) ByExtruder list
     \<Rightarrow> 'a LayerRegion \<Rightarrow> 'b \<Rightarrow> nat \<Rightarrow> 'a mm_state \<Rightarrow> 'a mm_state option" where
  "steal_step G layer_range by_extruder parent_layer_region bb extruder_id' st =
     (let segmented = by_extruder ! (extruder_id' - 1);
          prs = painted_regions layer_range;
          parent_id = print_object_region_id (m_region parent_layer_region)
      in if \<not> segmented_overlaps G bb segmented then Some st
         else
           (let it_target_region =
                  find_if_from (\<lambda>pr. extruder_id pr \<ge> extruder_id') prs
                    (it_painted_region_begin st)
            in if it_target_region \<ge> length prs then None
               else if painted_parent_region_id layer_range (prs ! it_target_region)
                         \<noteq> Some parent_id
                       \<or> extruder_id (prs ! it_target_region) \<noteq> extruder_id'
               then None
               else
                 (let st1 = st\<lparr>it_painted_region_begin := it_target_region\<rparr>;
                      target = painted_region (prs ! it_target_region)
                  in if print_object_region_id target = parent_id
                     then Some (st1\<lparr>self_extruder_id := int extruder_id'\<rparr>)
                     else
                       (let stolen = m_slices parent_layer_region \<inter> be_expolygons segmented
                        in if stolen \<noteq> {} then
                             (case by_region_add_at (by_region st1)
                                     (print_object_region_id target) stolen of
                                None \<Rightarrow> None
                              | Some by_region' \<Rightarrow> Some (st1\<lparr>by_region := by_region'\<rparr>))
                           else Some st1))))"

fun steal_loop ::
  "('a, 'b) polygon_ops \<Rightarrow> ('v, 'tr) LayerRangeRegions \<Rightarrow> ('a, 'b) ByExtruder list
     \<Rightarrow> 'a LayerRegion \<Rightarrow> 'b \<Rightarrow> nat list \<Rightarrow> 'a mm_state \<Rightarrow> 'a mm_state option" where
  "steal_loop G layer_range by_extruder parent_layer_region bb [] st = Some st"
| "steal_loop G layer_range by_extruder parent_layer_region bb (extruder_id' # rest) st =
     (case steal_step G layer_range by_extruder parent_layer_region bb extruder_id' st of
        None \<Rightarrow> None
      | Some st' \<Rightarrow> steal_loop G layer_range by_extruder parent_layer_region bb rest st')"

text \<open>
  The loop that trims the polygons \<open>mine\<close> of the parent region with the masks; \<open>idx\<close> is
  the index in \<^verbatim>\<open>by_extruder\<close> of the first mask still to visit. The loop is left when
  nothing remains.
\<close>

fun trim_mine ::
  "('a, 'b) polygon_ops \<Rightarrow> 'b \<Rightarrow> int \<Rightarrow> nat \<Rightarrow> ('a, 'b) ByExtruder list \<Rightarrow> 'a set \<Rightarrow> 'a set" where
  "trim_mine G bb self idx [] mine = mine"
| "trim_mine G bb self idx (segmented # rest) mine =
     (if int idx + 1 \<noteq> self \<and> segmented_overlaps G bb segmented then
        (let mine' = mine - be_expolygons segmented
         in if mine' = {} then mine' else trim_mine G bb self (Suc idx) rest mine')
      else trim_mine G bb self (Suc idx) rest mine)"

text \<open>The body of the loop over the parent layer regions of a layer.\<close>

definition mm_parent_layer_region ::
  "('a, 'b) polygon_ops \<Rightarrow> libslic3r_constants \<Rightarrow> ('v, 'tr) LayerRangeRegions
     \<Rightarrow> ('a, 'b) ByExtruder list \<Rightarrow> 'a Layer \<Rightarrow> nat
     \<Rightarrow> nat \<times> 'a ByRegion list \<Rightarrow> (nat \<times> 'a ByRegion list) option" where
  "mm_parent_layer_region G K layer_range by_extruder layer parent_layer_region_idx st =
     (let prs = painted_regions layer_range;
          parent_layer_region = m_regions layer ! parent_layer_region_idx;
          parent_id = print_object_region_id (m_region parent_layer_region)
      in if fst st = length prs then Some st
         else if parent_id \<noteq> parent_layer_region_idx then None
         else if m_slices parent_layer_region = {} then Some st
         else
           (case find_first_painted_region layer_range parent_id (drop (fst st) prs) (fst st) of
              None \<Rightarrow> None
            | Some it_first_painted_region \<Rightarrow>
                if it_first_painted_region = length prs then Some st
                else
                  (let bb = get_extents G (m_slices parent_layer_region)
                   in case steal_loop G layer_range by_extruder parent_layer_region bb
                             [1 ..< Suc (length by_extruder)]
                             \<lparr>it_painted_region_begin = it_first_painted_region,
                              by_region = snd st, self_extruder_id = - 1\<rparr> of
                        None \<Rightarrow> None
                      | Some st2 \<Rightarrow>
                          (let mine = trim_mine G bb (self_extruder_id st2) 0 by_extruder
                                        (m_slices parent_layer_region);
                               mine2 = (if mine \<noteq> {}
                                        then ops_opening G mine (scaled K (5 * EPSILON K))
                                               (scaled K (5 * EPSILON K))
                                        else mine)
                           in if mine2 \<noteq> {} then
                                (case by_region_add_at (by_region st2) parent_id mine2 of
                                   None \<Rightarrow> None
                                 | Some by_region' \<Rightarrow>
                                     Some (it_painted_region_begin st2, by_region'))
                              else Some (it_painted_region_begin st2, by_region st2)))))"

fun mm_parent_layer_regions ::
  "('a, 'b) polygon_ops \<Rightarrow> libslic3r_constants \<Rightarrow> ('v, 'tr) LayerRangeRegions
     \<Rightarrow> ('a, 'b) ByExtruder list \<Rightarrow> 'a Layer \<Rightarrow> nat list
     \<Rightarrow> nat \<times> 'a ByRegion list \<Rightarrow> (nat \<times> 'a ByRegion list) option" where
  "mm_parent_layer_regions G K layer_range by_extruder layer [] st = Some st"
| "mm_parent_layer_regions G K layer_range by_extruder layer (idx # rest) st =
     (case mm_parent_layer_region G K layer_range by_extruder layer idx st of
        None \<Rightarrow> None
      | Some st' \<Rightarrow> mm_parent_layer_regions G K layer_range by_extruder layer rest st')"

text \<open>
  Re-creating the surfaces of the layer regions from \<^verbatim>\<open>by_region\<close>; the two
  segmentations differ in nothing here.
\<close>

definition recreate_surfaces ::
  "('a, 'b) polygon_ops \<Rightarrow> libslic3r_constants \<Rightarrow> 'a ByRegion list \<Rightarrow> 'a Layer \<Rightarrow> 'a Layer" where
  "recreate_surfaces G K by_region' layer =
     layer\<lparr>m_regions :=
       map (\<lambda>region_id.
              (m_regions layer ! region_id)\<lparr>m_slices :=
                 (let src = by_region' ! region_id
                  in if needs_merge src
                     then ops_closing_ex G (br_expolygons src) (scaled K (10 * EPSILON K))
                     else br_expolygons src)\<rparr>)
           [0 ..< length (m_regions layer)]\<rparr>"

text \<open>
  One layer of \<^verbatim>\<open>apply_mm_segmentation\<close>; \<open>segmentation_layer\<close> is
  \<^verbatim>\<open>segmentation[layer_id]\<close>, a mask for each extruder. \<open>gather_by_extruder\<close> is the
  loop that fills \<^verbatim>\<open>by_extruder\<close>.
\<close>

definition gather_by_extruder ::
  "('a, 'b) polygon_ops \<Rightarrow> nat \<Rightarrow> 'a set list \<Rightarrow> ('a, 'b) ByExtruder list" where
  "gather_by_extruder G num_extruders segmentation_layer =
     map (\<lambda>extruder_id'.
            \<lparr>be_expolygons = segmentation_layer ! extruder_id',
             be_bbox = (if segmentation_layer ! extruder_id' \<noteq> {}
                        then Some (get_extents G (segmentation_layer ! extruder_id'))
                        else None)\<rparr>)
         [0 ..< num_extruders]"

definition mm_layer ::
  "('a, 'b) polygon_ops \<Rightarrow> libslic3r_constants \<Rightarrow> nat \<Rightarrow> ('v, 'tr) LayerRangeRegions
     \<Rightarrow> 'a set list \<Rightarrow> 'a Layer \<Rightarrow> 'a Layer option" where
  "mm_layer G K num_extruders layer_range segmentation_layer layer =
     (if length segmentation_layer < num_extruders then None
      else
        (let by_extruder = gather_by_extruder G num_extruders segmentation_layer;
             by_region0 = replicate (length (m_regions layer))
                            \<lparr>br_expolygons = {}, needs_merge = False\<rparr>;
             layer_split = list_ex (\<lambda>segmented. be_expolygons segmented \<noteq> {}) by_extruder
         in if \<not> layer_split then Some layer
            else
              (case mm_parent_layer_regions G K layer_range by_extruder layer
                      [0 ..< length (m_regions layer)] (0, by_region0) of
                 None \<Rightarrow> None
               | Some st \<Rightarrow> Some (recreate_surfaces G K (snd st) layer))))"

text \<open>
  The layers of one chunk of the parallel loop, with the iterator into the layer ranges
  that \<^verbatim>\<open>layer_range_next\<close> advances; \<open>per_layer\<close> is the work on one layer.
\<close>

fun segmentation_items ::
  "(('v, 'tr) LayerRangeRegions \<Rightarrow> nat \<Rightarrow> 'a Layer \<Rightarrow> 'a Layer option)
     \<Rightarrow> ('v, 'tr) LayerRangeRegions list \<Rightarrow> nat \<Rightarrow> nat list \<Rightarrow> 'a Layer list
     \<Rightarrow> 'a Layer list option" where
  "segmentation_items per_layer layer_rngs it [] layers = Some layers"
| "segmentation_items per_layer layer_rngs it (layer_id' # rest) layers =
     (if layer_id' < length layers then
        (case layer_range_next layer_rngs it (slice_z (layers ! layer_id')) of
           None \<Rightarrow> None
         | Some it' \<Rightarrow>
             (case per_layer (layer_rngs ! it') layer_id' (layers ! layer_id') of
                None \<Rightarrow> None
              | Some layer' \<Rightarrow>
                  segmentation_items per_layer layer_rngs it' rest
                    (layers[layer_id' := layer'])))
      else None)"

definition segmentation_chunk ::
  "(('v, 'tr) LayerRangeRegions \<Rightarrow> nat \<Rightarrow> 'a Layer \<Rightarrow> 'a Layer option)
     \<Rightarrow> ('v, 'tr) LayerRangeRegions list \<Rightarrow> nat list \<Rightarrow> 'a Layer list
     \<Rightarrow> 'a Layer list option" where
  "segmentation_chunk per_layer layer_rngs chunk layers =
     (case chunk of
        [] \<Rightarrow> Some layers
      | layer_id' # _ \<Rightarrow>
          (if layer_id' < length layers then
             (case layer_range_first layer_rngs (slice_z (layers ! layer_id')) of
                None \<Rightarrow> None
              | Some it \<Rightarrow> segmentation_items per_layer layer_rngs it chunk layers)
           else None))"

fun segmentation_chunks ::
  "(('v, 'tr) LayerRangeRegions \<Rightarrow> nat \<Rightarrow> 'a Layer \<Rightarrow> 'a Layer option)
     \<Rightarrow> ('v, 'tr) LayerRangeRegions list \<Rightarrow> nat list list \<Rightarrow> 'a Layer list
     \<Rightarrow> 'a Layer list option" where
  "segmentation_chunks per_layer layer_rngs [] layers = Some layers"
| "segmentation_chunks per_layer layer_rngs (chunk # chunks) layers =
     (case segmentation_chunk per_layer layer_rngs chunk layers of
        None \<Rightarrow> None
      | Some layers' \<Rightarrow> segmentation_chunks per_layer layer_rngs chunks layers')"

text \<open>
  \<^verbatim>\<open>apply_mm_segmentation\<close>. \<open>segmentation\<close> is what
  \<^verbatim>\<open>multi_material_segmentation_by_painting\<close> returned, \<open>layer_chunks\<close> gives the chunks
  of the layer indices that \<^verbatim>\<open>tbb::parallel_for\<close> makes.
\<close>

definition apply_mm_segmentation ::
  "('a, 'b) polygon_ops \<Rightarrow> libslic3r_constants \<Rightarrow> (nat list \<Rightarrow> nat list list) \<Rightarrow> PrintConfig
     \<Rightarrow> ('v, 'tr) PrintObjectRegions \<Rightarrow> 'a set list list \<Rightarrow> 'a Layer list
     \<Rightarrow> 'a Layer list option" where
  "apply_mm_segmentation G K layer_chunks print_config shared_regions segmentation layers =
     (if length segmentation \<noteq> length layers then None
      else segmentation_chunks
             (\<lambda>layer_range layer_id' layer.
                mm_layer G K (length (nozzle_diameter print_config)) layer_range
                  (segmentation ! layer_id') layer)
             (layer_ranges shared_regions)
             (layer_chunks [0 ..< length segmentation]) layers)"

subsection \<open>Fuzzy skin\<close>

text \<open>
  The polygons that remain of the parent region in \<^verbatim>\<open>apply_fuzzy_skin_segmentation\<close>
  (the variable \<^verbatim>\<open>layer_region_remaining_polygons\<close> after the trimming).
\<close>

definition fuzzy_skin_trims ::
  "('a, 'b) polygon_ops \<Rightarrow> 'b \<Rightarrow> 'a LayerRegion \<Rightarrow> FuzzySkinPaintedRegion \<Rightarrow> bool" where
  "fuzzy_skin_trims G fuzzy_skin_segmentation_bbox parent_layer_region fuzzy_skin_region \<longleftrightarrow>
     bbox_overlap G (get_extents G (m_slices parent_layer_region)) fuzzy_skin_segmentation_bbox
     \<and> print_object_region_id (fuzzy_region fuzzy_skin_region)
         \<noteq> print_object_region_id (m_region parent_layer_region)"

definition layer_region_remaining_polygons ::
  "('a, 'b) polygon_ops \<Rightarrow> libslic3r_constants \<Rightarrow> 'a set \<Rightarrow> 'b \<Rightarrow> 'a LayerRegion
     \<Rightarrow> FuzzySkinPaintedRegion \<Rightarrow> 'a set" where
  "layer_region_remaining_polygons G K fuzzy_skin_segmentation fuzzy_skin_segmentation_bbox
       parent_layer_region fuzzy_skin_region =
     (if fuzzy_skin_trims G fuzzy_skin_segmentation_bbox parent_layer_region fuzzy_skin_region
      then
        (let remaining = m_slices parent_layer_region - fuzzy_skin_segmentation
         in if remaining \<noteq> {}
            then ops_opening G remaining (scaled K (5 * EPSILON K)) (scaled K (5 * EPSILON K))
            else remaining)
      else m_slices parent_layer_region)"

definition fuzzy_parent_layer_region ::
  "('a, 'b) polygon_ops \<Rightarrow> libslic3r_constants \<Rightarrow> ('v, 'tr) LayerRangeRegions
     \<Rightarrow> 'a set \<Rightarrow> 'b \<Rightarrow> 'a Layer \<Rightarrow> nat
     \<Rightarrow> nat \<times> 'a ByRegion list \<Rightarrow> (nat \<times> 'a ByRegion list) option" where
  "fuzzy_parent_layer_region G K layer_range fuzzy_skin_segmentation fuzzy_skin_segmentation_bbox
       layer parent_layer_region_idx st =
     (let frs = fuzzy_skin_painted_regions layer_range;
          parent_layer_region = m_regions layer ! parent_layer_region_idx;
          parent_id = print_object_region_id (m_region parent_layer_region)
      in if fst st = length frs then Some st
         else if parent_id \<noteq> parent_layer_region_idx then None
         else if m_slices parent_layer_region = {} then Some st
         else
           (let it_fuzzy_skin_region =
                  find_if_from (\<lambda>fr. fuzzy_parent_region_id fr = parent_id) frs (fst st)
            in if it_fuzzy_skin_region \<ge> length frs then Some st
               else
                 (let fuzzy_skin_region = frs ! it_fuzzy_skin_region;
                      stolen = m_slices parent_layer_region \<inter> fuzzy_skin_segmentation;
                      remaining = layer_region_remaining_polygons G K fuzzy_skin_segmentation
                                    fuzzy_skin_segmentation_bbox parent_layer_region
                                    fuzzy_skin_region
                  in case (if fuzzy_skin_trims G fuzzy_skin_segmentation_bbox parent_layer_region
                                fuzzy_skin_region \<and> stolen \<noteq> {}
                           then by_region_add_at (snd st)
                                  (print_object_region_id (fuzzy_region fuzzy_skin_region)) stolen
                           else Some (snd st)) of
                       None \<Rightarrow> None
                     | Some by_region1 \<Rightarrow>
                         (if remaining \<noteq> {} then
                            (case by_region_add_at by_region1 parent_id remaining of
                               None \<Rightarrow> None
                             | Some by_region2 \<Rightarrow> Some (Suc it_fuzzy_skin_region, by_region2))
                          else Some (Suc it_fuzzy_skin_region, by_region1)))))"

fun fuzzy_parent_layer_regions ::
  "('a, 'b) polygon_ops \<Rightarrow> libslic3r_constants \<Rightarrow> ('v, 'tr) LayerRangeRegions
     \<Rightarrow> 'a set \<Rightarrow> 'b \<Rightarrow> 'a Layer \<Rightarrow> nat list
     \<Rightarrow> nat \<times> 'a ByRegion list \<Rightarrow> (nat \<times> 'a ByRegion list) option" where
  "fuzzy_parent_layer_regions G K layer_range seg seg_bbox layer [] st = Some st"
| "fuzzy_parent_layer_regions G K layer_range seg seg_bbox layer (idx # rest) st =
     (case fuzzy_parent_layer_region G K layer_range seg seg_bbox layer idx st of
        None \<Rightarrow> None
      | Some st' \<Rightarrow> fuzzy_parent_layer_regions G K layer_range seg seg_bbox layer rest st')"

definition fuzzy_layer ::
  "('a, 'b) polygon_ops \<Rightarrow> libslic3r_constants \<Rightarrow> ('v, 'tr) LayerRangeRegions
     \<Rightarrow> 'a set list \<Rightarrow> 'a Layer \<Rightarrow> 'a Layer option" where
  "fuzzy_layer G K layer_range segmentation_layer layer =
     (if length segmentation_layer \<noteq> 1 then None
      else
        (let fuzzy_skin_segmentation = segmentation_layer ! 0;
             fuzzy_skin_segmentation_bbox = get_extents G fuzzy_skin_segmentation
         in if fuzzy_skin_segmentation = {} then Some layer
            else
              (case fuzzy_parent_layer_regions G K layer_range fuzzy_skin_segmentation
                      fuzzy_skin_segmentation_bbox layer [0 ..< length (m_regions layer)]
                      (0, replicate (length (m_regions layer))
                            \<lparr>br_expolygons = {}, needs_merge = False\<rparr>) of
                 None \<Rightarrow> None
               | Some st \<Rightarrow> Some (recreate_surfaces G K (snd st) layer))))"

definition apply_fuzzy_skin_segmentation ::
  "('a, 'b) polygon_ops \<Rightarrow> libslic3r_constants \<Rightarrow> (nat list \<Rightarrow> nat list list)
     \<Rightarrow> ('v, 'tr) PrintObjectRegions \<Rightarrow> 'a set list list \<Rightarrow> 'a Layer list
     \<Rightarrow> 'a Layer list option" where
  "apply_fuzzy_skin_segmentation G K layer_chunks shared_regions segmentation layers =
     (if length segmentation \<noteq> length layers then None
      else segmentation_chunks
             (\<lambda>layer_range layer_id' layer.
                fuzzy_layer G K layer_range (segmentation ! layer_id') layer)
             (layer_ranges shared_regions)
             (layer_chunks [0 ..< length segmentation]) layers)"

subsection \<open>Predicates of the proofs about the paint-based reclassification\<close>

text \<open>
  \<open>subtracted_masks\<close> is the union of the masks that the trimming loop subtracts, given
  the value of \<^verbatim>\<open>self_extruder_id\<close>. \<open>target_painted_region\<close> is the painted region that
  the stealing loop finds for an extruder, searching from the first painted region of the
  parent. The mask \<open>k\<close> (of extruder \<open>k + 1\<close>) is an own mask of the parent layer region
  when it overlaps the parent and the painted region found for it maps the parent to the
  print region of the parent itself; the stealing loop writes its extruder to
  \<^verbatim>\<open>self_extruder_id\<close>, so that the trimming loop spares the last of the own masks.
\<close>

definition subtracted_masks ::
  "('a, 'b) polygon_ops \<Rightarrow> 'b \<Rightarrow> int \<Rightarrow> nat \<Rightarrow> ('a, 'b) ByExtruder list \<Rightarrow> 'a set" where
  "subtracted_masks G bb self idx segs =
     \<Union> {be_expolygons (segs ! k) | k.
          k < length segs \<and> int (idx + k) + 1 \<noteq> self \<and> segmented_overlaps G bb (segs ! k)}"

definition target_painted_region ::
  "('v, 'tr) LayerRangeRegions \<Rightarrow> nat \<Rightarrow> nat \<Rightarrow> nat" where
  "target_painted_region layer_range it_first extruder_id' =
     find_if_from (\<lambda>pr. extruder_id pr \<ge> extruder_id') (painted_regions layer_range) it_first"

definition own_mask ::
  "('a, 'b) polygon_ops \<Rightarrow> ('v, 'tr) LayerRangeRegions \<Rightarrow> ('a, 'b) ByExtruder list
     \<Rightarrow> 'a LayerRegion \<Rightarrow> nat \<Rightarrow> nat \<Rightarrow> bool" where
  "own_mask G layer_range by_extruder parent_layer_region it_first k \<longleftrightarrow>
     segmented_overlaps G (get_extents G (m_slices parent_layer_region)) (by_extruder ! k)
     \<and> target_painted_region layer_range it_first (Suc k)
         < length (painted_regions layer_range)
     \<and> print_object_region_id
           (painted_region (painted_regions layer_range
              ! target_painted_region layer_range it_first (Suc k)))
         = print_object_region_id (m_region parent_layer_region)"

definition last_own_mask ::
  "('a, 'b) polygon_ops \<Rightarrow> ('v, 'tr) LayerRangeRegions \<Rightarrow> ('a, 'b) ByExtruder list
     \<Rightarrow> 'a LayerRegion \<Rightarrow> nat \<Rightarrow> nat \<Rightarrow> bool" where
  "last_own_mask G layer_range by_extruder parent_layer_region it_first k \<longleftrightarrow>
     own_mask G layer_range by_extruder parent_layer_region it_first k
     \<and> list_all (\<lambda>j. \<not> own_mask G layer_range by_extruder parent_layer_region it_first j)
          [Suc k ..< length by_extruder]"

text \<open>
  \<open>by_region_grows S p b b'\<close>: from \<open>b\<close> to \<open>b'\<close> the entry of region \<open>p\<close> is untouched
  and the other entries only gain polygons, all of them out of \<open>S\<close>.
\<close>

definition by_region_grows ::
  "'a set \<Rightarrow> nat \<Rightarrow> 'a ByRegion list \<Rightarrow> 'a ByRegion list \<Rightarrow> bool" where
  "by_region_grows S p b b' \<longleftrightarrow>
     length b' = length b \<and> b' ! p = b ! p
     \<and> (\<forall>r < length b. br_expolygons (b ! r) \<subseteq> br_expolygons (b' ! r)
           \<and> br_expolygons (b' ! r) \<subseteq> br_expolygons (b ! r) \<union> S)"

text \<open>The value of \<^verbatim>\<open>self_extruder_id\<close> after the masks from index \<open>k\<close> on.\<close>

fun self_after ::
  "('a, 'b) polygon_ops \<Rightarrow> ('v, 'tr) LayerRangeRegions \<Rightarrow> ('a, 'b) ByExtruder list
     \<Rightarrow> 'a LayerRegion \<Rightarrow> nat \<Rightarrow> nat list \<Rightarrow> int \<Rightarrow> int" where
  "self_after G layer_range by_extruder parent_lr it_first [] self = self"
| "self_after G layer_range by_extruder parent_lr it_first (k # ks) self =
     self_after G layer_range by_extruder parent_lr it_first ks
       (if own_mask G layer_range by_extruder parent_lr it_first k then int (Suc k) else self)"

text \<open>
  What a parent layer region contributes to its own print region in
  \<^verbatim>\<open>apply_mm_segmentation\<close>, when the loop over the parents reaches it with the iterator
  \<open>it\<close> into the painted regions. The parent is split when the iterator is not at the
  end, the parent has slices and a painted region from \<open>it\<close> on overrides its print
  region; then it keeps its polygons minus every mask that overlaps it, except the last
  mask whose painted region maps the parent to its own print region, opened by
  \<open>5 * EPSILON\<close>. A parent that is not split contributes nothing.
\<close>

definition parent_is_split ::
  "('v, 'tr) LayerRangeRegions \<Rightarrow> 'a Layer \<Rightarrow> nat \<Rightarrow> nat \<Rightarrow> bool" where
  "parent_is_split layer_range layer p it \<longleftrightarrow>
     it \<noteq> length (painted_regions layer_range)
     \<and> m_slices (m_regions layer ! p) \<noteq> {}
     \<and> (case find_first_painted_region layer_range p
                (drop it (painted_regions layer_range)) it of
           None \<Rightarrow> False
         | Some it_first \<Rightarrow> it_first \<noteq> length (painted_regions layer_range))"

definition parent_remaining ::
  "('a, 'b) polygon_ops \<Rightarrow> libslic3r_constants \<Rightarrow> ('v, 'tr) LayerRangeRegions
     \<Rightarrow> ('a, 'b) ByExtruder list \<Rightarrow> 'a LayerRegion \<Rightarrow> nat \<Rightarrow> 'a set" where
  "parent_remaining G K layer_range by_extruder parent_lr it_first =
     (let mine = m_slices parent_lr
            - \<Union> (set (map (\<lambda>k. be_expolygons (by_extruder ! k))
                 (filter (\<lambda>k. segmented_overlaps G (get_extents G (m_slices parent_lr))
                                 (by_extruder ! k)
                             \<and> \<not> last_own_mask G layer_range by_extruder parent_lr it_first k)
                    [0 ..< length by_extruder])))
      in if mine \<noteq> {}
         then ops_opening G mine (scaled K (5 * EPSILON K)) (scaled K (5 * EPSILON K))
         else {})"

definition parent_contribution ::
  "('a, 'b) polygon_ops \<Rightarrow> libslic3r_constants \<Rightarrow> ('v, 'tr) LayerRangeRegions
     \<Rightarrow> ('a, 'b) ByExtruder list \<Rightarrow> 'a Layer \<Rightarrow> nat \<Rightarrow> nat \<Rightarrow> 'a set" where
  "parent_contribution G K layer_range by_extruder layer p it =
     (if parent_is_split layer_range layer p it
      then parent_remaining G K layer_range by_extruder (m_regions layer ! p)
             (the (find_first_painted_region layer_range p
                     (drop it (painted_regions layer_range)) it))
      else {})"

text \<open>
  The polygons of the layer region \<open>p\<close> after a layer was split: the polygons \<open>E\<close> that
  were gathered for its region, closed by \<open>10 * EPSILON\<close> if they were merged.
\<close>

definition recreated_from ::
  "('a, 'b) polygon_ops \<Rightarrow> libslic3r_constants \<Rightarrow> 'a Layer \<Rightarrow> 'a Layer \<Rightarrow> nat \<Rightarrow> 'a set \<Rightarrow> bool" where
  "recreated_from G K layer layer' p E \<longleftrightarrow>
     length (m_regions layer') = length (m_regions layer)
     \<and> m_region (m_regions layer' ! p) = m_region (m_regions layer ! p)
     \<and> (m_slices (m_regions layer' ! p) = E
        \<or> m_slices (m_regions layer' ! p) = ops_closing_ex G E (scaled K (10 * EPSILON K)))"

text \<open>
  What a parent layer region contributes to its own print region in
  \<^verbatim>\<open>apply_fuzzy_skin_segmentation\<close>, when the loop over the parents reaches it with the
  iterator \<open>it\<close> into the fuzzy skin painted regions. The parent is split when the
  iterator is not at the end, the parent has slices and a painted region from \<open>it\<close> on
  overrides its print region: then the mask is subtracted from its polygons, and what
  remains is opened by \<open>5 * EPSILON\<close>, if the bounding boxes overlap and the painted
  region does not map the parent to its own print region, and the parent keeps all its
  polygons otherwise. A parent that is not split contributes nothing.
\<close>

definition fuzzy_parent_is_split ::
  "('v, 'tr) LayerRangeRegions \<Rightarrow> 'a Layer \<Rightarrow> nat \<Rightarrow> nat \<Rightarrow> bool" where
  "fuzzy_parent_is_split layer_range layer p it \<longleftrightarrow>
     it \<noteq> length (fuzzy_skin_painted_regions layer_range)
     \<and> m_slices (m_regions layer ! p) \<noteq> {}
     \<and> find_if_from (\<lambda>fr. fuzzy_parent_region_id fr = p)
           (fuzzy_skin_painted_regions layer_range) it
         < length (fuzzy_skin_painted_regions layer_range)"

definition fuzzy_parent_remaining ::
  "('a, 'b) polygon_ops \<Rightarrow> libslic3r_constants \<Rightarrow> 'a set \<Rightarrow> 'b \<Rightarrow> 'a LayerRegion
     \<Rightarrow> FuzzySkinPaintedRegion \<Rightarrow> 'a set" where
  "fuzzy_parent_remaining G K fuzzy_mask fuzzy_bbox parent_lr fuzzy_skin_region =
     (if bbox_overlap G (get_extents G (m_slices parent_lr)) fuzzy_bbox
         \<and> print_object_region_id (fuzzy_region fuzzy_skin_region)
             \<noteq> print_object_region_id (m_region parent_lr)
      then (if m_slices parent_lr - fuzzy_mask = {} then {}
            else ops_opening G (m_slices parent_lr - fuzzy_mask)
                   (scaled K (5 * EPSILON K)) (scaled K (5 * EPSILON K)))
      else m_slices parent_lr)"

definition fuzzy_parent_contribution ::
  "('a, 'b) polygon_ops \<Rightarrow> libslic3r_constants \<Rightarrow> ('v, 'tr) LayerRangeRegions
     \<Rightarrow> 'a set \<Rightarrow> 'b \<Rightarrow> 'a Layer \<Rightarrow> nat \<Rightarrow> nat \<Rightarrow> 'a set" where
  "fuzzy_parent_contribution G K layer_range fuzzy_mask fuzzy_bbox layer p it =
     (if fuzzy_parent_is_split layer_range layer p it
      then fuzzy_parent_remaining G K fuzzy_mask fuzzy_bbox (m_regions layer ! p)
             (fuzzy_skin_painted_regions layer_range
                ! find_if_from (\<lambda>fr. fuzzy_parent_region_id fr = p)
                    (fuzzy_skin_painted_regions layer_range) it)
      else {})"

text \<open>
  \<open>per_layer_done per_layer layer_rngs layers layers' i\<close>: layer \<open>i\<close> of \<open>layers'\<close> is what
  the work on one layer makes of layer \<open>i\<close> of \<open>layers\<close>, with a layer range that holds
  the slicing height of the layer.
\<close>

definition per_layer_done ::
  "(('v, 'tr) LayerRangeRegions \<Rightarrow> nat \<Rightarrow> 'a Layer \<Rightarrow> 'a Layer option)
     \<Rightarrow> ('v, 'tr) LayerRangeRegions list \<Rightarrow> 'a Layer list \<Rightarrow> 'a Layer list \<Rightarrow> nat \<Rightarrow> bool" where
  "per_layer_done per_layer layer_rngs layers layers' i \<longleftrightarrow>
     (\<exists>layer_range \<in> set layer_rngs.
        fst (layer_height_range layer_range) \<le> slice_z (layers ! i)
        \<and> slice_z (layers ! i) < snd (layer_height_range layer_range)
        \<and> per_layer layer_range i (layers ! i) = Some (layers' ! i))"

text \<open>
  \<open>mm_layer_region_split\<close> and \<open>fuzzy_layer_region_split\<close>: what the layer region \<open>p\<close> of
  a layer that is split holds afterwards. When the loop over the parents reaches \<open>p\<close>,
  with the iterator \<open>it\<close>, the entry of its region holds polygons stolen from the parents
  before it; then \<open>p\<close> adds its own contribution, and the parents after it add polygons
  stolen from them. The layer region gets these polygons, closed if they were merged.
\<close>

definition mm_layer_region_split ::
  "('a, 'b) polygon_ops \<Rightarrow> libslic3r_constants \<Rightarrow> ('v, 'tr) LayerRangeRegions
     \<Rightarrow> ('a, 'b) ByExtruder list \<Rightarrow> 'a Layer \<Rightarrow> 'a Layer \<Rightarrow> nat \<Rightarrow> bool" where
  "mm_layer_region_split G K layer_range by_extruder layer layer' p \<longleftrightarrow>
     (\<exists>it stolen_before stolen_after.
        mm_parent_layer_regions G K layer_range by_extruder layer [0 ..< p]
            (0, replicate (length (m_regions layer))
                  \<lparr>br_expolygons = {}, needs_merge = False\<rparr>)
          = Some (it, stolen_before)
        \<and> br_expolygons (stolen_before ! p)
            \<subseteq> (\<Union>q \<in> {0 ..< p}. m_slices (m_regions layer ! q))
        \<and> stolen_after \<subseteq> (\<Union>q \<in> {Suc p ..< length (m_regions layer)}.
                              m_slices (m_regions layer ! q))
        \<and> recreated_from G K layer layer' p
            (br_expolygons (stolen_before ! p)
             \<union> parent_contribution G K layer_range by_extruder layer p it
             \<union> stolen_after))"

definition fuzzy_layer_region_split ::
  "('a, 'b) polygon_ops \<Rightarrow> libslic3r_constants \<Rightarrow> ('v, 'tr) LayerRangeRegions
     \<Rightarrow> 'a set \<Rightarrow> 'a Layer \<Rightarrow> 'a Layer \<Rightarrow> nat \<Rightarrow> bool" where
  "fuzzy_layer_region_split G K layer_range fuzzy_mask layer layer' p \<longleftrightarrow>
     (\<exists>it stolen_before stolen_after.
        fuzzy_parent_layer_regions G K layer_range fuzzy_mask (get_extents G fuzzy_mask)
            layer [0 ..< p]
            (0, replicate (length (m_regions layer))
                  \<lparr>br_expolygons = {}, needs_merge = False\<rparr>)
          = Some (it, stolen_before)
        \<and> br_expolygons (stolen_before ! p)
            \<subseteq> (\<Union>q \<in> {0 ..< p}. m_slices (m_regions layer ! q))
        \<and> stolen_after \<subseteq> (\<Union>q \<in> {Suc p ..< length (m_regions layer)}.
                              m_slices (m_regions layer ! q))
        \<and> recreated_from G K layer layer' p
            (br_expolygons (stolen_before ! p)
             \<union> fuzzy_parent_contribution G K layer_range fuzzy_mask
                 (get_extents G fuzzy_mask) layer p it
             \<union> stolen_after))"

subsection \<open>Example data of the paint-based reclassification\<close>

text \<open>
  Polygon sets are sets of numbers and bounding boxes are intervals; opening and closing
  change nothing. The object has one layer with two layer regions; the layer region of
  print region 0 has the polygons 1, 2 and 3. Extruder 1 is the own extruder of print
  region 0, extruder 2 maps it to print region 1, and so does the fuzzy skin.
\<close>

definition interval_ops :: "(nat, nat \<times> nat) polygon_ops" where
  "interval_ops =
     \<lparr>get_extents = (\<lambda>S. (Min S, Max S)),
      bbox_defined = (\<lambda>b. fst b \<le> snd b),
      bbox_overlap = (\<lambda>l r. \<not> (snd l < fst r \<or> snd r < fst l)),
      ops_opening = (\<lambda>S r1 r2. S),
      ops_closing_ex = (\<lambda>S r. S)\<rparr>"

definition painted_range :: "(real, unit) LayerRangeRegions" where
  "painted_range =
     \<lparr>layer_height_range = (0, 10), volumes = [1],
      volume_regions =
        [\<lparr>model_volume = mk_vol 1 MODEL_PART, parent = - 1,
          region = Some (mk_region 0), bbox = box_x 0 1\<rparr>],
      painted_regions =
        [\<lparr>extruder_id = 1, painted_parent = 0, painted_region = mk_region 0\<rparr>,
         \<lparr>extruder_id = 2, painted_parent = 0, painted_region = mk_region 1\<rparr>],
      fuzzy_skin_painted_regions =
        [\<lparr>fuzzy_parent_region_id = 0, fuzzy_region = mk_region 1\<rparr>]\<rparr>"

definition two_masks :: "(nat, nat \<times> nat) ByExtruder list" where
  "two_masks = [\<lparr>be_expolygons = {1}, be_bbox = Some (1, 1)\<rparr>,
                \<lparr>be_expolygons = {2}, be_bbox = Some (2, 2)\<rparr>]"

definition two_nozzles :: PrintConfig where
  "two_nozzles = \<lparr>config_resolution = 0, nozzle_diameter = [0.4, 0.4], spiral_vase = False\<rparr>"

definition painted_shared :: "(real, unit) PrintObjectRegions" where
  "painted_shared = \<lparr>all_regions = [mk_region 0, mk_region 1], layer_ranges = [painted_range]\<rparr>"

definition painted_layer :: "nat set \<Rightarrow> nat set \<Rightarrow> nat Layer" where
  "painted_layer s0 s1 =
     \<lparr>m_id = 0, height = 1, print_z = 1, slice_z = 1 / 2,
      m_regions = [\<lparr>m_region = mk_region 0, m_slices = s0\<rparr>,
                   \<lparr>m_region = mk_region 1, m_slices = s1\<rparr>],
      lslices = {}, lower_layer = None, upper_layer = None\<rparr>"

definition one_chunk :: "nat list \<Rightarrow> nat list list" where
  "one_chunk xs = [xs]"

section \<open>Properties\<close>

subsection \<open>Loop roles\<close>

lemma no_child_contour_iff: "no_child_contour cs \<longleftrightarrow> (\<forall>c \<in> set cs. \<not> is_contour c)"
  by (induction cs) auto

lemma coll_roles:
  "map loop_role (traverse_loops_classic_coll P ls)
     = map loop_role_of (filter (loop_emitted P) ls)"
  by (induction ls) (auto simp: Let_def loop_emitted_def)

text \<open>
  C8, as the claim states it: a loop gets the role of an internal contour exactly when its
  depth is at least 1 and it has no child contour. This fails for an external contour
  (depth 0) without children, and for a hole of depth 1.
\<close>

theorem C8_counterexample:
  "\<not> (loop_role_of (PerimeterGeneratorLoop (0::nat) 0 True []) = elrContourInternalPerimeter
        \<longleftrightarrow> 1 \<le> depth (PerimeterGeneratorLoop (0::nat) 0 True [])
            \<and> no_child_contour (children (PerimeterGeneratorLoop (0::nat) 0 True [])))
   \<and> \<not> (loop_role_of (PerimeterGeneratorLoop (0::nat) 1 False []) = elrContourInternalPerimeter
        \<longleftrightarrow> 1 \<le> depth (PerimeterGeneratorLoop (0::nat) 1 False [])
            \<and> no_child_contour (children (PerimeterGeneratorLoop (0::nat) 1 False [])))"
  by (simp add: loop_role_of_def is_internal_contour_def)

text \<open>
  C8, amended: the loops that \<^verbatim>\<open>traverse_loops_classic\<close> emits carry, in the order of
  the input, the roles of the loops that were not skipped; the role of a loop is the
  internal contour role exactly when the loop is a contour (not a hole) and none of its
  direct children is a contour, whatever its depth, and the default role otherwise.
\<close>

theorem C8_loop_role:
  "map loop_role (traverse_loops_classic_coll P ls)
     = map loop_role_of (filter (loop_emitted P) ls)
   \<and> (loop_role_of l = elrContourInternalPerimeter
        \<longleftrightarrow> is_contour l \<and> (\<forall>c \<in> set (children l). \<not> is_contour c))
   \<and> (loop_role_of l = elrDefault
        \<longleftrightarrow> \<not> (is_contour l \<and> (\<forall>c \<in> set (children l). \<not> is_contour c)))"
  by (simp add: coll_roles loop_role_of_def is_internal_contour_def no_child_contour_iff)

theorem C8_loop_role_witness:
  "map loop_role
     (traverse_loops_classic_coll
        \<lparr>detect_overhangs = True, apply_fuzzy_skin = polygon,
         intersection_pl = (\<lambda>p. if p = 7 then [] else [p]), diff_pl = (\<lambda>p. []),
         split_at_first_point = (\<lambda>p. p), chain_and_reorder = (\<lambda>ps. ps)\<rparr>
        [PerimeterGeneratorLoop (5::nat) 0 True [PerimeterGeneratorLoop 6 1 True []],
         PerimeterGeneratorLoop 7 0 True [],
         PerimeterGeneratorLoop 8 0 True [PerimeterGeneratorLoop 9 0 False []]])
     = [elrDefault, elrContourInternalPerimeter]
   \<and> loop_role_of (PerimeterGeneratorLoop (8::nat) 0 True [PerimeterGeneratorLoop 9 0 False []])
       = elrContourInternalPerimeter
   \<and> is_contour (PerimeterGeneratorLoop (8::nat) 0 True [PerimeterGeneratorLoop 9 0 False []])
   \<and> map is_contour
        (children (PerimeterGeneratorLoop (8::nat) 0 True [PerimeterGeneratorLoop 9 0 False []]))
       = [False]"
  using C8_loop_role
    [of "\<lparr>detect_overhangs = True, apply_fuzzy_skin = polygon,
          intersection_pl = (\<lambda>p. if p = 7 then [] else [p]), diff_pl = (\<lambda>p. []),
          split_at_first_point = (\<lambda>p. p), chain_and_reorder = (\<lambda>ps. ps)\<rparr>"
        "[PerimeterGeneratorLoop (5::nat) 0 True [PerimeterGeneratorLoop 6 1 True []],
          PerimeterGeneratorLoop 7 0 True [],
          PerimeterGeneratorLoop 8 0 True [PerimeterGeneratorLoop 9 0 False []]]"
        "PerimeterGeneratorLoop (8::nat) 0 True [PerimeterGeneratorLoop 9 0 False []]"]
  by (simp add: loop_emitted_def loop_paths_def is_external_def loop_role_of_def
      is_internal_contour_def)


subsection \<open>Insets of the classic perimeter generator\<close>

text \<open>
  C7, as the claim states it: the first inset is by the external perimeter spacing and
  every later one by the internal perimeter spacing. With an external perimeter 0.45 mm
  wide and internal perimeters 0.5 mm wide at a layer height of 0.2 mm (scaled by
  \<open>10\<^sup>6\<close>), neither the first nor the second inset is of that size.
\<close>

theorem C7_counterexample:
  "net_inset (onion_shell_call
       \<lparr>perimeter_width = 500000, perimeter_spacing = 457080,
        ext_perimeter_width = 450000, ext_perimeter_spacing = 407080,
        ext_perimeter_spacing2 = 432080, min_spacing = 274248,
        ext_min_spacing = 244248\<rparr> False 0) \<noteq> 407080
   \<and> net_inset (onion_shell_call
       \<lparr>perimeter_width = 500000, perimeter_spacing = 457080,
        ext_perimeter_width = 450000, ext_perimeter_spacing = 407080,
        ext_perimeter_spacing2 = 432080, min_spacing = 274248,
        ext_min_spacing = 244248\<rparr> False 1) \<noteq> 457080"
  by (simp add: onion_shell_call_def)

text \<open>
  C7, amended: the first inset (\<open>i = 0\<close>) is by half the width of the external
  perimeter, the second (\<open>i = 1\<close>) by \<^verbatim>\<open>ext_perimeter_spacing2\<close>, the spacing between
  the external and an internal perimeter, and every later inset by the spacing of the
  internal perimeters; with thin walls detected the inset is an \<^verbatim>\<open>offset2_ex\<close> whose
  two steps add up to the same distance.
\<close>

theorem C7_insets:
  "net_inset (onion_shell_call L thin_walls 0) = real_of_int (ext_perimeter_width L) / 2
   \<and> net_inset (onion_shell_call L thin_walls 1) = real_of_int (ext_perimeter_spacing2 L)
   \<and> (2 \<le> i \<longrightarrow>
        net_inset (onion_shell_call L thin_walls i) = real_of_int (perimeter_spacing L))
   \<and> onion_shell_call L False 0 = Offset_ex (- (real_of_int (ext_perimeter_width L) / 2))
   \<and> onion_shell_call L False 1 = Offset_ex (- real_of_int (ext_perimeter_spacing2 L))
   \<and> (2 \<le> i \<longrightarrow>
        onion_shell_call L False i = Offset_ex (- real_of_int (perimeter_spacing L)))"
  by (simp add: onion_shell_call_def Let_def)

theorem C7_insets_witness:
  "(2::nat) \<le> 3
   \<and> net_inset (onion_shell_call
       \<lparr>perimeter_width = 500000, perimeter_spacing = 457080,
        ext_perimeter_width = 450000, ext_perimeter_spacing = 407080,
        ext_perimeter_spacing2 = 432080, min_spacing = 274248,
        ext_min_spacing = 244248\<rparr> True 3) = 457080
   \<and> onion_shell_call
       \<lparr>perimeter_width = 500000, perimeter_spacing = 457080,
        ext_perimeter_width = 450000, ext_perimeter_spacing = 407080,
        ext_perimeter_spacing2 = 432080, min_spacing = 274248,
        ext_min_spacing = 244248\<rparr> False 3 = Offset_ex (- 457080)
   \<and> net_inset (onion_shell_call
       \<lparr>perimeter_width = 500000, perimeter_spacing = 457080,
        ext_perimeter_width = 450000, ext_perimeter_spacing = 407080,
        ext_perimeter_spacing2 = 432080, min_spacing = 274248,
        ext_min_spacing = 244248\<rparr> True 0) = 225000"
  using C7_insets
    [of "\<lparr>perimeter_width = 500000, perimeter_spacing = 457080,
          ext_perimeter_width = 450000, ext_perimeter_spacing = 407080,
          ext_perimeter_spacing2 = 432080, min_spacing = 274248,
          ext_min_spacing = 244248\<rparr>" True 3]
  by simp


subsection \<open>Extra perimeters over overhangs\<close>

lemma floor_log2_eq:
  assumes "0 < x" "2 powi k \<le> x" "x < 2 powi (k + 1)"
  shows "\<lfloor>log 2 x\<rfloor> = k"
proof -
  have "real_of_int k \<le> log 2 x"
    using assms(1,2) by (simp add: le_log_iff powr_real_of_int')
  moreover have "log 2 x < real_of_int (k + 1)"
    using assms(1,3) powr_real_of_int' [of 2 "k + 1"] by (simp add: log_less_iff)
  ultimately show ?thesis by (simp add: floor_eq_iff)
qed

lemma round_to_double_eq:
  assumes "0 < x" "2 powi k \<le> x" "x < 2 powi (k + 1)"
  shows "round_to_double x =
     (let ulp = 2 powi (k - 52);
          n = \<lfloor>x / ulp\<rfloor>;
          frac = x / ulp - of_int n
      in (if frac < 1 / 2 \<or> (frac = 1 / 2 \<and> even n) then of_int n else of_int n + 1) * ulp)"
  using assms floor_log2_eq [OF assms] by (simp add: round_to_double_def)

lemma double_mul_0_2_100: "double_mul double_0_2 100 = 20"
  unfolding double_mul_def
  by (subst round_to_double_eq [where k = 4])
     (simp_all add: double_0_2_def power_int_minus Let_def)

lemma double_mul_40_0_2: "double_mul 40 double_0_2 = 8"
  unfolding double_mul_def
  by (subst round_to_double_eq [where k = 3])
     (simp_all add: double_0_2_def power_int_minus Let_def)

lemma extra_perimeters_islands_eq:
  "extra_perimeters_islands fill ovs =
     (map (\<lambda>ov. if island_is_bridgeable ov then [] else fst (fill ov))
        (filter (\<lambda>ov. \<not> real_overhang_empty ov) ovs),
      concat (map (\<lambda>ov. if real_overhang_empty ov \<or> island_is_bridgeable ov
                        then [overhang_to_cover ov] else snd (fill ov)) ovs))"
  by (induction ovs) (simp_all add: case_prod_beta)

text \<open>
  C2, as the claim states it: an island gets extra perimeters only where its unbridgeable
  area is below 20% of its overhang area and its unsupported distance below 20% of its
  length, and no island failing the thresholds gets any. An island that is half
  unbridgeable fails the thresholds and gets the perimeters of the filling branch; an
  island within both thresholds gets none.
\<close>

theorem C2_counterexample:
  "\<not> island_is_bridgeable
       \<lparr>overhang_to_cover = (0::nat), real_overhang_empty = False, unbridgeable_area = 50,
        real_overhang_area = 100, unsupp_dist = 30, real_overhang_length = 40\<rparr>
   \<and> island_extra_perimeters (\<lambda>ov. ([''ring''], [overhang_to_cover ov]))
       \<lparr>overhang_to_cover = (0::nat), real_overhang_empty = False, unbridgeable_area = 50,
        real_overhang_area = 100, unsupp_dist = 30, real_overhang_length = 40\<rparr>
     = Some [''ring'']
   \<and> island_is_bridgeable
       \<lparr>overhang_to_cover = (0::nat), real_overhang_empty = False, unbridgeable_area = 10,
        real_overhang_area = 100, unsupp_dist = 5, real_overhang_length = 40\<rparr>
   \<and> island_extra_perimeters (\<lambda>ov. ([''ring''], [overhang_to_cover ov]))
       \<lparr>overhang_to_cover = (0::nat), real_overhang_empty = False, unbridgeable_area = 10,
        real_overhang_area = 100, unsupp_dist = 5, real_overhang_length = 40\<rparr>
     = Some []"
  by (simp add: island_extra_perimeters_def island_is_bridgeable_def double_mul_0_2_100
      double_mul_40_0_2)

text \<open>
  C2, amended: the thresholds select the islands that are left to be bridged. Over the
  whole list of islands: an island without real overhang gets no entry in
  \<^verbatim>\<open>extra_perims\<close>; every island with a real overhang gets one entry, in the order of the
  islands, which is empty if the unbridgeable area of the island is below 20% of its
  overhang area and its unsupported distance below 20% of its length (in the arithmetic
  of doubles), whatever the filling branch would produce, and holds exactly the perimeters
  of the filling branch otherwise. The islands without entry or with an empty entry are
  added to the area left unfilled, the others add what the filling branch leaves.
\<close>

theorem C2_extra_perimeters:
  "extra_perimeters_islands fill ovs =
     (map (\<lambda>ov. if island_is_bridgeable ov then [] else fst (fill ov))
        (filter (\<lambda>ov. \<not> real_overhang_empty ov) ovs),
      concat (map (\<lambda>ov. if real_overhang_empty ov \<or> island_is_bridgeable ov
                        then [overhang_to_cover ov] else snd (fill ov)) ovs))
   \<and> (island_is_bridgeable ov \<longleftrightarrow>
        unbridgeable_area ov < double_mul double_0_2 (real_overhang_area ov)
        \<and> unsupp_dist ov < double_mul (real_overhang_length ov) double_0_2)
   \<and> island_extra_perimeters fill ov =
       (if real_overhang_empty ov then None
        else if island_is_bridgeable ov then Some []
        else Some (fst (fill ov)))"
  by (simp add: extra_perimeters_islands_eq island_extra_perimeters_def
      island_is_bridgeable_def)

theorem C2_extra_perimeters_witness:
  "extra_perimeters_islands (\<lambda>ov. ([''ring''], [overhang_to_cover ov + 10]))
       [\<lparr>overhang_to_cover = (0::nat), real_overhang_empty = False, unbridgeable_area = 50,
         real_overhang_area = 100, unsupp_dist = 30, real_overhang_length = 40\<rparr>,
        \<lparr>overhang_to_cover = 1, real_overhang_empty = True, unbridgeable_area = 0,
         real_overhang_area = 0, unsupp_dist = 0, real_overhang_length = 0\<rparr>,
        \<lparr>overhang_to_cover = 2, real_overhang_empty = False, unbridgeable_area = 10,
         real_overhang_area = 100, unsupp_dist = 5, real_overhang_length = 40\<rparr>,
        \<lparr>overhang_to_cover = 3, real_overhang_empty = False, unbridgeable_area = 10,
         real_overhang_area = 100, unsupp_dist = 30, real_overhang_length = 40\<rparr>]
     = ([[''ring''], [], [''ring'']], [10, 1, 2, 13])"
  using C2_extra_perimeters
    [of "\<lambda>ov. ([''ring''], [overhang_to_cover ov + 10])"
        "[\<lparr>overhang_to_cover = (0::nat), real_overhang_empty = False, unbridgeable_area = 50,
           real_overhang_area = 100, unsupp_dist = 30, real_overhang_length = 40\<rparr>,
          \<lparr>overhang_to_cover = 1, real_overhang_empty = True, unbridgeable_area = 0,
           real_overhang_area = 0, unsupp_dist = 0, real_overhang_length = 0\<rparr>,
          \<lparr>overhang_to_cover = 2, real_overhang_empty = False, unbridgeable_area = 10,
           real_overhang_area = 100, unsupp_dist = 5, real_overhang_length = 40\<rparr>,
          \<lparr>overhang_to_cover = 3, real_overhang_empty = False, unbridgeable_area = 10,
           real_overhang_area = 100, unsupp_dist = 30, real_overhang_length = 40\<rparr>]"]
  by (simp add: island_is_bridgeable_def double_mul_0_2_100 double_mul_40_0_2)

subsection \<open>The sentinel of the layer pipeline\<close>

lemma process_layer_not_nop: "\<not> nop_layer_result (process_layer b l)"
  by (simp add: process_layer_def Let_def split: option.splits)

lemma generate_layers_not_nop:
  "list_all (\<lambda>r. \<not> nop_layer_result r) (fst (generate_layers n body ip g idx k))"
  by (induction k arbitrary: g idx) (simp_all add: process_layer_not_nop case_prod_beta)

lemma generate_layers_length:
  "length (fst (generate_layers n body ip g idx k)) = k"
  by (induction k arbitrary: g idx) (simp_all add: case_prod_beta)

lemma filter_nop_generate_layers:
  "filter nop_layer_result (fst (generate_layers n body ip g idx k)) = []"
  using generate_layers_not_nop [of n body ip g idx k]
  by (simp add: filter_empty_conv list_all_iff)

lemma pipeline_tail:
  "parallel_pipeline (smooth_path_interpolator n has_pe ip e) (generator n body) n g out
     = Some (out @ (if has_pe then [make_nop_layer_result] else []), g)"
  apply (subst parallel_pipeline.simps)
  apply (simp add: smooth_path_interpolator_def generator_def)
  apply (subst parallel_pipeline.simps)
  apply (simp add: smooth_path_interpolator_def generator_def)
  done

lemma pipeline_from:
  "idx + k = n \<Longrightarrow>
   parallel_pipeline (smooth_path_interpolator n has_pe ip e) (generator n body) idx g out
     = Some (out @ fst (generate_layers n body ip g idx k)
               @ (if has_pe then [make_nop_layer_result] else []),
             snd (generate_layers n body ip g idx k))"
proof (induction k arbitrary: idx g out)
  case 0
  then show ?case by (simp add: pipeline_tail)
next
  case (Suc k)
  then have lt: "idx < n" and nx: "Suc idx + k = n" by simp_all
  show ?case
    using lt
    by (subst parallel_pipeline.simps)
       (simp add: smooth_path_interpolator_def generator_def case_prod_beta Suc.IH [OF nx])
qed

text \<open>
  C6: started with the counter at 0, the source and the generator of
  \<^verbatim>\<open>process_layers\<close> come to an end and hand on the results of the \<open>n\<close> real layers
  in their order, none of them a no-op result, followed by exactly one no-op result if
  the pressure equalizer is set and by nothing if it is not: the no-op results of the
  stream are one \<^verbatim>\<open>make_nop_layer_result()\<close> with the equalizer, and none without.
\<close>

theorem C6_sentinel:
  "parallel_pipeline (smooth_path_interpolator n has_pe ip e) (generator n body) 0 g []
     = Some (fst (generate_layers n body ip g 0 n)
               @ (if has_pe then [make_nop_layer_result] else []),
             snd (generate_layers n body ip g 0 n))
   \<and> length (fst (generate_layers n body ip g 0 n)) = n
   \<and> list_all (\<lambda>r. \<not> nop_layer_result r) (fst (generate_layers n body ip g 0 n))
   \<and> filter nop_layer_result
        (fst (generate_layers n body ip g 0 n)
           @ (if has_pe then [make_nop_layer_result] else []))
       = (if has_pe then [make_nop_layer_result] else [])"
  using pipeline_from [of 0 n n has_pe ip e body g "[]"]
  by (simp add: generate_layers_length generate_layers_not_nop filter_nop_generate_layers
      make_nop_layer_result_def)

theorem C6_sentinel_witness:
  "parallel_pipeline (smooth_path_interpolator 2 True (\<lambda>i. i) 0)
       (generator 2 (\<lambda>g idx c. (\<lparr>lg_layer_id = idx, lg_no_extruders = False,
            lg_spiral_vase = None, lg_gcode = Some ''G1'', lg_object_or_raft = True\<rparr>,
            Suc g))) 0 (0::nat) []
     = Some ([\<lparr>gcode = ''G1'', layer_id = 0, spiral_vase_enable = False,
                cooling_buffer_flush = True, nop_layer_result = False\<rparr>,
              \<lparr>gcode = ''G1'', layer_id = 1, spiral_vase_enable = False,
                cooling_buffer_flush = True, nop_layer_result = False\<rparr>,
              make_nop_layer_result], 2)
   \<and> parallel_pipeline (smooth_path_interpolator 2 False (\<lambda>i. i) 0)
       (generator 2 (\<lambda>g idx c. (\<lparr>lg_layer_id = idx, lg_no_extruders = False,
            lg_spiral_vase = None, lg_gcode = Some ''G1'', lg_object_or_raft = True\<rparr>,
            Suc g))) 0 (0::nat) []
     = Some ([\<lparr>gcode = ''G1'', layer_id = 0, spiral_vase_enable = False,
                cooling_buffer_flush = True, nop_layer_result = False\<rparr>,
              \<lparr>gcode = ''G1'', layer_id = 1, spiral_vase_enable = False,
                cooling_buffer_flush = True, nop_layer_result = False\<rparr>], 2)"
  using C6_sentinel [of 2 True "\<lambda>i. i" 0
      "\<lambda>g idx c. (\<lparr>lg_layer_id = idx, lg_no_extruders = False,
            lg_spiral_vase = None, lg_gcode = Some ''G1'', lg_object_or_raft = True\<rparr>,
            Suc g)" "0::nat"]
    C6_sentinel [of 2 False "\<lambda>i. i" 0
      "\<lambda>g idx c. (\<lparr>lg_layer_id = idx, lg_no_extruders = False,
            lg_spiral_vase = None, lg_gcode = Some ''G1'', lg_object_or_raft = True\<rparr>,
            Suc g)" "0::nat"]
  by (simp add: numeral_2_eq_2 process_layer_def)







subsection \<open>Volumes without slices\<close>

lemma advance_below_Nil [simp]: "advance_below [] b i = i"
  by (simp add: advance_below.simps)

lemma slice_one_volume_keeps:
  "slice_one_volume S K pc lrs zs params mv out = Some out2 \<Longrightarrow>
   out2 = out \<or> (\<exists>e. out2 = out @ [e])"
  by (auto simp: slice_one_volume_def Let_def split: if_splits option.splits)

lemma slice_volumes_loop_nonempty:
  "slice_volumes_loop S K pc lrs zs pb eo mvs out = Some res \<Longrightarrow>
   list_all (\<lambda>e. slices e \<noteq> []) out \<Longrightarrow> list_all (\<lambda>e. slices e \<noteq> []) res"
proof (induction mvs arbitrary: out)
  case Nil
  then show ?case by simp
next
  case (Cons mv mvs)
  show ?case
  proof (cases "model_volume_needs_slicing mv")
    case False
    with Cons show ?thesis by simp
  next
    case True
    with Cons.prems(1) obtain out2 where
      one: "slice_one_volume S K pc lrs zs (volume_params pb eo mv) mv out = Some out2" and
      rest: "slice_volumes_loop S K pc lrs zs pb eo mvs
               (if out2 \<noteq> [] \<and> slices (last out2) = [] then butlast out2 else out2) = Some res"
      by (auto split: option.splits)
    from slice_one_volume_keeps [OF one] Cons.prems(2)
    have "list_all (\<lambda>e. slices e \<noteq> [])
            (if out2 \<noteq> [] \<and> slices (last out2) = [] then butlast out2 else out2)"
      by (auto simp: list_all_iff)
    from Cons.IH [OF rest this] show ?thesis .
  qed
qed

lemma slice_one_volume_returns:
  "\<not> spiral_vase pc \<Longrightarrow> length lrs = 1 \<Longrightarrow>
   slice_one_volume S K pc lrs zs params mv out \<noteq> None"
  by (simp add: slice_one_volume_def Let_def)

lemma slice_volumes_loop_returns:
  "\<not> spiral_vase pc \<Longrightarrow> length lrs = 1 \<Longrightarrow>
   slice_volumes_loop S K pc lrs zs pb eo mvs out \<noteq> None"
proof (induction mvs arbitrary: out)
  case Nil
  then show ?case by simp
next
  case (Cons mv mvs)
  then show ?case
    using slice_one_volume_returns [of pc lrs S K zs "volume_params pb eo mv" mv out]
    by (auto split: option.splits)
qed

lemmas slice_example_defs =
  slice_volumes_inner_def model_volumes_sort_by_id_def part_at_def
  model_volume_needs_slicing_def slice_one_volume_def one_range_def has_volume_def
  is_model_part_def plain_print_config_def slice_volume_def plane_slicer_def
  volume_params_def is_negative_volume_def params_base_of_def plain_object_config_def
  inner_extra_offset_def inner_is_mm_painted_def

text \<open>
  C5, as the claim states it: every entry of the list that \<^verbatim>\<open>slice_volumes_inner\<close>
  returns has a non-empty polygon set at some height. A model part whose one triangle
  lies above both slicing heights is sliced to an empty polygon set at each of them,
  and its entry stays in the list.
\<close>

theorem C5_counterexample:
  "slice_volumes_inner plane_slicer libslic3r plain_print_config plain_object_config ()
     [part_at 1 [10, 11, 12]] [one_range] [1, 2]
   = Some [\<lparr>volume_id = 1, slices = [{}, {}]\<rparr>]"
  by (simp add: slice_example_defs)

text \<open>
  C5, amended: every entry of the list that \<^verbatim>\<open>slice_volumes_inner\<close> returns has a
  non-empty vector of slices; an entry whose vector of slices is empty (nothing was
  sliced: no heights, a mesh without triangles, or no height inside a range of the volume)
  is dropped. The polygon sets of an entry may all be empty. With one layer range and
  outside spiral vase mode the function always returns.
\<close>

theorem C5_nonempty_slices:
  "(slice_volumes_inner S K print_config print_object_config object_trafo model_volumes
      layer_rngs zs = Some out
    \<longrightarrow> list_all (\<lambda>e. slices e \<noteq> []) out)
   \<and> (\<not> spiral_vase print_config \<and> length layer_rngs = 1 \<longrightarrow>
        slice_volumes_inner S K print_config print_object_config object_trafo model_volumes
          layer_rngs zs \<noteq> None)"
  using slice_volumes_loop_nonempty [where out = "[]"] slice_volumes_loop_returns
  by (auto simp: slice_volumes_inner_def Let_def)

theorem C5_nonempty_slices_witness:
  "slice_volumes_inner plane_slicer libslic3r plain_print_config plain_object_config ()
     [part_at 3 [10, 11, 12], part_at 2 [], part_at 1 [0, 0, 5]] [one_range] [1, 2]
   = Some [\<lparr>volume_id = 1, slices = [{(0, 0)}, {(0, 0)}]\<rparr>,
           \<lparr>volume_id = 3, slices = [{}, {}]\<rparr>]
   \<and> list_all (\<lambda>e. slices e \<noteq> [])
        [\<lparr>volume_id = 1, slices = [{(0, 0)}, {(0::int, 0::int)}]\<rparr>,
         \<lparr>volume_id = 3, slices = [{}, {}]\<rparr>]
   \<and> \<not> spiral_vase plain_print_config \<and> length [one_range] = 1"
  using C5_nonempty_slices [of plane_slicer libslic3r plain_print_config plain_object_config "()"
      "[part_at 3 [10, 11, 12], part_at 2 [], part_at 1 [0, 0, 5]]" "[one_range]" "[1, 2]"]
  by (simp add: slice_example_defs)

subsection \<open>Region resolution\<close>

lemma set_expolygons_length [simp]: "length (set_expolygons t i x) = length t"
  by (simp add: set_expolygons_def)

lemma set_expolygons_nth [simp]:
  "j < length t \<Longrightarrow>
   expolygons (set_expolygons t i x ! j) = (if j = i then x else expolygons (t ! j))"
  by (simp add: set_expolygons_def nth_list_update)

lemma set_expolygons_region_id [simp]:
  "region_id (set_expolygons t i x ! j) = region_id (t ! j)"
proof (cases "i < length t")
  case True
  then show ?thesis by (auto simp: set_expolygons_def nth_list_update)
next
  case False
  then have "t[i := (t ! i)\<lparr>expolygons := x\<rparr>] = t" by (simp add: list_update_beyond)
  then show ?thesis by (simp add: set_expolygons_def)
qed

lemma clip_one_length [simp]: "length (clip_one vrs k m t) = length t"
  by (simp add: clip_one_def)

lemma clip_one_region_id [simp]: "region_id (clip_one vrs k m t ! j) = region_id (t ! j)"
  by (simp add: clip_one_def)

lemma clip_one_nth:
  "j < length t \<Longrightarrow>
   expolygons (clip_one vrs k m t ! j)
   = (if j = m \<and> expolygons (t ! m) \<noteq> {}
         \<and> \<not> is_negative_volume (model_volume (vrs ! m))
         \<and> overlap_in_xy (bbox (vrs ! k)) (bbox (vrs ! m))
      then expolygons (t ! m) - expolygons (t ! k)
      else expolygons (t ! j))"
  by (simp add: clip_one_def)

lemma clip_preceding_upto:
  "m \<le> k \<Longrightarrow> k < length temp \<Longrightarrow>
   length (fold (clip_one vrs k) [0 ..< m] temp) = length temp
   \<and> (\<forall>j < length temp.
        expolygons (fold (clip_one vrs k) [0 ..< m] temp ! j)
        = (if j < m \<and> expolygons (temp ! j) \<noteq> {}
              \<and> \<not> is_negative_volume (model_volume (vrs ! j))
              \<and> overlap_in_xy (bbox (vrs ! k)) (bbox (vrs ! j))
           then expolygons (temp ! j) - expolygons (temp ! k)
           else expolygons (temp ! j)))
   \<and> (\<forall>j. region_id (fold (clip_one vrs k) [0 ..< m] temp ! j) = region_id (temp ! j))"
proof (induction m)
  case 0
  then show ?case by simp
next
  case (Suc m)
  then have IH: "m \<le> k" "k < length temp" by simp_all
  note ih = Suc.IH [OF IH]
  have mk: "m < k" "m < length temp" using Suc.prems by simp_all
  let ?F = "fold (clip_one vrs k) [0 ..< m] temp"
  have len: "length ?F = length temp" using ih by simp
  have atm: "expolygons (?F ! m) = expolygons (temp ! m)"
    using ih mk by simp
  have atk: "expolygons (?F ! k) = expolygons (temp ! k)"
    using ih mk IH by simp
  have nth: "\<And>j. j < length temp \<Longrightarrow> j \<noteq> m \<Longrightarrow>
      expolygons (clip_one vrs k m ?F ! j) = expolygons (?F ! j)"
    using len by (simp add: clip_one_nth)
  have nthm: "expolygons (clip_one vrs k m ?F ! m)
      = (if expolygons (temp ! m) \<noteq> {}
         \<and> \<not> is_negative_volume (model_volume (vrs ! m))
         \<and> overlap_in_xy (bbox (vrs ! k)) (bbox (vrs ! m))
         then expolygons (temp ! m) - expolygons (temp ! k) else expolygons (temp ! m))"
    using len mk atm atk by (simp add: clip_one_nth)
  show ?case
  proof (intro conjI allI impI)
    show "length (fold (clip_one vrs k) [0 ..< Suc m] temp) = length temp"
      using len by simp
  next
    fix j assume j: "j < length temp"
    show "expolygons (fold (clip_one vrs k) [0 ..< Suc m] temp ! j)
        = (if j < Suc m \<and> expolygons (temp ! j) \<noteq> {}
              \<and> \<not> is_negative_volume (model_volume (vrs ! j))
              \<and> overlap_in_xy (bbox (vrs ! k)) (bbox (vrs ! j))
           then expolygons (temp ! j) - expolygons (temp ! k)
           else expolygons (temp ! j))"
    proof (cases "j = m")
      case True
      then show ?thesis using nthm by simp
    next
      case False
      then show ?thesis using nth [OF j False] ih j by (simp add: less_Suc_eq)
    qed
  next
    fix j
    show "region_id (fold (clip_one vrs k) [0 ..< Suc m] temp ! j) = region_id (temp ! j)"
      using ih by simp
  qed
qed

lemma clip_preceding_nth:
  assumes "k < length temp"
  shows "length (clip_preceding vrs k temp) = length temp"
    and "j < length temp \<Longrightarrow>
         expolygons (clip_preceding vrs k temp ! j)
         = (if j < k \<and> expolygons (temp ! j) \<noteq> {}
              \<and> \<not> is_negative_volume (model_volume (vrs ! j))
              \<and> overlap_in_xy (bbox (vrs ! k)) (bbox (vrs ! j))
            then expolygons (temp ! j) - expolygons (temp ! k)
            else expolygons (temp ! j))"
    and "region_id (clip_preceding vrs k temp ! j) = region_id (temp ! j)"
  using clip_preceding_upto [of k k temp vrs] assms
  by (simp_all add: clip_preceding_def)

lemma clip_modifier_nth:
  assumes run: "clip_modifier vrs k temp = Some t2"
    and k: "k < length temp" and pk: "nat (parent (vrs ! k)) \<noteq> k"
  shows "length t2 = length temp"
    and "\<And>j. region_id (t2 ! j) = region_id (temp ! j)"
    and "\<And>j. j < length temp \<Longrightarrow>
         expolygons (t2 ! j)
         = (if j = Suc k \<and> mv_id (model_volume (vrs ! Suc k)) = mv_id (model_volume (vrs ! k))
            then expolygons (temp ! k)
            else if j = k
            then expolygons (temp ! nat (parent (vrs ! k))) \<inter> expolygons (temp ! k)
            else if j = nat (parent (vrs ! k))
            then expolygons (temp ! nat (parent (vrs ! k))) - expolygons (temp ! k)
            else expolygons (temp ! j))"
proof -
  from run have p: "nat (parent (vrs ! k)) < length temp"
    by (simp add: clip_modifier_def Let_def split: if_splits)
  show "length t2 = length temp"
    using run by (auto simp: clip_modifier_def Let_def split: if_splits)
  show "\<And>j. region_id (t2 ! j) = region_id (temp ! j)"
    using run by (auto simp: clip_modifier_def Let_def split: if_splits)
  show "\<And>j. j < length temp \<Longrightarrow>
         expolygons (t2 ! j)
         = (if j = Suc k \<and> mv_id (model_volume (vrs ! Suc k)) = mv_id (model_volume (vrs ! k))
            then expolygons (temp ! k)
            else if j = k
            then expolygons (temp ! nat (parent (vrs ! k))) \<inter> expolygons (temp ! k)
            else if j = nat (parent (vrs ! k))
            then expolygons (temp ! nat (parent (vrs ! k))) - expolygons (temp ! k)
            else expolygons (temp ! j))"
    using run k p pk
    by (auto simp: clip_modifier_def Let_def split: if_splits)
qed

lemma regions_well_formed_nth:
  assumes "regions_well_formed vrs" "k < length vrs"
  shows "is_model_part (model_volume (vrs ! k))
           \<or> is_negative_volume (model_volume (vrs ! k))
           \<or> is_modifier (model_volume (vrs ! k))"
    and "is_negative_volume (model_volume (vrs ! k)) \<Longrightarrow> region (vrs ! k) = None"
    and "is_modifier (model_volume (vrs ! k)) \<Longrightarrow>
         0 \<le> parent (vrs ! k) \<and> nat (parent (vrs ! k)) < k
         \<and> \<not> is_negative_volume (model_volume (vrs ! nat (parent (vrs ! k))))"
  using assms by (auto simp: regions_well_formed_def list_all_iff split: if_splits)

lemma clip_inv_empty:
  assumes inv: "clip_inv vrs R k temp" and k: "k < length vrs"
    and e: "expolygons (temp ! k) = {}"
  shows "clip_inv vrs R (Suc k) temp"
  unfolding clip_inv_def
proof (intro conjI allI impI)
  show "length temp = length vrs" using inv by (simp add: clip_inv_def)
next
  fix i assume "i < length vrs"
  then show "expolygons (temp ! i) \<subseteq> R (mv_id (model_volume (vrs ! i)))"
    using inv by (simp add: clip_inv_def)
next
  fix i j assume ij: "i < Suc k" "j < Suc k" and h: "i \<noteq> j
           \<and> \<not> is_negative_volume (model_volume (vrs ! i))
           \<and> \<not> is_negative_volume (model_volume (vrs ! j))"
  show "expolygons (temp ! i) \<inter> expolygons (temp ! j) = {}"
  proof (cases "i = k \<or> j = k")
    case True
    then show ?thesis using e by auto
  next
    case False
    then have "i < k" "j < k" using ij by simp_all
    then show ?thesis using inv h by (simp add: clip_inv_def)
  qed
qed

lemma clip_inv_modifier:
  assumes wf: "regions_well_formed vrs"
    and inv: "clip_inv vrs R k temp" and k: "k < length vrs"
    and m: "is_modifier (model_volume (vrs ! k))"
    and run: "clip_modifier vrs k temp = Some t2"
  shows "clip_inv vrs R (Suc k) t2" and "\<And>j. region_id (t2 ! j) = region_id (temp ! j)"
proof -
  from inv have len: "length temp = length vrs"
    and sub: "\<And>i. i < length vrs \<Longrightarrow> expolygons (temp ! i) \<subseteq> R (mv_id (model_volume (vrs ! i)))"
    and dis: "\<And>i j. i < k \<Longrightarrow> j < k \<Longrightarrow> i \<noteq> j \<Longrightarrow>
          \<not> is_negative_volume (model_volume (vrs ! i)) \<Longrightarrow>
          \<not> is_negative_volume (model_volume (vrs ! j)) \<Longrightarrow>
          expolygons (temp ! i) \<inter> expolygons (temp ! j) = {}"
    by (simp_all add: clip_inv_def)
  have kt: "k < length temp" using k len by simp
  from regions_well_formed_nth(3) [OF wf k m]
  have pp: "nat (parent (vrs ! k)) < k"
    "\<not> is_negative_volume (model_volume (vrs ! nat (parent (vrs ! k))))" by simp_all
  then have pk: "nat (parent (vrs ! k)) \<noteq> k" by simp
  note nth = clip_modifier_nth [OF run kt pk]
  let ?p = "nat (parent (vrs ! k))"
  have pl: "?p < length vrs" using pp k by simp
  have l2: "length t2 = length vrs" using nth(1) len by simp
  have s2: "expolygons (t2 ! i) \<subseteq> R (mv_id (model_volume (vrs ! i)))" if i: "i < length vrs" for i
  proof -
    have il: "i < length temp" using i len by simp
    consider (nx) "i = Suc k" "mv_id (model_volume (vrs ! Suc k)) = mv_id (model_volume (vrs ! k))"
      | (k) "i = k" | (p) "i = ?p" "i \<noteq> k" | (o) "expolygons (t2 ! i) = expolygons (temp ! i)"
      using nth(3) [OF il] by (auto split: if_splits)
    then show ?thesis
    proof cases
      case nx
      then have "expolygons (t2 ! i) = expolygons (temp ! k)" using nth(3) [OF il] by simp
      then show ?thesis using sub [OF k] nx by simp
    next
      case k
      then have "expolygons (t2 ! i) \<subseteq> expolygons (temp ! k)" using nth(3) [OF il] by auto
      then show ?thesis using sub [OF i] k by blast
    next
      case p
      then have "expolygons (t2 ! i) \<subseteq> expolygons (temp ! i)"
        using nth(3) [OF il] pp by auto
      then show ?thesis using sub [OF i] by blast
    next
      case o
      then show ?thesis using sub [OF i] by simp
    qed
  qed
  have ek: "expolygons (t2 ! k) = expolygons (temp ! ?p) \<inter> expolygons (temp ! k)"
    using nth(3) [OF kt] by simp
  have ep: "expolygons (t2 ! ?p) = expolygons (temp ! ?p) - expolygons (temp ! k)"
    using nth(3) [of ?p] pp kt by simp
  have eo: "expolygons (t2 ! i) = expolygons (temp ! i)" if "i < k" "i \<noteq> ?p" for i
    using nth(3) [of i] that kt by simp
  have withk: "expolygons (t2 ! i) \<inter> expolygons (t2 ! k) = {}"
    if i: "i < k" and ni: "\<not> is_negative_volume (model_volume (vrs ! i))" for i
  proof (cases "i = ?p")
    case True
    then show ?thesis using ek ep by auto
  next
    case False
    have "expolygons (temp ! ?p) \<inter> expolygons (temp ! i) = {}"
      using dis [of ?p i] pp i False ni by auto
    then show ?thesis using ek eo [OF i False] by auto
  qed
  have below: "expolygons (t2 ! i) \<inter> expolygons (t2 ! j) = {}"
    if "i < k" "j < k" "i \<noteq> j" "\<not> is_negative_volume (model_volume (vrs ! i))"
       "\<not> is_negative_volume (model_volume (vrs ! j))" for i j
  proof -
    have si: "expolygons (t2 ! i) \<subseteq> expolygons (temp ! i)"
      using ep eo [of i] that by (cases "i = ?p") auto
    have sj: "expolygons (t2 ! j) \<subseteq> expolygons (temp ! j)"
      using ep eo [of j] that by (cases "j = ?p") auto
    from dis [OF that] si sj show ?thesis by blast
  qed
  have d2: "expolygons (t2 ! i) \<inter> expolygons (t2 ! j) = {}"
    if ij: "i < Suc k" "j < Suc k" "i \<noteq> j"
      and ni: "\<not> is_negative_volume (model_volume (vrs ! i))"
      and nj: "\<not> is_negative_volume (model_volume (vrs ! j))" for i j
  proof (cases "i = k")
    case True
    then have "j < k" using ij by simp
    from withk [OF this nj] True show ?thesis by blast
  next
    case False
    then have ik: "i < k" using ij by simp
    show ?thesis
    proof (cases "j = k")
      case True
      from withk [OF ik ni] True show ?thesis by blast
    next
      case False
      then have "j < k" using ij by simp
      from below [OF ik this ij(3) ni nj] show ?thesis .
    qed
  qed
  show "clip_inv vrs R (Suc k) t2"
    unfolding clip_inv_def using l2 s2 d2 by blast
  show "\<And>j. region_id (t2 ! j) = region_id (temp ! j)" using nth(2) .
qed

lemma clip_inv_part:
  assumes box: "\<forall>i < length vrs. \<forall>j < length vrs.
        \<not> overlap_in_xy (bbox (vrs ! i)) (bbox (vrs ! j)) \<longrightarrow>
        R (mv_id (model_volume (vrs ! i))) \<inter> R (mv_id (model_volume (vrs ! j))) = {}"
    and inv: "clip_inv vrs R k temp" and k: "k < length vrs"
  shows "clip_inv vrs R (Suc k) (clip_preceding vrs k temp)"
proof -
  let ?t2 = "clip_preceding vrs k temp"
  from inv have len: "length temp = length vrs"
    and sub: "\<And>i. i < length vrs \<Longrightarrow> expolygons (temp ! i) \<subseteq> R (mv_id (model_volume (vrs ! i)))"
    and dis: "\<And>i j. i < k \<Longrightarrow> j < k \<Longrightarrow> i \<noteq> j \<Longrightarrow>
          \<not> is_negative_volume (model_volume (vrs ! i)) \<Longrightarrow>
          \<not> is_negative_volume (model_volume (vrs ! j)) \<Longrightarrow>
          expolygons (temp ! i) \<inter> expolygons (temp ! j) = {}"
    by (simp_all add: clip_inv_def)
  have kt: "k < length temp" using k len by simp
  note nth = clip_preceding_nth [OF kt, where vrs = vrs]
  have l2: "length ?t2 = length vrs" using nth(1) len by simp
  have ek: "expolygons (?t2 ! k) = expolygons (temp ! k)"
    using nth(2) [OF kt] by simp
  have subs: "expolygons (?t2 ! i) \<subseteq> expolygons (temp ! i)" if "i < length temp" for i
    using nth(2) [OF that] by (auto split: if_splits)
  have s2: "expolygons (?t2 ! i) \<subseteq> R (mv_id (model_volume (vrs ! i)))" if i: "i < length vrs" for i
    using subs [of i] sub [OF i] i len by auto
  have withk: "expolygons (?t2 ! m) \<inter> expolygons (temp ! k) = {}"
    if m: "m < k" and nm: "\<not> is_negative_volume (model_volume (vrs ! m))" for m
  proof -
    have ml: "m < length temp" using m kt by simp
    show ?thesis
    proof (cases "overlap_in_xy (bbox (vrs ! k)) (bbox (vrs ! m))")
      case True
      show ?thesis
      proof (cases "expolygons (temp ! m) = {}")
        case True
        then show ?thesis using subs [OF ml] by auto
      next
        case False
        then have "expolygons (?t2 ! m) = expolygons (temp ! m) - expolygons (temp ! k)"
          using nth(2) [OF ml] m nm True by simp
        then show ?thesis by auto
      qed
    next
      case False
      have mv: "m < length vrs" using m k by simp
      then have "R (mv_id (model_volume (vrs ! k))) \<inter> R (mv_id (model_volume (vrs ! m))) = {}"
        using box k False by simp
      then show ?thesis using subs [OF ml] sub [OF mv] sub [OF k] by blast
    qed
  qed
  have d2: "expolygons (?t2 ! i) \<inter> expolygons (?t2 ! j) = {}"
    if ij: "i < Suc k" "j < Suc k" "i \<noteq> j"
      and ni: "\<not> is_negative_volume (model_volume (vrs ! i))"
      and nj: "\<not> is_negative_volume (model_volume (vrs ! j))" for i j
  proof (cases "i = k")
    case True
    then have "j < k" using ij by simp
    from withk [OF this nj] True ek show ?thesis by auto
  next
    case False
    then have ik: "i < k" using ij by simp
    show ?thesis
    proof (cases "j = k")
      case True
      from withk [OF ik ni] True ek show ?thesis by auto
    next
      case False
      then have jk: "j < k" using ij by simp
      have "i < length temp" "j < length temp" using ik jk kt by simp_all
      from dis [OF ik jk ij(3) ni nj] subs [OF this(1)] subs [OF this(2)]
      show ?thesis by blast
    qed
  qed
  show ?thesis unfolding clip_inv_def using l2 s2 d2 by blast
qed

lemma clip_region_inv:
  assumes wf: "regions_well_formed vrs"
    and box: "\<forall>i < length vrs. \<forall>j < length vrs.
        \<not> overlap_in_xy (bbox (vrs ! i)) (bbox (vrs ! j)) \<longrightarrow>
        R (mv_id (model_volume (vrs ! i))) \<inter> R (mv_id (model_volume (vrs ! j))) = {}"
    and inv: "clip_inv vrs R k temp" and k: "k < length vrs"
    and step: "clip_region vrs k temp = Some t2"
  shows "clip_inv vrs R (Suc k) t2 \<and> (\<forall>j. region_id (t2 ! j) = region_id (temp ! j))"
proof (cases "expolygons (temp ! k) = {}")
  case True
  then have "t2 = temp" using step by (simp add: clip_region_def)
  then show ?thesis using clip_inv_empty [OF inv k True] by simp
next
  case False
  note ne = this
  show ?thesis
  proof (cases "is_modifier (model_volume (vrs ! k))")
    case True
    then have "clip_modifier vrs k temp = Some t2"
      using step ne by (simp add: clip_region_def Let_def)
    from clip_inv_modifier [OF wf inv k True this] show ?thesis by simp
  next
    case False
    then have "is_model_part (model_volume (vrs ! k))
        \<or> is_negative_volume (model_volume (vrs ! k))"
      using regions_well_formed_nth(1) [OF wf k] by simp
    then have t2: "t2 = clip_preceding vrs k temp"
      using step ne False by (auto simp: clip_region_def Let_def)
    have len: "length temp = length vrs" using inv by (simp add: clip_inv_def)
    have "region_id (t2 ! j) = region_id (temp ! j)" for j
      using clip_preceding_nth(3) [where k = k and temp = temp and vrs = vrs and j = j] k len t2 by simp
    then show ?thesis using clip_inv_part [OF box inv k] t2 by simp
  qed
qed

lemma clip_regions_inv:
  assumes wf: "regions_well_formed vrs"
    and box: "\<forall>i < length vrs. \<forall>j < length vrs.
        \<not> overlap_in_xy (bbox (vrs ! i)) (bbox (vrs ! j)) \<longrightarrow>
        R (mv_id (model_volume (vrs ! i))) \<inter> R (mv_id (model_volume (vrs ! j))) = {}"
  shows "k \<le> length vrs \<Longrightarrow> m = length vrs - k \<Longrightarrow> clip_inv vrs R k temp \<Longrightarrow>
     clip_regions vrs [k ..< length vrs] temp = Some t2 \<Longrightarrow>
     clip_inv vrs R (length vrs) t2 \<and> (\<forall>j. region_id (t2 ! j) = region_id (temp ! j))"
proof (induction m arbitrary: k temp)
  case 0
  then have "k = length vrs" by simp
  with 0 show ?case by simp
next
  case (Suc m)
  then have k: "k < length vrs" by simp
  then have upt: "[k ..< length vrs] = k # [Suc k ..< length vrs]" by (simp add: upt_conv_Cons)
  from Suc.prems(4) upt obtain t1 where
    one: "clip_region vrs k temp = Some t1" and
    rest: "clip_regions vrs [Suc k ..< length vrs] t1 = Some t2"
    by (auto split: option.splits)
  from clip_region_inv [OF wf box Suc.prems(3) k one]
  have i1: "clip_inv vrs R (Suc k) t1" and r1: "\<forall>j. region_id (t1 ! j) = region_id (temp ! j)"
    by simp_all
  have "Suc k \<le> length vrs" "m = length vrs - Suc k" using k Suc.prems(2) by simp_all
  from Suc.IH [OF this i1 rest] r1 show ?case by simp
qed

lemma row_within_exclusive:
  assumes G: "\<forall>r1 r2. r1 \<noteq> r2 \<longrightarrow> G r1 \<inter> G r2 = {}"
    and w: "row_within closing G sbr z"
  shows "row_exclusive closing sbr z"
proof -
  have "\<forall>r. \<exists>e. e \<subseteq> G r \<and> (r < length sbr \<longrightarrow> sbr ! r ! z = e \<or> sbr ! r ! z = closing e)"
    using w unfolding row_within_def by (metis subset_refl)
  then obtain X where X: "\<forall>r. X r \<subseteq> G r
      \<and> (r < length sbr \<longrightarrow> sbr ! r ! z = X r \<or> sbr ! r ! z = closing (X r))"
    by metis
  have "\<forall>r1 r2. r1 \<noteq> r2 \<longrightarrow> X r1 \<inter> X r2 = {}"
  proof (intro allI impI)
    fix r1 r2 :: nat assume "r1 \<noteq> r2"
    then have "G r1 \<inter> G r2 = {}" using G by simp
    moreover have "X r1 \<subseteq> G r1" "X r2 \<subseteq> G r2" using X by simp_all
    ultimately show "X r1 \<inter> X r2 = {}" by blast
  qed
  then show ?thesis unfolding row_exclusive_def using X by blast
qed

lemma row_exclusive_disjoint:
  assumes "\<forall>r1 < length sbr. \<forall>r2 < length sbr. r1 \<noteq> r2 \<longrightarrow> sbr ! r1 ! z \<inter> sbr ! r2 ! z = {}"
  shows "row_exclusive closing sbr z"
  unfolding row_exclusive_def
proof (intro exI conjI allI impI)
  let ?X = "\<lambda>r. if r < length sbr then sbr ! r ! z else {}"
  fix r1 r2 :: nat assume "r1 \<noteq> r2"
  then show "?X r1 \<inter> ?X r2 = {}" using assms by simp
next
  fix r assume "r < length sbr"
  then show "sbr ! r ! z = (if r < length sbr then sbr ! r ! z else {})
     \<or> sbr ! r ! z = closing (if r < length sbr then sbr ! r ! z else {})" by simp
qed

lemma set_insert_slice [simp]: "set (insert_slice x ys) = insert x (set ys)"
  by (induction ys) auto

lemma set_sort_slices [simp]: "set (sort_slices xs) = set xs"
  by (induction xs) (simp_all add: sort_slices_def)

lemma set_erase_empty: "set (erase_empty xs) \<subseteq> set xs"
  by (auto simp: erase_empty_def dest: set_takeWhileD)

lemma merge_run_subset_aux:
  "fst (fold (\<lambda>t (e, merged).
             if expolygons t \<noteq> {} then
               (if e = {} then (expolygons t, merged) else (e \<union> expolygons t, True))
             else (e, merged)) run (x, m))
   \<subseteq> x \<union> \<Union> (expolygons ` set run)"
proof (induction run arbitrary: x m)
  case Nil
  then show ?case by simp
next
  case (Cons t run)
  show ?case
    using Cons.IH [of "expolygons t" m] Cons.IH [of "x \<union> expolygons t" True] Cons.IH [of x m]
    by (auto split: if_splits)
qed

lemma merge_run_subset: "fst (merge_run x run) \<subseteq> x \<union> \<Union> (expolygons ` set run)"
  unfolding merge_run_def by (rule merge_run_subset_aux)

lemma store_slice_nth:
  assumes "store_slice sbr rid z x = Some sbr'"
  shows "length sbr' = length sbr"
    and "\<And>r. r < length sbr \<Longrightarrow> length (sbr' ! r) = length (sbr ! r)"
    and "\<And>r z'. r < length sbr \<Longrightarrow> z' < length (sbr ! r) \<Longrightarrow>
           sbr' ! r ! z' = (if r = rid \<and> z' = z then x else sbr ! r ! z')"
    and "rid < length sbr" and "z < length (sbr ! rid)"
  using assms by (auto simp: store_slice_def nth_list_update split: if_splits)

lemma merge_and_store_inv:
  assumes G: "\<forall>t \<in> set ts. 0 \<le> region_id t \<longrightarrow> expolygons t \<subseteq> G (nat (region_id t))"
    and shape: "sbr_shape n sbr"
    and w: "row_within closing G sbr z"
    and run: "merge_and_store closing z ts sbr = Some sbr'"
  shows "length sbr' = length sbr \<and> sbr_shape n sbr' \<and> row_within closing G sbr' z
     \<and> (\<forall>r < length sbr. \<forall>z' < n. z' \<noteq> z \<longrightarrow> sbr' ! r ! z' = sbr ! r ! z')"
  using assms
proof (induction closing z ts sbr rule: merge_and_store.induct)
  case (1 closing z_idx sbr)
  then show ?case by simp
next
  case (2 closing z_idx t ts sbr)
  let ?run = "takeWhile (\<lambda>u. region_id t = region_id u) ts"
  let ?rest = "dropWhile (\<lambda>u. region_id t = region_id u) ts"
  obtain e merged where em: "merge_run (expolygons t) ?run = (e, merged)"
    by (cases "merge_run (expolygons t) ?run")
  let ?e2 = "if merged then closing e else e"
  from "2.prems"(4) em have rid: "0 \<le> region_id t"
    by (auto simp: Let_def split: if_splits)
  from "2.prems"(4) em rid obtain s1 where
    st: "store_slice sbr (nat (region_id t)) z_idx ?e2 = Some s1" and
    rest: "merge_and_store closing z_idx ?rest s1 = Some sbr'"
    by (auto simp: Let_def split: option.splits if_splits)
  note nth = store_slice_nth [OF st]
  have "e \<subseteq> expolygons t \<union> \<Union> (expolygons ` set ?run)"
    using merge_run_subset [of "expolygons t" ?run] em by simp
  moreover have "expolygons u \<subseteq> G (nat (region_id t))" if "u \<in> set ?run" for u
  proof -
    from that have u: "u \<in> set (t # ts)" and ru: "region_id t = region_id u"
      by (auto dest: set_takeWhileD)
    have "0 \<le> region_id u" using rid ru by simp
    with "2.prems"(1) u have "expolygons u \<subseteq> G (nat (region_id u))" by blast
    then show ?thesis using ru by simp
  qed
  moreover have "expolygons t \<subseteq> G (nat (region_id t))" using "2.prems"(1) rid by simp
  ultimately have eG: "e \<subseteq> G (nat (region_id t))" by blast
  have sh1: "sbr_shape n s1"
    using "2.prems"(2) nth(1,2) by (simp add: sbr_shape_def)
  have zl: "z_idx < n" using nth(4,5) "2.prems"(2) by (simp add: sbr_shape_def)
  have w1: "row_within closing G s1 z_idx"
    unfolding row_within_def
  proof (intro allI impI)
    fix r assume r: "r < length s1"
    then have rl: "r < length sbr" using nth(1) by simp
    then have zr: "z_idx < length (sbr ! r)" using "2.prems"(2) zl by (simp add: sbr_shape_def)
    show "\<exists>e. e \<subseteq> G r \<and> (s1 ! r ! z_idx = e \<or> s1 ! r ! z_idx = closing e)"
    proof (cases "r = nat (region_id t)")
      case True
      then have "s1 ! r ! z_idx = ?e2" using nth(3) [OF rl zr] by simp
      then show ?thesis using eG True by (intro exI [of _ e]) auto
    next
      case False
      then have "s1 ! r ! z_idx = sbr ! r ! z_idx" using nth(3) [OF rl zr] by simp
      then show ?thesis using "2.prems"(3) rl by (simp add: row_within_def)
    qed
  qed
  have G1: "\<forall>t \<in> set ?rest. 0 \<le> region_id t \<longrightarrow> expolygons t \<subseteq> G (nat (region_id t))"
    using "2.prems"(1) by (auto dest: set_dropWhileD)
  from "2.IH" [OF refl refl em [symmetric] refl rid st G1 sh1 w1 rest]
  have ih: "length sbr' = length s1" "sbr_shape n sbr'" "row_within closing G sbr' z_idx"
    "\<forall>r < length s1. \<forall>z' < n. z' \<noteq> z_idx \<longrightarrow> sbr' ! r ! z' = s1 ! r ! z'"
    by simp_all
  have "\<forall>r < length sbr. \<forall>z' < n. z' \<noteq> z_idx \<longrightarrow> sbr' ! r ! z' = sbr ! r ! z'"
  proof (intro allI impI)
    fix r z' assume r: "r < length sbr" and z': "z' < n" "z' \<noteq> z_idx"
    then have "z' < length (sbr ! r)" using "2.prems"(2) by (simp add: sbr_shape_def)
    then have "s1 ! r ! z' = sbr ! r ! z'" using nth(3) [OF r] z' by simp
    then show "sbr' ! r ! z' = sbr ! r ! z'" using ih(4) r z' nth(1) by simp
  qed
  then show ?case using ih nth(1) by simp
qed

lemma vss_shrunk_refl [simp]: "vss_shrunk vss vss"
  by (simp add: vss_shrunk_def)

lemma take_slice_shrunk:
  assumes t: "take_slice vss src z = Some (x, vss')" and s: "vss_shrunk vss0 vss"
  shows "vss_shrunk vss0 vss'" and "x \<subseteq> raw_of vss0 (volume_id (vss0 ! src))"
    and "src < length vss0"
proof -
  from t have src: "src < length vss" and z: "z < length (slices (vss ! src))"
    and x: "x = slices (vss ! src) ! z"
    and v: "vss' = vss[src := (vss ! src)\<lparr>slices := (slices (vss ! src))[z := {}]\<rparr>]"
    by (auto simp: take_slice_def split: if_splits)
  from s have len: "length vss = length vss0"
    and ids: "\<And>i. i < length vss0 \<Longrightarrow> volume_id (vss ! i) = volume_id (vss0 ! i)"
    and lens: "\<And>i. i < length vss0 \<Longrightarrow> length (slices (vss ! i)) = length (slices (vss0 ! i))"
    and sub: "\<And>i z. i < length vss0 \<Longrightarrow> z < length (slices (vss0 ! i)) \<Longrightarrow>
        slices (vss ! i) ! z \<subseteq> slices (vss0 ! i) ! z"
    by (simp_all add: vss_shrunk_def)
  show s0: "src < length vss0" using src len by simp
  have z0: "z < length (slices (vss0 ! src))" using z lens [OF s0] by simp
  show "vss_shrunk vss0 vss'"
    unfolding vss_shrunk_def
  proof (intro conjI allI impI)
    show "length vss' = length vss0" using v len by simp
  next
    fix i assume i: "i < length vss0"
    show "volume_id (vss' ! i) = volume_id (vss0 ! i)"
      using v i len ids [OF i] by (cases "i = src") simp_all
    show "length (slices (vss' ! i)) = length (slices (vss0 ! i))"
      using v i len lens [OF i] by (cases "i = src") simp_all
    fix z' assume z': "z' < length (slices (vss0 ! i))"
    show "slices (vss' ! i) ! z' \<subseteq> slices (vss0 ! i) ! z'"
      using v i len sub [OF i z'] lens [OF i] z'
      by (cases "i = src"; cases "z' = z") auto
  qed
  have "x \<subseteq> slices (vss0 ! src) ! z" using x sub [OF s0 z0] by simp
  moreover have "vss0 ! src \<in> set vss0" using s0 by simp
  moreover have "slices (vss0 ! src) ! z \<in> set (slices (vss0 ! src))" using z0 by simp
  ultimately show "x \<subseteq> raw_of vss0 (volume_id (vss0 ! src))"
    unfolding raw_of_def by blast
qed

lemma find_by_id_Some:
  "volume_slices_find_by_id vss i = Some src \<Longrightarrow> src < length vss \<and> volume_id (vss ! src) = i"
  by (auto simp: volume_slices_find_by_id_def Let_def split: if_splits)

lemma those_map_Some:
  "those (map f xs) = Some ys \<Longrightarrow> list_all2 (\<lambda>x y. f x = Some y) xs ys"
proof (induction xs arbitrary: ys)
  case Nil
  then show ?case by simp
next
  case (Cons x xs)
  then show ?case by (auto split: option.splits)
qed

lemma regions_to_slices_Some:
  assumes "regions_to_slices vss lrs = Some lrrts"
  shows "list_all2 (\<lambda>lr srcs.
           list_all2 (\<lambda>vr src. src < length vss \<and> volume_id (vss ! src) = mv_id (model_volume vr))
             (volume_regions lr) srcs) lrs lrrts"
proof -
  from those_map_Some [OF assms [unfolded regions_to_slices_def]]
  have "list_all2 (\<lambda>lr srcs.
      those (map (\<lambda>rgn. volume_slices_find_by_id vss (mv_id (model_volume rgn)))
               (volume_regions lr)) = Some srcs) lrs lrrts" .
  then show ?thesis
  proof (rule list_all2_mono)
    fix lr srcs
    assume "those (map (\<lambda>rgn. volume_slices_find_by_id vss (mv_id (model_volume rgn)))
               (volume_regions lr)) = Some srcs"
    from those_map_Some [OF this]
    show "list_all2 (\<lambda>vr src. src < length vss \<and> volume_id (vss ! src) = mv_id (model_volume vr))
             (volume_regions lr) srcs"
      by (rule list_all2_mono) (simp add: find_by_id_Some)
  qed
qed

lemma build_temp_slices_inv:
  assumes "build_temp_slices vrs srcs z vss = Some (temp, vss')"
    and "vss_shrunk vss0 vss"
    and "list_all2 (\<lambda>vr src. src < length vss0 \<and> volume_id (vss0 ! src) = mv_id (model_volume vr))
           vrs srcs"
  shows "vss_shrunk vss0 vss' \<and> list_all2 (temp_of_region (raw_of vss0)) vrs temp"
  using assms
proof (induction vrs srcs z vss arbitrary: temp vss' rule: build_temp_slices.induct)
  case (1 vrs z_idx vss)
  then show ?case by simp
next
  case (2 src srcs z_idx vss)
  then show ?case by simp
next
  case (3 volume_region vrs src srcs z_idx vss)
  from "3.prems"(1) obtain x vss1 temp1 where
    t: "take_slice vss src z_idx = Some (x, vss1)" and
    b: "build_temp_slices vrs srcs z_idx vss1 = Some (temp1, vss')" and
    temp: "temp = \<lparr>expolygons = x,
                      region_id = (case region volume_region of
                                     Some r \<Rightarrow> int (print_object_region_id r)
                                   | None \<Rightarrow> - 1),
                      rs_volume_id = mv_id (model_volume volume_region)\<rparr> # temp1"
    by (auto split: option.splits prod.splits)
  note ts = take_slice_shrunk [OF t "3.prems"(2)]
  from "3.prems"(3) have
    src: "volume_id (vss0 ! src) = mv_id (model_volume volume_region)" and
    rest: "list_all2 (\<lambda>vr src. src < length vss0 \<and> volume_id (vss0 ! src) = mv_id (model_volume vr))
           vrs srcs"
    by simp_all
  from "3.IH" [OF t refl b ts(1) rest]
  have "vss_shrunk vss0 vss'" "list_all2 (temp_of_region (raw_of vss0)) vrs temp1" by simp_all
  moreover have "temp_of_region (raw_of vss0) volume_region
      \<lparr>expolygons = x,
       region_id = (case region volume_region of
                      Some r \<Rightarrow> int (print_object_region_id r)
                    | None \<Rightarrow> - 1),
       rs_volume_id = mv_id (model_volume volume_region)\<rparr>"
    using ts(2) src by (simp add: temp_of_region_def)
  ultimately show ?case using temp by simp
qed

lemma raw_of_in_bbox:
  assumes "slices_in_bboxes K lrs vss0" "lr \<in> set lrs" "vr \<in> set (volume_regions lr)"
    "p \<in> raw_of vss0 (mv_id (model_volume vr))"
  shows "in_bbox_xy K (bbox vr) p"
  using assms unfolding slices_in_bboxes_def raw_of_def by blast

lemma no_overlap_disjoint:
  assumes "\<not> overlap_in_xy b1 b2" "in_bbox_xy K b1 p" "in_bbox_xy K b2 p"
  shows False
  using assms by (auto simp: overlap_in_xy_def in_bbox_xy_def)

lemma raw_box:
  assumes sb: "slices_in_bboxes K lrs vss0" and lr: "lr \<in> set lrs"
  shows "\<forall>i < length (volume_regions lr). \<forall>j < length (volume_regions lr).
        \<not> overlap_in_xy (bbox (volume_regions lr ! i)) (bbox (volume_regions lr ! j)) \<longrightarrow>
        raw_of vss0 (mv_id (model_volume (volume_regions lr ! i)))
          \<inter> raw_of vss0 (mv_id (model_volume (volume_regions lr ! j))) = {}"
proof (intro allI impI)
  fix i j assume i: "i < length (volume_regions lr)" and j: "j < length (volume_regions lr)"
    and no: "\<not> overlap_in_xy (bbox (volume_regions lr ! i)) (bbox (volume_regions lr ! j))"
  have vi: "volume_regions lr ! i \<in> set (volume_regions lr)" using i by simp
  have vj: "volume_regions lr ! j \<in> set (volume_regions lr)" using j by simp
  show "raw_of vss0 (mv_id (model_volume (volume_regions lr ! i)))
          \<inter> raw_of vss0 (mv_id (model_volume (volume_regions lr ! j))) = {}"
  proof (rule ccontr)
    assume "raw_of vss0 (mv_id (model_volume (volume_regions lr ! i)))
          \<inter> raw_of vss0 (mv_id (model_volume (volume_regions lr ! j))) \<noteq> {}"
    then obtain p where p: "p \<in> raw_of vss0 (mv_id (model_volume (volume_regions lr ! i)))"
      "p \<in> raw_of vss0 (mv_id (model_volume (volume_regions lr ! j)))" by blast
    from no_overlap_disjoint [OF no raw_of_in_bbox [OF sb lr vi p(1)]
        raw_of_in_bbox [OF sb lr vj p(2)]]
    show False .
  qed
qed

lemma resolve_complex_inv:
  assumes run: "resolve_complex closing lr to_slices z (sbr, vss) = Some (sbr', vss')"
    and wf: "regions_well_formed (volume_regions lr)"
    and sb: "slices_in_bboxes K lrs vss0" and lr: "lr \<in> set lrs"
    and sh: "vss_shrunk vss0 vss"
    and al: "list_all2 (\<lambda>vr src. src < length vss0
                \<and> volume_id (vss0 ! src) = mv_id (model_volume vr)) (volume_regions lr) to_slices"
    and shape: "sbr_shape n sbr" and fresh: "row_fresh sbr z"
  shows "vss_shrunk vss0 vss' \<and> length sbr' = length sbr \<and> sbr_shape n sbr'
     \<and> row_exclusive closing sbr' z
     \<and> (\<forall>r < length sbr. \<forall>z' < n. z' \<noteq> z \<longrightarrow> sbr' ! r ! z' = sbr ! r ! z')"
proof -
  let ?vrs = "volume_regions lr"
  let ?R = "raw_of vss0"
  from run obtain temp t2 where
    b: "build_temp_slices ?vrs to_slices z vss = Some (temp, vss')" and
    c: "clip_regions ?vrs [0 ..< length ?vrs] temp = Some t2" and
    m: "merge_and_store closing z (erase_empty (sort_slices t2)) sbr = Some sbr'"
    by (auto simp: resolve_complex_def split: option.splits prod.splits)
  from build_temp_slices_inv [OF b sh al]
  have sh': "vss_shrunk vss0 vss'" and tr: "list_all2 (temp_of_region ?R) ?vrs temp" by simp_all
  have tl: "length temp = length ?vrs" using tr by (simp add: list_all2_lengthD)
  have tn: "\<And>i. i < length ?vrs \<Longrightarrow> temp_of_region ?R (?vrs ! i) (temp ! i)"
    using tr by (simp add: list_all2_conv_all_nth)
  have inv0: "clip_inv ?vrs ?R 0 temp"
    unfolding clip_inv_def using tl tn by (simp add: temp_of_region_def)
  from clip_regions_inv [OF wf raw_box [OF sb lr], where k = 0 and temp = temp
      and ?t2.0 = t2 and m = "length ?vrs"] inv0 c
  have inv: "clip_inv ?vrs ?R (length ?vrs) t2"
    and rid: "\<And>j. region_id (t2 ! j) = region_id (temp ! j)" by simp_all
  have t2l: "length t2 = length ?vrs" using inv by (simp add: clip_inv_def)
  define G where "G r = \<Union> {expolygons t | t. t \<in> set t2 \<and> region_id t = int r}" for r
  have nonneg: "\<not> is_negative_volume (model_volume (?vrs ! i))"
    if i: "i < length ?vrs" and r: "0 \<le> region_id (t2 ! i)" for i
  proof
    assume "is_negative_volume (model_volume (?vrs ! i))"
    from regions_well_formed_nth(2) [OF wf i this]
    have "region (?vrs ! i) = None" .
    with tn [OF i] rid [of i] r show False by (simp add: temp_of_region_def)
  qed
  have Gd: "\<forall>r1 r2. r1 \<noteq> r2 \<longrightarrow> G r1 \<inter> G r2 = {}"
  proof (intro allI impI)
    fix r1 r2 :: nat assume ne: "r1 \<noteq> r2"
    show "G r1 \<inter> G r2 = {}"
    proof (rule ccontr)
      assume "G r1 \<inter> G r2 \<noteq> {}"
      then obtain p t u where t: "t \<in> set t2" "region_id t = int r1" "p \<in> expolygons t"
        and u: "u \<in> set t2" "region_id u = int r2" "p \<in> expolygons u"
        unfolding G_def by blast
      from t(1) u(1) obtain i j where i: "i < length t2" "t = t2 ! i"
        and j: "j < length t2" "u = t2 ! j" by (auto simp: in_set_conv_nth)
      have ij: "i \<noteq> j" using t(2) u(2) i(2) j(2) ne by auto
      have ni: "\<not> is_negative_volume (model_volume (?vrs ! i))"
        using nonneg [of i] i t(2) t2l by simp
      have nj: "\<not> is_negative_volume (model_volume (?vrs ! j))"
        using nonneg [of j] j u(2) t2l by simp
      from inv have "expolygons (t2 ! i) \<inter> expolygons (t2 ! j) = {}"
        unfolding clip_inv_def using i(1) j(1) ij ni nj t2l by simp
      with t(3) u(3) i(2) j(2) show False by blast
    qed
  qed
  have Gs: "\<forall>t \<in> set (erase_empty (sort_slices t2)).
      0 \<le> region_id t \<longrightarrow> expolygons t \<subseteq> G (nat (region_id t))"
  proof (intro ballI impI)
    fix t assume "t \<in> set (erase_empty (sort_slices t2))" and r: "0 \<le> region_id t"
    then have "t \<in> set t2" using set_erase_empty [of "sort_slices t2"] by auto
    then show "expolygons t \<subseteq> G (nat (region_id t))"
      unfolding G_def using r by auto
  qed
  have w: "row_within closing G sbr z"
    using fresh by (auto simp: row_within_def row_fresh_def)
  from merge_and_store_inv [OF Gs shape w m]
  have "length sbr' = length sbr" "sbr_shape n sbr'" "row_within closing G sbr' z"
    "\<forall>r < length sbr. \<forall>z' < n. z' \<noteq> z \<longrightarrow> sbr' ! r ! z' = sbr ! r ! z'" by simp_all
  then show ?thesis using sh' row_within_exclusive [OF Gd] by simp
qed

lemma row_exclusive_cong:
  assumes "length sbr' = length sbr" "\<forall>r < length sbr. sbr' ! r ! z = sbr ! r ! z"
    "row_exclusive closing sbr z"
  shows "row_exclusive closing sbr' z"
  using assms unfolding row_exclusive_def by auto

lemma row_fresh_cong:
  assumes "length sbr' = length sbr" "\<forall>r < length sbr. sbr' ! r ! z = sbr ! r ! z"
    "row_fresh sbr z"
  shows "row_fresh sbr' z"
  using assms unfolding row_fresh_def by auto

lemma layer_range_next_Some: "layer_range_next lrs it z = Some it' \<Longrightarrow> it' < length lrs"
  by (auto simp: layer_range_next_def Let_def split: if_splits)

lemma complex_items_inv:
  assumes wf: "\<forall>lr \<in> set lrs. regions_well_formed (volume_regions lr)"
    and sb: "slices_in_bboxes K lrs vss0"
    and al: "rows_aligned vss0 lrs lrrts"
  shows "complex_items closing lrs lrrts it items (sbr, vss) = Some (sbr', vss') \<Longrightarrow>
     sbr_shape n sbr \<Longrightarrow> vss_shrunk vss0 vss \<Longrightarrow> distinct (map fst items) \<Longrightarrow>
     (\<forall>zi \<in> fst ` set items. zi < n \<and> row_fresh sbr zi) \<Longrightarrow>
     sbr_shape n sbr' \<and> vss_shrunk vss0 vss' \<and> length sbr' = length sbr
     \<and> (\<forall>z < n. z \<notin> fst ` set items \<longrightarrow> (\<forall>r < length sbr. sbr' ! r ! z = sbr ! r ! z))
     \<and> (\<forall>zi \<in> fst ` set items. row_exclusive closing sbr' zi)"
proof (induction items arbitrary: it sbr vss)
  case Nil
  then show ?case by simp
next
  case (Cons item items)
  obtain zi z where item: "item = (zi, z)" by (cases item)
  from Cons.prems(1) item obtain it' sbr1 vss1 where
    nx: "layer_range_next lrs it z = Some it'" and il: "it' < length lrrts" and
    rs: "resolve_complex closing (lrs ! it') (lrrts ! it') zi (sbr, vss) = Some (sbr1, vss1)" and
    rest: "complex_items closing lrs lrrts it' items (sbr1, vss1) = Some (sbr', vss')"
    by (auto split: option.splits if_splits)
  have itl: "it' < length lrs" using layer_range_next_Some [OF nx] .
  then have lrin: "lrs ! it' \<in> set lrs" by simp
  have wf1: "regions_well_formed (volume_regions (lrs ! it'))" using wf lrin by blast
  have al1: "list_all2 (\<lambda>vr src. src < length vss0
                \<and> volume_id (vss0 ! src) = mv_id (model_volume vr))
              (volume_regions (lrs ! it')) (lrrts ! it')"
    using al itl unfolding rows_aligned_def by (simp add: list_all2_conv_all_nth)
  have zin: "zi < n" and fr: "row_fresh sbr zi" using Cons.prems(5) item by simp_all
  from resolve_complex_inv [OF rs wf1 sb lrin Cons.prems(3) al1 Cons.prems(2) fr]
  have r1: "vss_shrunk vss0 vss1" "length sbr1 = length sbr" "sbr_shape n sbr1"
    "row_exclusive closing sbr1 zi"
    "\<forall>r < length sbr. \<forall>z' < n. z' \<noteq> zi \<longrightarrow> sbr1 ! r ! z' = sbr ! r ! z'"
    by simp_all
  have d: "distinct (map fst items)" and zni: "zi \<notin> fst ` set items"
    using Cons.prems(4) item by simp_all
  have fr1: "\<forall>zj \<in> fst ` set items. zj < n \<and> row_fresh sbr1 zj"
  proof
    fix zj assume zj: "zj \<in> fst ` set items"
    then have a: "zj < n" "row_fresh sbr zj" "zj \<noteq> zi" using Cons.prems(5) zni by auto
    have "\<forall>r < length sbr. sbr1 ! r ! zj = sbr ! r ! zj" using r1(5) a by simp
    from row_fresh_cong [OF r1(2) this a(2)] a(1) show "zj < n \<and> row_fresh sbr1 zj" by simp
  qed
  from Cons.IH [OF rest r1(3) r1(1) d fr1]
  have ih: "sbr_shape n sbr'" "vss_shrunk vss0 vss'" "length sbr' = length sbr1"
    "\<forall>z < n. z \<notin> fst ` set items \<longrightarrow> (\<forall>r < length sbr1. sbr' ! r ! z = sbr1 ! r ! z)"
    "\<forall>zj \<in> fst ` set items. row_exclusive closing sbr' zj"
    by simp_all
  have un: "\<forall>z < n. z \<notin> fst ` set (item # items)
      \<longrightarrow> (\<forall>r < length sbr. sbr' ! r ! z = sbr ! r ! z)"
    using ih(4) r1(2,5) item by auto
  have "\<forall>r < length sbr1. sbr' ! r ! zi = sbr1 ! r ! zi" using ih(4) zin zni by simp
  from row_exclusive_cong [OF ih(3) this r1(4)]
  have "row_exclusive closing sbr' zi" .
  then have ex: "\<forall>zj \<in> fst ` set (item # items). row_exclusive closing sbr' zj"
    using ih(5) item by auto
  show ?case using ih(1,2,3) r1(2) un ex by simp
qed

lemma complex_chunks_inv:
  assumes wf: "\<forall>lr \<in> set lrs. regions_well_formed (volume_regions lr)"
    and sb: "slices_in_bboxes K lrs vss0"
    and al: "rows_aligned vss0 lrs lrrts"
  shows "complex_chunks closing lrs lrrts chunks (sbr, vss) = Some (sbr', vss') \<Longrightarrow>
     sbr_shape n sbr \<Longrightarrow> vss_shrunk vss0 vss \<Longrightarrow> distinct (map fst (concat chunks)) \<Longrightarrow>
     (\<forall>zi \<in> fst ` set (concat chunks). zi < n \<and> row_fresh sbr zi) \<Longrightarrow>
     sbr_shape n sbr' \<and> vss_shrunk vss0 vss' \<and> length sbr' = length sbr
     \<and> (\<forall>z < n. z \<notin> fst ` set (concat chunks)
           \<longrightarrow> (\<forall>r < length sbr. sbr' ! r ! z = sbr ! r ! z))
     \<and> (\<forall>zi \<in> fst ` set (concat chunks). row_exclusive closing sbr' zi)"
proof (induction chunks arbitrary: sbr vss)
  case Nil
  then show ?case by simp
next
  case (Cons chunk chunks)
  from Cons.prems(1) obtain sbr1 vss1 where
    ch: "complex_chunk closing lrs lrrts chunk (sbr, vss) = Some (sbr1, vss1)" and
    rest: "complex_chunks closing lrs lrrts chunks (sbr1, vss1) = Some (sbr', vss')"
    by (auto split: option.splits)
  have dc: "distinct (map fst chunk)" and dr: "distinct (map fst (concat chunks))"
    and dj: "fst ` set chunk \<inter> fst ` set (concat chunks) = {}"
    using Cons.prems(4) by auto
  have frc: "\<forall>zi \<in> fst ` set chunk. zi < n \<and> row_fresh sbr zi"
    using Cons.prems(5) by auto
  have r1: "sbr_shape n sbr1 \<and> vss_shrunk vss0 vss1 \<and> length sbr1 = length sbr
     \<and> (\<forall>z < n. z \<notin> fst ` set chunk \<longrightarrow> (\<forall>r < length sbr. sbr1 ! r ! z = sbr ! r ! z))
     \<and> (\<forall>zi \<in> fst ` set chunk. row_exclusive closing sbr1 zi)"
  proof (cases chunk)
    case Nil
    with ch Cons.prems(2,3) show ?thesis by (simp add: complex_chunk_def)
  next
    case (Cons item items')
    with ch obtain it where
      "complex_items closing lrs lrrts it chunk (sbr, vss) = Some (sbr1, vss1)"
      by (auto simp: complex_chunk_def split: option.splits prod.splits)
    from complex_items_inv [OF wf sb al this Cons.prems(2,3) dc frc] show ?thesis .
  qed
  then have a: "sbr_shape n sbr1" "vss_shrunk vss0 vss1" "length sbr1 = length sbr"
     "\<forall>z < n. z \<notin> fst ` set chunk \<longrightarrow> (\<forall>r < length sbr. sbr1 ! r ! z = sbr ! r ! z)"
     "\<forall>zi \<in> fst ` set chunk. row_exclusive closing sbr1 zi" by simp_all
  have fr1: "\<forall>zj \<in> fst ` set (concat chunks). zj < n \<and> row_fresh sbr1 zj"
  proof
    fix zj assume zj: "zj \<in> fst ` set (concat chunks)"
    then have b: "zj < n" "row_fresh sbr zj" "zj \<notin> fst ` set chunk"
      using Cons.prems(5) dj by auto
    have "\<forall>r < length sbr. sbr1 ! r ! zj = sbr ! r ! zj" using a(4) b by simp
    from row_fresh_cong [OF a(3) this b(2)] b(1) show "zj < n \<and> row_fresh sbr1 zj" by simp
  qed
  from Cons.IH [OF rest a(1) a(2) dr fr1]
  have ih: "sbr_shape n sbr'" "vss_shrunk vss0 vss'" "length sbr' = length sbr1"
    "\<forall>z < n. z \<notin> fst ` set (concat chunks)
        \<longrightarrow> (\<forall>r < length sbr1. sbr' ! r ! z = sbr1 ! r ! z)"
    "\<forall>zj \<in> fst ` set (concat chunks). row_exclusive closing sbr' zj"
    by simp_all
  have un: "\<forall>z < n. z \<notin> fst ` set (concat (chunk # chunks))
      \<longrightarrow> (\<forall>r < length sbr. sbr' ! r ! z = sbr ! r ! z)"
  proof (intro allI impI)
    fix z r assume z: "z < n" "z \<notin> fst ` set (concat (chunk # chunks))" and r: "r < length sbr"
    from z(2) have z1: "z \<notin> fst ` set chunk" and z2: "z \<notin> fst ` set (concat chunks)"
      by (auto simp: image_Un)
    have "sbr' ! r ! z = sbr1 ! r ! z" using ih(4) z(1) z2 r a(3) by simp
    also have "\<dots> = sbr ! r ! z" using a(4) z(1) z1 r by simp
    finally show "sbr' ! r ! z = sbr ! r ! z" .
  qed
  have ex1: "row_exclusive closing sbr' zi" if zi: "zi \<in> fst ` set chunk" for zi
  proof -
    have "zi < n" "zi \<notin> fst ` set (concat chunks)" using zi frc dj by auto
    then have eq: "\<forall>r < length sbr1. sbr' ! r ! zi = sbr1 ! r ! zi" using ih(4) by simp
    have "row_exclusive closing sbr1 zi" using a(5) zi by blast
    from row_exclusive_cong [OF ih(3) eq this] show ?thesis .
  qed
  have ex: "\<forall>zj \<in> fst ` set (concat (chunk # chunks)). row_exclusive closing sbr' zj"
    using ih(5) ex1 by auto
  show ?case using ih(1,2,3) a(3) un ex by simp
qed

lemma advance_below_bounds:
  "i \<le> advance_below z b i \<and> (i \<le> length z \<longrightarrow> advance_below z b i \<le> length z)"
proof (induction z b i rule: advance_below.induct)
  case (1 z bound i)
  show ?case
  proof (cases "i < length z \<and> z ! i < bound")
    case True
    then show ?thesis using 1 by (subst (1 2) advance_below.simps) auto
  next
    case False
    then show ?thesis by (subst (1 2) advance_below.simps) auto
  qed
qed

lemma phase1_inv_mono:
  "phase1_inv n nreg closing vss0 z_idx st \<Longrightarrow> z_idx \<le> z' \<Longrightarrow> z' \<le> n \<Longrightarrow>
   phase1_inv n nreg closing vss0 z' st"
  unfolding phase1_inv_def by fastforce

lemma move_to_region_inv:
  assumes mv: "move_to_region vr z (sbr, vss) = Some (sbr', vss')"
    and shape: "sbr_shape n sbr" and sh: "vss_shrunk vss0 vss" and fresh: "row_fresh sbr z"
  shows "sbr_shape n sbr' \<and> vss_shrunk vss0 vss' \<and> length sbr' = length sbr
     \<and> row_exclusive closing sbr' z
     \<and> (\<forall>r < length sbr. \<forall>z' < n. z' \<noteq> z \<longrightarrow> sbr' ! r ! z' = sbr ! r ! z')"
proof -
  from mv obtain r :: PrintRegion and src x where
    t: "take_slice vss src z = Some (x, vss')" and
    s: "store_slice sbr (print_object_region_id r) z x = Some sbr'"
    by (auto simp: move_to_region_def split: option.splits prod.splits)
  note nth = store_slice_nth [OF s]
  note ts = take_slice_shrunk [OF t sh]
  have zl: "z < n" using nth(4,5) shape by (simp add: sbr_shape_def)
  have sh': "sbr_shape n sbr'" using shape nth(1,2) by (simp add: sbr_shape_def)
  have rows: "sbr' ! q ! z' = (if q = print_object_region_id r \<and> z' = z then x else sbr ! q ! z')"
    if "q < length sbr" "z' < n" for q z'
    using nth(3) [of q z'] that shape by (simp add: sbr_shape_def)
  have "\<forall>r1 < length sbr'. \<forall>r2 < length sbr'. r1 \<noteq> r2 \<longrightarrow> sbr' ! r1 ! z \<inter> sbr' ! r2 ! z = {}"
  proof (intro allI impI)
    fix r1 r2 assume a: "r1 < length sbr'" "r2 < length sbr'" "r1 \<noteq> r2"
    then have "sbr ! r1 ! z = {}" "sbr ! r2 ! z = {}"
      using fresh nth(1) by (simp_all add: row_fresh_def)
    then show "sbr' ! r1 ! z \<inter> sbr' ! r2 ! z = {}"
      using rows [of r1 z] rows [of r2 z] a zl nth(1) by auto
  qed
  from row_exclusive_disjoint [OF this]
  have "row_exclusive closing sbr' z" .
  moreover have "\<forall>q < length sbr. \<forall>z' < n. z' \<noteq> z \<longrightarrow> sbr' ! q ! z' = sbr ! q ! z'"
    using rows by simp
  ultimately show ?thesis using sh' ts(1) nth(1) by simp
qed

lemma phase1_step_move:
  assumes inv: "phase1_inv n nreg closing vss0 z_idx st" and z: "z_idx < n"
    and mv: "move_to_region vr z_idx (slices_by_region st, volume_slices st) = Some (sbr', vss')"
  shows "phase1_inv n nreg closing vss0 (Suc z_idx)
           (st\<lparr>slices_by_region := sbr', volume_slices := vss'\<rparr>)"
proof -
  let ?sbr = "slices_by_region st"
  from inv have a: "length ?sbr = nreg" "sbr_shape n ?sbr" "vss_shrunk vss0 (volume_slices st)"
    "\<And>z. z_idx \<le> z \<Longrightarrow> z < n \<Longrightarrow> row_fresh ?sbr z"
    "distinct (map fst (zs_complex st))"
    "\<And>zi. zi \<in> fst ` set (zs_complex st) \<Longrightarrow> zi < z_idx \<and> row_fresh ?sbr zi"
    "\<And>z. z < n \<Longrightarrow> row_exclusive closing ?sbr z"
    unfolding phase1_inv_def by blast+
  from move_to_region_inv [OF mv a(2) a(3) a(4) [OF le_refl z]]
  have m: "sbr_shape n sbr'" "vss_shrunk vss0 vss'" "length sbr' = length ?sbr"
    "row_exclusive closing sbr' z_idx"
    "\<And>r z'. r < length ?sbr \<Longrightarrow> z' < n \<Longrightarrow> z' \<noteq> z_idx \<Longrightarrow> sbr' ! r ! z' = ?sbr ! r ! z'"
    by simp_all
  have same: "\<forall>r < length ?sbr. sbr' ! r ! z' = ?sbr ! r ! z'" if "z' < n" "z' \<noteq> z_idx" for z'
    using m(5) that by simp
  have f1: "row_fresh sbr' z'" if "Suc z_idx \<le> z'" "z' < n" for z'
    using row_fresh_cong [OF m(3) same a(4)] that by simp
  have f2: "zi < Suc z_idx \<and> row_fresh sbr' zi" if "zi \<in> fst ` set (zs_complex st)" for zi
  proof -
    from a(6) [OF that] have "zi < z_idx" "row_fresh ?sbr zi" by simp_all
    then show ?thesis using row_fresh_cong [OF m(3) same] z by simp
  qed
  have f3: "row_exclusive closing sbr' z'" if "z' < n" for z'
  proof (cases "z' = z_idx")
    case True
    then show ?thesis using m(4) by simp
  next
    case False
    from row_exclusive_cong [OF m(3) same [OF that False] a(7) [OF that]] show ?thesis .
  qed
  show ?thesis
    unfolding phase1_inv_def using z a(1,5) m(1,2,3) f1 f2 f3 by simp
qed

lemma phase1_step_complex:
  assumes inv: "phase1_inv n nreg closing vss0 z_idx st" and z: "z_idx < n"
  shows "phase1_inv n nreg closing vss0 (Suc z_idx)
           (st\<lparr>zs_complex := zs_complex st @ [(z_idx, zv)]\<rparr>)"
proof -
  let ?sbr = "slices_by_region st"
  from inv have a: "length ?sbr = nreg" "sbr_shape n ?sbr" "vss_shrunk vss0 (volume_slices st)"
    "\<And>z. z_idx \<le> z \<Longrightarrow> z < n \<Longrightarrow> row_fresh ?sbr z"
    "distinct (map fst (zs_complex st))"
    "\<And>zi. zi \<in> fst ` set (zs_complex st) \<Longrightarrow> zi < z_idx \<and> row_fresh ?sbr zi"
    "\<And>z. z < n \<Longrightarrow> row_exclusive closing ?sbr z"
    unfolding phase1_inv_def by blast+
  have "z_idx \<notin> fst ` set (zs_complex st)" using a(6) [of z_idx] by auto
  then have d: "distinct (map fst (zs_complex st @ [(z_idx, zv)]))"
    using a(5) by simp
  have f2: "zi < Suc z_idx \<and> row_fresh ?sbr zi"
    if "zi \<in> fst ` set (zs_complex st @ [(z_idx, zv)])" for zi
  proof (cases "zi = z_idx")
    case True
    then show ?thesis using a(4) [of z_idx] z by simp
  next
    case False
    with that have "zi \<in> fst ` set (zs_complex st)" by auto
    from a(6) [OF this] show ?thesis by simp
  qed
  show ?thesis
    unfolding phase1_inv_def using z a(1,2,3,4,7) d f2 by simp
qed

lemma move_range_inv:
  "move_range zs bound vr z_idx p = Some (z', p') \<Longrightarrow>
   phase1_inv (length zs) nreg closing vss0 z_idx
     (st\<lparr>slices_by_region := fst p, volume_slices := snd p\<rparr>) \<Longrightarrow>
   phase1_inv (length zs) nreg closing vss0 z'
     (st\<lparr>slices_by_region := fst p', volume_slices := snd p'\<rparr>)"
proof (induction zs bound vr z_idx p arbitrary: st rule: move_range.induct)
  case (1 zs bound vr z_idx p)
  show ?case
  proof (cases "z_idx < length zs \<and> zs ! z_idx < bound")
    case False
    with "1.prems"(1) have "z' = z_idx \<and> p' = p"
      by (subst (asm) move_range.simps) auto
    then show ?thesis using "1.prems"(2) by simp
  next
    case True
    with "1.prems"(1) obtain p1 where
      mv: "move_to_region vr z_idx p = Some p1" and
      rest: "move_range zs bound vr (Suc z_idx) p1 = Some (z', p')"
      by (subst (asm) move_range.simps) (auto split: option.splits)
    let ?st = "st\<lparr>slices_by_region := fst p, volume_slices := snd p\<rparr>"
    have mv': "move_to_region vr z_idx (slices_by_region ?st, volume_slices ?st)
        = Some (fst p1, snd p1)" using mv by simp
    from phase1_step_move [OF "1.prems"(2) _ mv'] True
    have "phase1_inv (length zs) nreg closing vss0 (Suc z_idx)
        (st\<lparr>slices_by_region := fst p1, volume_slices := snd p1\<rparr>)" by simp
    from "1.IH" [OF True mv rest this] show ?thesis .
  qed
qed

lemma classify_range_inv:
  "classify_range zs lr z_idx st = Some (z', st') \<Longrightarrow>
   phase1_inv (length zs) nreg closing vss0 z_idx st \<Longrightarrow>
   phase1_inv (length zs) nreg closing vss0 z' st'"
proof (induction zs lr z_idx st rule: classify_range.induct)
  case (1 zs layer_range z_idx st)
  show ?case
  proof (cases "z_idx < length zs \<and> zs ! z_idx < snd (layer_height_range layer_range)")
    case False
    with "1.prems"(1) have "z' = z_idx \<and> st' = st"
      by (subst (asm) classify_range.simps) auto
    then show ?thesis using "1.prems"(2) by simp
  next
    case True
    then have zl: "z_idx < length zs" by simp
    obtain first complex where
      dc: "detect_complex (volume_regions layer_range) (zs ! z_idx) = (first, complex)"
      by (cases "detect_complex (volume_regions layer_range) (zs ! z_idx)")
    show ?thesis
    proof (cases complex)
      case True
      note cx = this
      let ?st1 = "st\<lparr>zs_complex := zs_complex st @ [(z_idx, zs ! z_idx)]\<rparr>"
      from "1.prems"(1) \<open>z_idx < length zs \<and> zs ! z_idx < snd (layer_height_range layer_range)\<close>
        dc cx
      have rest: "classify_range zs layer_range (Suc z_idx) ?st1 = Some (z', st')"
        by (subst (asm) classify_range.simps) simp
      from phase1_step_complex [OF "1.prems"(2) zl]
      have "phase1_inv (length zs) nreg closing vss0 (Suc z_idx) ?st1" .
      from "1.IH"(1) [OF \<open>z_idx < length zs \<and> zs ! z_idx < snd (layer_height_range layer_range)\<close>
          refl refl dc [symmetric] cx rest this]
      show ?thesis .
    next
      case False
      note ncx = this
      show ?thesis
      proof (cases "first \<ge> 0")
        case True
        from "1.prems"(1) \<open>z_idx < length zs \<and> zs ! z_idx < snd (layer_height_range layer_range)\<close>
          dc ncx True
        obtain sbr vss where
          mv: "move_to_region (volume_regions layer_range ! nat first) z_idx
                 (slices_by_region st, volume_slices st) = Some (sbr, vss)" and
          rest: "classify_range zs layer_range (Suc z_idx)
                   (st\<lparr>slices_by_region := sbr, volume_slices := vss\<rparr>) = Some (z', st')"
          by (subst (asm) classify_range.simps) (auto split: option.splits)
        from phase1_step_move [OF "1.prems"(2) zl mv]
        have "phase1_inv (length zs) nreg closing vss0 (Suc z_idx)
            (st\<lparr>slices_by_region := sbr, volume_slices := vss\<rparr>)" .
        from "1.IH"(2) [OF \<open>z_idx < length zs \<and> zs ! z_idx < snd (layer_height_range layer_range)\<close>
            refl refl dc [symmetric] ncx True mv refl rest this]
        show ?thesis .
      next
        case False
        from "1.prems"(1) \<open>z_idx < length zs \<and> zs ! z_idx < snd (layer_height_range layer_range)\<close>
          dc ncx False
        have rest: "classify_range zs layer_range (Suc z_idx) st = Some (z', st')"
          by (subst (asm) classify_range.simps) simp
        from phase1_inv_mono [OF "1.prems"(2), of "Suc z_idx"] zl
        have "phase1_inv (length zs) nreg closing vss0 (Suc z_idx) st" by simp
        from "1.IH"(3) [OF \<open>z_idx < length zs \<and> zs ! z_idx < snd (layer_height_range layer_range)\<close>
            refl refl dc [symmetric] ncx False rest this]
        show ?thesis .
      qed
    qed
  qed
qed

lemma shuffle_simple_inv:
  "shuffle_simple zs lrs z_idx st = Some st' \<Longrightarrow>
   phase1_inv (length zs) nreg closing vss0 z_idx st \<Longrightarrow>
   \<exists>z'. phase1_inv (length zs) nreg closing vss0 z' st'"
proof (induction lrs arbitrary: z_idx st)
  case Nil
  then show ?case by auto
next
  case (Cons lr lrs)
  let ?z1 = "advance_below zs (fst (layer_height_range lr)) z_idx"
  have zb: "z_idx \<le> ?z1" "?z1 \<le> length zs"
    using advance_below_bounds [of z_idx zs "fst (layer_height_range lr)"] Cons.prems(2)
    by (simp_all add: phase1_inv_def)
  from phase1_inv_mono [OF Cons.prems(2) zb]
  have inv1: "phase1_inv (length zs) nreg closing vss0 ?z1 st" .
  consider (skip) "shuffle_simple zs lrs ?z1 st = Some st'"
    | (single) z2 sbr vss where
        "move_range zs (snd (layer_height_range lr)) (hd (volume_regions lr)) ?z1
           (slices_by_region st, volume_slices st) = Some (z2, sbr, vss)"
        "shuffle_simple zs lrs z2 (st\<lparr>slices_by_region := sbr, volume_slices := vss\<rparr>) = Some st'"
    | (multi) z2 st2 where
        "classify_range zs lr ?z1 st = Some (z2, st2)"
        "shuffle_simple zs lrs z2 st2 = Some st'"
    using Cons.prems(1) by (auto simp: Let_def split: if_splits option.splits)
  then show ?case
  proof cases
    case skip
    from Cons.IH [OF skip inv1] show ?thesis .
  next
    case single
    have "phase1_inv (length zs) nreg closing vss0 ?z1
        (st\<lparr>slices_by_region := fst (slices_by_region st, volume_slices st),
            volume_slices := snd (slices_by_region st, volume_slices st)\<rparr>)"
      using inv1 by simp
    from move_range_inv [OF single(1) this]
    have "phase1_inv (length zs) nreg closing vss0 z2
        (st\<lparr>slices_by_region := sbr, volume_slices := vss\<rparr>)" by simp
    from Cons.IH [OF single(2) this] show ?thesis .
  next
    case multi
    from classify_range_inv [OF multi(1) inv1]
    have "phase1_inv (length zs) nreg closing vss0 z2 st2" .
    from Cons.IH [OF multi(2) this] show ?thesis .
  qed
qed

lemma phase1_inv_init:
  "phase1_inv (length zs) nreg closing vss 0
     \<lparr>slices_by_region = replicate nreg (replicate (length zs) {}),
      volume_slices = vss, zs_complex = []\<rparr>"
proof -
  have "row_exclusive closing (replicate nreg (replicate (length zs) {})) z" if "z < length zs" for z
    by (rule row_exclusive_disjoint) (use that in simp)
  then show ?thesis
    by (simp add: phase1_inv_def sbr_shape_def row_fresh_def)
qed

lemma rows_aligned_shrunk:
  assumes "rows_aligned vssA lrs lrrts" "vss_shrunk vss0 vssA"
  shows "rows_aligned vss0 lrs lrrts"
proof -
  have "src < length vss0 \<and> volume_id (vss0 ! src) = i"
    if "src < length vssA \<and> volume_id (vssA ! src) = i" for src i
    using that assms(2) by (auto simp: vss_shrunk_def)
  then show ?thesis
    using assms(1) unfolding rows_aligned_def
    by (auto elim!: list_all2_mono)
qed

lemma slices_to_regions_rows:
  assumes run: "slices_to_regions closing_ex K blocked_range model_volumes por zs vss = Some out"
    and wf: "\<forall>lr \<in> set (layer_ranges por). regions_well_formed (volume_regions lr)"
    and sb: "slices_in_bboxes K (layer_ranges por) vss"
    and part: "\<forall>xs. concat (blocked_range xs) = xs"
  shows "length out = length (all_regions por)"
    and "\<forall>r < length out. length (out ! r) = length zs"
    and "\<forall>z < length zs. row_exclusive (\<lambda>e. closing_ex e (scaled K (EPSILON K))) out z"
proof -
  let ?closing = "\<lambda>e. closing_ex e (scaled K (EPSILON K))"
  let ?n = "length zs" and ?nreg = "length (all_regions por)" and ?lrs = "layer_ranges por"
  let ?st0 = "\<lparr>slices_by_region = replicate ?nreg (replicate ?n {}),
      volume_slices = vss, zs_complex = []\<rparr>"
  from run obtain st where
    p1: "shuffle_simple zs ?lrs 0 ?st0 = Some st"
    by (auto simp: slices_to_regions_def Let_def split: option.splits)
  from shuffle_simple_inv [OF p1 phase1_inv_init] obtain z' where
    inv: "phase1_inv ?n ?nreg ?closing vss z' st" by blast
  let ?sbr = "slices_by_region st"
  from inv have a: "z' \<le> ?n" "length ?sbr = ?nreg" "sbr_shape ?n ?sbr"
    "vss_shrunk vss (volume_slices st)"
    "distinct (map fst (zs_complex st))"
    "\<And>zi. zi \<in> fst ` set (zs_complex st) \<Longrightarrow> zi < z' \<and> row_fresh ?sbr zi"
    "\<And>z. z < ?n \<Longrightarrow> row_exclusive ?closing ?sbr z"
    unfolding phase1_inv_def by blast+
  have "length out = ?nreg \<and> sbr_shape ?n out \<and> (\<forall>z < ?n. row_exclusive ?closing out z)"
  proof (cases "zs_complex st = []")
    case True
    with run p1 have "out = ?sbr" by (simp add: slices_to_regions_def Let_def)
    then show ?thesis using a by simp
  next
    case False
    with run p1 obtain lrrts vss' where
      rts: "regions_to_slices (volume_slices st) ?lrs = Some lrrts" and
      ch: "complex_chunks ?closing ?lrs lrrts (blocked_range (zs_complex st))
             (?sbr, volume_slices st) = Some (out, vss')"
      by (auto simp: slices_to_regions_def Let_def split: option.splits)
    have "rows_aligned (volume_slices st) ?lrs lrrts"
      using regions_to_slices_Some [OF rts] by (simp add: rows_aligned_def)
    from rows_aligned_shrunk [OF this a(4)]
    have al: "rows_aligned vss ?lrs lrrts" .
    have cc: "concat (blocked_range (zs_complex st)) = zs_complex st" using part by simp
    have d: "distinct (map fst (concat (blocked_range (zs_complex st))))" using a(5) cc by simp
    have fr: "\<forall>zi \<in> fst ` set (concat (blocked_range (zs_complex st))).
        zi < ?n \<and> row_fresh ?sbr zi"
      using a(6) a(1) cc by fastforce
    from complex_chunks_inv [OF wf sb al ch a(3) a(4) d fr]
    have r: "sbr_shape ?n out" "length out = length ?sbr"
      "\<forall>z < ?n. z \<notin> fst ` set (zs_complex st) \<longrightarrow> (\<forall>r < length ?sbr. out ! r ! z = ?sbr ! r ! z)"
      "\<forall>zi \<in> fst ` set (zs_complex st). row_exclusive ?closing out zi"
      using cc by simp_all
    have "row_exclusive ?closing out z" if z: "z < ?n" for z
    proof (cases "z \<in> fst ` set (zs_complex st)")
      case True
      then show ?thesis using r(4) by blast
    next
      case False
      then have "\<forall>r < length ?sbr. out ! r ! z = ?sbr ! r ! z" using r(3) z by simp
      from row_exclusive_cong [OF r(2) this a(7) [OF z]] show ?thesis .
    qed
    then show ?thesis using r(1,2) a(2) by simp
  qed
  then show "length out = length (all_regions por)"
    and "\<forall>r < length out. length (out ! r) = length zs"
    and "\<forall>z < length zs. row_exclusive ?closing out z"
    by (simp_all add: sbr_shape_def)
qed

lemma row_exclusive_no_growth:
  assumes "row_exclusive closing sbr z" "\<forall>S. closing S \<subseteq> S"
    "r1 < length sbr" "r2 < length sbr" "r1 \<noteq> r2"
  shows "sbr ! r1 ! z \<inter> sbr ! r2 ! z = {}"
proof -
  from assms(1) obtain X where X: "\<forall>r1 r2. r1 \<noteq> r2 \<longrightarrow> X r1 \<inter> X r2 = {}"
    "\<forall>r < length sbr. sbr ! r ! z = X r \<or> sbr ! r ! z = closing (X r)"
    unfolding row_exclusive_def by blast
  have "sbr ! r1 ! z \<subseteq> X r1" "sbr ! r2 ! z \<subseteq> X r2"
    using X(2) assms(2,3,4) by (metis subset_refl)+
  moreover have "X r1 \<inter> X r2 = {}" using X(1) assms(5) by simp
  ultimately show ?thesis by blast
qed

lemma slab_nonempty [simp]: "a < b \<Longrightarrow> slab a b \<noteq> {}"
proof -
  assume "a < b"
  then have "(a, 0) \<in> slab a b" by (simp add: slab_def)
  then show ?thesis by blast
qed

lemma slab_disjoint [simp]: "b \<le> c \<Longrightarrow> slab a b - slab c d = slab a b"
  by (auto simp: slab_def)

lemma slab_disjoint2 [simp]: "b \<le> c \<Longrightarrow> slab c d - slab a b = slab c d"
  by (auto simp: slab_def)

lemma upt_3: "[0 ..< 3] = [0, 1, 2]" and upt_2: "[0 ..< 2] = [0, 1]" and upt_1: "[0 ..< 1] = [0]"
  and upt_12: "[1 ..< 2] = [1]"
  by (simp_all add: upt_rec)

lemma three_regions_nth [simp]:
  "length three_regions = 3"
  "model_volume (three_regions ! 0) = mk_vol 1 MODEL_PART"
  "model_volume (three_regions ! Suc 0) = mk_vol 2 MODEL_PART"
  "model_volume (three_regions ! 2) = mk_vol 3 MODEL_PART"
  "bbox (three_regions ! 0) = box_x 0 (1000 / 1000000)"
  "bbox (three_regions ! Suc 0) = box_x (1000 / 1000000) (1100 / 1000000)"
  "bbox (three_regions ! 2) = box_x (1100 / 1000000) (2000 / 1000000)"
  by (simp_all add: three_regions_def)

lemma mk_vol_simps [simp]:
  "is_model_part (mk_vol i MODEL_PART)" "\<not> is_modifier (mk_vol i MODEL_PART)"
  "\<not> is_negative_volume (mk_vol i MODEL_PART)" "mv_id (mk_vol i t) = i"
  by (simp_all add: mk_vol_def is_model_part_def is_modifier_def is_negative_volume_def)

lemma three_clip:
  "clip_regions three_regions [0 ..< 3]
     [\<lparr>expolygons = slab 0 1000, region_id = 0, rs_volume_id = 1\<rparr>,
      \<lparr>expolygons = slab 1000 1100, region_id = 1, rs_volume_id = 2\<rparr>,
      \<lparr>expolygons = slab 1100 2000, region_id = 0, rs_volume_id = 3\<rparr>]
   = Some
     [\<lparr>expolygons = slab 0 1000, region_id = 0, rs_volume_id = 1\<rparr>,
      \<lparr>expolygons = slab 1000 1100, region_id = 1, rs_volume_id = 2\<rparr>,
      \<lparr>expolygons = slab 1100 2000, region_id = 0, rs_volume_id = 3\<rparr>]"
  by (simp add: upt_3 upt_2 upt_1 clip_region_def clip_preceding_def clip_one_def
      set_expolygons_def)

lemma three_sort:
  "erase_empty (sort_slices
     [\<lparr>expolygons = slab 0 1000, region_id = 0, rs_volume_id = 1\<rparr>,
      \<lparr>expolygons = slab 1000 1100, region_id = 1, rs_volume_id = 2\<rparr>,
      \<lparr>expolygons = slab 1100 2000, region_id = 0, rs_volume_id = 3\<rparr>])
   = [\<lparr>expolygons = slab 0 1000, region_id = 0, rs_volume_id = 1\<rparr>,
      \<lparr>expolygons = slab 1100 2000, region_id = 0, rs_volume_id = 3\<rparr>,
      \<lparr>expolygons = slab 1000 1100, region_id = 1, rs_volume_id = 2\<rparr>]"
  by (simp add: sort_slices_def erase_empty_def RegionSlice_less_def)

lemma three_merge:
  "merge_and_store closing 0
     [\<lparr>expolygons = slab 0 1000, region_id = 0, rs_volume_id = 1\<rparr>,
      \<lparr>expolygons = slab 1100 2000, region_id = 0, rs_volume_id = 3\<rparr>,
      \<lparr>expolygons = slab 1000 1100, region_id = 1, rs_volume_id = 2\<rparr>]
     [[{}], [{}]]
   = Some [[closing (slab 0 1000 \<union> slab 1100 2000)], [slab 1000 1100]]"
  by (simp add: merge_run_def store_slice_def)

lemma three_build:
  "build_temp_slices three_regions [0, 1, 2] 0 three_slices
   = Some ([\<lparr>expolygons = slab 0 1000, region_id = 0, rs_volume_id = 1\<rparr>,
            \<lparr>expolygons = slab 1000 1100, region_id = 1, rs_volume_id = 2\<rparr>,
            \<lparr>expolygons = slab 1100 2000, region_id = 0, rs_volume_id = 3\<rparr>],
           [\<lparr>volume_id = 1, slices = [{}]\<rparr>,
            \<lparr>volume_id = 2, slices = [{}]\<rparr>,
            \<lparr>volume_id = 3, slices = [{}]\<rparr>])"
  by (simp add: three_regions_def three_slices_def take_slice_def mk_region_def)

lemma resolve_complex_eq:
  assumes "volume_regions lr = vrs" and "length vrs = n"
    and "build_temp_slices vrs to_slices z vss = Some (ts, vss')"
    and "clip_regions vrs [0 ..< n] ts = Some temp"
    and "erase_empty (sort_slices temp) = srt"
    and "merge_and_store closing z srt sbr0 = Some sbr"
  shows "resolve_complex closing lr to_slices z (sbr0, vss) = Some (sbr, vss')"
  using assms by (simp add: resolve_complex_def)

lemma three_resolve:
  "resolve_complex closing
     \<lparr>layer_height_range = (0, 10), volumes = [1, 2, 3],
      volume_regions = three_regions,
      painted_regions = [], fuzzy_skin_painted_regions = []\<rparr>
     [0, 1, 2] 0 ([[{}], [{}]], three_slices)
   = Some ([[closing (slab 0 1000 \<union> slab 1100 2000)], [slab 1000 1100]],
           [\<lparr>volume_id = 1, slices = [{}]\<rparr>,
            \<lparr>volume_id = 2, slices = [{}]\<rparr>,
            \<lparr>volume_id = 3, slices = [{}]\<rparr>])"
  by (rule resolve_complex_eq [OF _ _ three_build three_clip three_sort three_merge])
    (simp_all add: three_regions_def)

lemma three_detect: "detect_complex three_regions 5 = (0, True)"
  by (simp add: detect_complex_def detect_step_def upt_3 upt_2 upt_1 upt_12 z_in_bbox_def
      box_x_def overlap_in_xy_def)

lemma three_shuffle:
  "shuffle_simple [5] (layer_ranges three_parts) 0
     \<lparr>slices_by_region = [[{}], [{}]], volume_slices = three_slices, zs_complex = []\<rparr>
   = Some \<lparr>slices_by_region = [[{}], [{}]], volume_slices = three_slices,
            zs_complex = [(0, 5)]\<rparr>"
  apply (simp add: three_parts_def)
  apply (subst advance_below.simps, simp)
  apply (subst classify_range.simps, simp add: three_detect)
  apply (subst classify_range.simps, simp)
  apply (simp add: three_regions_def)
  done

lemma three_rts:
  "regions_to_slices three_slices (layer_ranges three_parts) = Some [[0, 1, 2]]"
  by (simp add: regions_to_slices_def three_parts_def three_slices_def
      volume_slices_find_by_id_def three_regions_def)

lemma three_parts_run:
  "slices_to_regions closing_square libslic3r (\<lambda>xs. [xs]) [] three_parts [5] three_slices
   = Some [[closing_square (slab 0 1000 \<union> slab 1100 2000) 100], [slab 1000 1100]]"
proof -
  have ar: "all_regions three_parts = [mk_region 0, mk_region 1]"
    by (simp add: three_parts_def)
  have lr: "layer_ranges three_parts =
      [\<lparr>layer_height_range = (0, 10), volumes = [1, 2, 3],
        volume_regions = three_regions,
        painted_regions = [], fuzzy_skin_painted_regions = []\<rparr>]"
    by (simp add: three_parts_def)
  have r: "scaled libslic3r (EPSILON libslic3r) = 100"
    by (simp add: scaled_def libslic3r_def)
  show ?thesis
    unfolding slices_to_regions_def Let_def ar
    apply (simp add: three_shuffle [simplified] three_rts [simplified])
    apply (simp add: lr complex_chunk_def layer_range_first_def layer_range_next_def
        three_resolve [simplified] r)
    done
qed

lemma cex_point: "(1050, 500) \<in> closing_square (slab 0 1000 \<union> slab 1100 2000) 100"
  unfolding closing_square_def erode_square_def dilate_square_def
proof (rule CollectI, intro allI impI)
  fix q :: "real \<times> real"
  assume q: "\<bar>fst q - fst (1050 :: real, 500 :: real)\<bar> \<le> 100
      \<and> \<bar>snd q - snd (1050 :: real, 500 :: real)\<bar> \<le> 100"
  show "q \<in> {q. \<exists>s \<in> slab 0 1000 \<union> slab 1100 2000.
      \<bar>fst q - fst s\<bar> \<le> 100 \<and> \<bar>snd q - snd s\<bar> \<le> 100}"
  proof (cases "fst q < 1000")
    case True
    with q have "q \<in> slab 0 1000 \<union> slab 1100 2000" by (auto simp: slab_def)
    then show ?thesis by (intro CollectI bexI [of _ q]) simp_all
  next
    case False
    with q have "(1100, snd q) \<in> slab 0 1000 \<union> slab 1100 2000"
      and "\<bar>fst q - 1100\<bar> \<le> 100" by (auto simp: slab_def)
    then show ?thesis by (intro CollectI bexI [of _ "(1100, snd q)"]) simp_all
  qed
qed

lemma cex_point2: "(1050, 500) \<in> slab 1000 1100"
  by (simp add: slab_def)

lemma slab_diff_pm: "slab 0 1000 - slab 500 1500 = slab 0 500"
  and slab_int_pm: "slab 0 1000 \<inter> slab 500 1500 = slab 500 1000"
  by (auto simp: slab_def)

lemma pm_clip:
  "clip_regions pm_regions [0 ..< 2]
     [\<lparr>expolygons = slab 0 1000, region_id = 0, rs_volume_id = 1\<rparr>,
      \<lparr>expolygons = slab 500 1500, region_id = 1, rs_volume_id = 2\<rparr>]
   = Some
     [\<lparr>expolygons = slab 0 500, region_id = 0, rs_volume_id = 1\<rparr>,
      \<lparr>expolygons = slab 500 1000, region_id = 1, rs_volume_id = 2\<rparr>]"
  by (simp add: upt_2 upt_1 clip_region_def clip_preceding_def clip_one_def clip_modifier_def
      set_expolygons_def pm_regions_def mk_vol_def is_model_part_def is_modifier_def
      is_negative_volume_def slab_diff_pm slab_int_pm)

lemma pm_sort:
  "erase_empty (sort_slices
     [\<lparr>expolygons = slab 0 500, region_id = 0, rs_volume_id = 1\<rparr>,
      \<lparr>expolygons = slab 500 1000, region_id = 1, rs_volume_id = 2\<rparr>])
   = [\<lparr>expolygons = slab 0 500, region_id = 0, rs_volume_id = 1\<rparr>,
      \<lparr>expolygons = slab 500 1000, region_id = 1, rs_volume_id = 2\<rparr>]"
  by (simp add: sort_slices_def erase_empty_def RegionSlice_less_def)

lemma pm_merge:
  "merge_and_store closing 0
     [\<lparr>expolygons = slab 0 500, region_id = 0, rs_volume_id = 1\<rparr>,
      \<lparr>expolygons = slab 500 1000, region_id = 1, rs_volume_id = 2\<rparr>]
     [[{}], [{}]]
   = Some [[slab 0 500], [slab 500 1000]]"
  by (simp add: merge_run_def store_slice_def)

lemma pm_build:
  "build_temp_slices pm_regions [0, 1] 0 pm_slices
   = Some ([\<lparr>expolygons = slab 0 1000, region_id = 0, rs_volume_id = 1\<rparr>,
            \<lparr>expolygons = slab 500 1500, region_id = 1, rs_volume_id = 2\<rparr>],
           [\<lparr>volume_id = 1, slices = [{}]\<rparr>,
            \<lparr>volume_id = 2, slices = [{}]\<rparr>])"
  by (simp add: pm_regions_def pm_slices_def take_slice_def mk_region_def)

lemma pm_resolve:
  "resolve_complex closing
     \<lparr>layer_height_range = (0, 10), volumes = [1, 2],
      volume_regions = pm_regions,
      painted_regions = [], fuzzy_skin_painted_regions = []\<rparr>
     [0, 1] 0 ([[{}], [{}]], pm_slices)
   = Some ([[slab 0 500], [slab 500 1000]],
           [\<lparr>volume_id = 1, slices = [{}]\<rparr>,
            \<lparr>volume_id = 2, slices = [{}]\<rparr>])"
  by (rule resolve_complex_eq [OF _ _ pm_build pm_clip pm_sort pm_merge])
    (simp_all add: pm_regions_def)

lemma pm_detect: "detect_complex pm_regions 5 = (0, True)"
  by (simp add: detect_complex_def detect_step_def upt_2 upt_1 upt_12 z_in_bbox_def
      box_x_def overlap_in_xy_def pm_regions_def)

lemma pm_shuffle:
  "shuffle_simple [5] (layer_ranges part_and_modifier) 0
     \<lparr>slices_by_region = [[{}], [{}]], volume_slices = pm_slices, zs_complex = []\<rparr>
   = Some \<lparr>slices_by_region = [[{}], [{}]], volume_slices = pm_slices,
            zs_complex = [(0, 5)]\<rparr>"
  apply (simp add: part_and_modifier_def)
  apply (subst advance_below.simps, simp)
  apply (subst classify_range.simps, simp add: pm_detect)
  apply (subst classify_range.simps, simp)
  apply (simp add: pm_regions_def)
  done

lemma pm_rts:
  "regions_to_slices pm_slices (layer_ranges part_and_modifier) = Some [[0, 1]]"
  by (simp add: regions_to_slices_def part_and_modifier_def pm_slices_def
      volume_slices_find_by_id_def pm_regions_def)

lemma part_and_modifier_run:
  "slices_to_regions closing_ex libslic3r single_chunk [] part_and_modifier [5] pm_slices
   = Some [[slab 0 500], [slab 500 1000]]"
proof -
  have ar: "all_regions part_and_modifier = [mk_region 0, mk_region 1]"
    by (simp add: part_and_modifier_def)
  have lr: "layer_ranges part_and_modifier =
      [\<lparr>layer_height_range = (0, 10), volumes = [1, 2],
        volume_regions = pm_regions,
        painted_regions = [], fuzzy_skin_painted_regions = []\<rparr>]"
    by (simp add: part_and_modifier_def)
  show ?thesis
    unfolding slices_to_regions_def Let_def ar
    apply (simp add: pm_shuffle [simplified] pm_rts [simplified] single_chunk_def)
    apply (simp add: lr complex_chunk_def layer_range_first_def layer_range_next_def
        pm_resolve [simplified])
    done
qed

lemma pm_well_formed: "regions_well_formed pm_regions"
  by (simp add: regions_well_formed_def pm_regions_def upt_2 mk_vol_def is_model_part_def
      is_modifier_def is_negative_volume_def)

lemma pm_in_bboxes: "slices_in_bboxes libslic3r (layer_ranges part_and_modifier) pm_slices"
  by (auto simp: slices_in_bboxes_def part_and_modifier_def pm_regions_def pm_slices_def
      in_bbox_xy_def slab_def box_x_def libslic3r_def mk_vol_def)

text \<open>
  C1 as stated fails: three parts side by side, the outer two in print region 0 and the
  thin middle one in print region 1. The two slices of region 0 are merged and closed
  with the radius \<^verbatim>\<open>scale_(EPSILON)\<close> = 100; the closing fills the gap of width 100 between
  them, which is where the slice of region 1 lies: the point (1050, 500) is in both outputs.
\<close>

theorem C1_counterexample:
  "slices_to_regions closing_square libslic3r single_chunk [] three_parts [5] three_slices
     = Some [[closing_square (slab 0 1000 \<union> slab 1100 2000) 100], [slab 1000 1100]]
   \<and> (1050, 500) \<in> closing_square (slab 0 1000 \<union> slab 1100 2000) 100 \<inter> slab 1000 1100"
  using three_parts_run cex_point cex_point2 by (simp add: single_chunk_def [abs_def])

text \<open>
  C1, amended: at every height there are pairwise disjoint polygon sets, one for each print
  region, such that the output of a region is its set or the closing (\<^verbatim>\<open>closing_ex\<close> with
  radius \<^verbatim>\<open>scale_(EPSILON)\<close>) of its set; the outputs of distinct regions are disjoint when
  the closing adds no area. This holds for volume regions that are well formed and slices
  that lie inside the bounding boxes of their volumes, whatever the chunks of the parallel
  loop are.
\<close>

theorem C1_regions_exclusive:
  assumes "slices_to_regions closing_ex K blocked_range model_volumes print_object_regions zs vss
      = Some out"
    and "\<forall>layer_range \<in> set (layer_ranges print_object_regions).
      regions_well_formed (volume_regions layer_range)"
    and "slices_in_bboxes K (layer_ranges print_object_regions) vss"
    and "\<forall>xs. concat (blocked_range xs) = xs"
    and "z_idx < length zs"
  shows "(\<exists>X. (\<forall>r1 r2. r1 \<noteq> r2 \<longrightarrow> X r1 \<inter> X r2 = {})
            \<and> (\<forall>r < length out. out ! r ! z_idx = X r
                  \<or> out ! r ! z_idx = closing_ex (X r) (scaled K (EPSILON K))))
     \<and> ((\<forall>S. closing_ex S (scaled K (EPSILON K)) \<subseteq> S) \<longrightarrow>
          (\<forall>r1 < length out. \<forall>r2 < length out. r1 \<noteq> r2 \<longrightarrow>
             out ! r1 ! z_idx \<inter> out ! r2 ! z_idx = {}))"
proof -
  have re: "row_exclusive (\<lambda>e. closing_ex e (scaled K (EPSILON K))) out z_idx"
    using slices_to_regions_rows(3) [OF assms(1-4)] assms(5) by blast
  then have "\<exists>X. (\<forall>r1 r2. r1 \<noteq> r2 \<longrightarrow> X r1 \<inter> X r2 = {})
            \<and> (\<forall>r < length out. out ! r ! z_idx = X r
                  \<or> out ! r ! z_idx = closing_ex (X r) (scaled K (EPSILON K)))"
    unfolding row_exclusive_def .
  moreover have "(\<forall>S. closing_ex S (scaled K (EPSILON K)) \<subseteq> S) \<longrightarrow>
          (\<forall>r1 < length out. \<forall>r2 < length out. r1 \<noteq> r2 \<longrightarrow>
             out ! r1 ! z_idx \<inter> out ! r2 ! z_idx = {})"
    using row_exclusive_no_growth [OF re] by blast
  ultimately show ?thesis by blast
qed

theorem C1_regions_exclusive_witness:
  "slices_to_regions no_closing libslic3r single_chunk [] part_and_modifier [5] pm_slices
     = Some [[slab 0 500], [slab 500 1000]]
   \<and> regions_well_formed pm_regions
   \<and> slices_in_bboxes libslic3r (layer_ranges part_and_modifier) pm_slices
   \<and> (\<forall>xs. concat (single_chunk xs) = xs)
   \<and> (\<forall>S. no_closing S (scaled libslic3r (EPSILON libslic3r)) \<subseteq> S)
   \<and> [[slab 0 500], [slab 500 1000]] ! 0 ! 0 \<inter> [[slab 0 500], [slab 500 1000]] ! 1 ! 0 = {}"
  using C1_regions_exclusive [of no_closing libslic3r single_chunk "[]" part_and_modifier
      "[5]" pm_slices "[[slab 0 500], [slab 500 1000]]" 0,
      THEN conjunct2, rule_format, where ?r1.0 = 0 and ?r2.0 = 1]
    part_and_modifier_run [of no_closing] pm_well_formed pm_in_bboxes
  by (simp add: single_chunk_def no_closing_def part_and_modifier_def)

subsection \<open>Paint-based reclassification\<close>

lemma subtracted_masks_Cons:
  "subtracted_masks G bb self idx (seg # rest) =
     (if int idx + 1 \<noteq> self \<and> segmented_overlaps G bb seg then be_expolygons seg else {})
     \<union> subtracted_masks G bb self (Suc idx) rest"
proof -
  have "{be_expolygons ((seg # rest) ! k) | k.
          k < length (seg # rest) \<and> int (idx + k) + 1 \<noteq> self
          \<and> segmented_overlaps G bb ((seg # rest) ! k)}
      = (if int idx + 1 \<noteq> self \<and> segmented_overlaps G bb seg then {be_expolygons seg} else {})
        \<union> {be_expolygons (rest ! k) | k.
          k < length rest \<and> int (Suc idx + k) + 1 \<noteq> self \<and> segmented_overlaps G bb (rest ! k)}"
    (is "?L = ?R")
  proof (rule set_eqI)
    fix x
    show "x \<in> ?L \<longleftrightarrow> x \<in> ?R"
    proof
      assume "x \<in> ?L"
      then obtain k where k: "x = be_expolygons ((seg # rest) ! k)" "k < length (seg # rest)"
        "int (idx + k) + 1 \<noteq> self" "segmented_overlaps G bb ((seg # rest) ! k)" by blast
      show "x \<in> ?R"
      proof (cases k)
        case 0
        with k show ?thesis by simp
      next
        case (Suc j)
        with k have "x = be_expolygons (rest ! j)" "j < length rest"
          "int (Suc idx + j) + 1 \<noteq> self" "segmented_overlaps G bb (rest ! j)" by simp_all
        then show ?thesis by blast
      qed
    next
      assume "x \<in> ?R"
      then consider "int idx + 1 \<noteq> self" "segmented_overlaps G bb seg" "x = be_expolygons seg"
        | j where "x = be_expolygons (rest ! j)" "j < length rest"
          "int (Suc idx + j) + 1 \<noteq> self" "segmented_overlaps G bb (rest ! j)"
        by (auto split: if_splits)
      then show "x \<in> ?L"
      proof cases
        case 1
        then have "x = be_expolygons ((seg # rest) ! 0) \<and> 0 < length (seg # rest)
          \<and> int (idx + 0) + 1 \<noteq> self \<and> segmented_overlaps G bb ((seg # rest) ! 0)" by simp
        then show ?thesis by blast
      next
        case 2
        then have "x = be_expolygons ((seg # rest) ! Suc j) \<and> Suc j < length (seg # rest)
          \<and> int (idx + Suc j) + 1 \<noteq> self \<and> segmented_overlaps G bb ((seg # rest) ! Suc j)"
          by simp
        then show ?thesis by blast
      qed
    qed
  qed
  then show ?thesis unfolding subtracted_masks_def by (simp split: if_splits)
qed

lemma trim_mine_eq:
  "trim_mine G bb self idx segs mine = mine - subtracted_masks G bb self idx segs"
proof (induction segs arbitrary: idx mine)
  case Nil
  show ?case by (simp add: subtracted_masks_def)
next
  case (Cons seg rest)
  show ?case
    by (auto simp: subtracted_masks_Cons Cons.IH Let_def)
qed

lemma find_if_from_le: "i \<le> find_if_from P xs i"
  by (simp add: find_if_from_def)

lemma find_if_from_bound: "i \<le> length xs \<Longrightarrow> find_if_from P xs i \<le> length xs"
  using length_takeWhile_le [of "\<lambda>x. \<not> P x" "drop i xs"]
  by (simp add: find_if_from_def)

lemma find_if_from_P:
  assumes "find_if_from P xs i < length xs"
  shows "P (xs ! find_if_from P xs i)"
proof -
  let ?n = "length (takeWhile (\<lambda>x. \<not> P x) (drop i xs))"
  from assms have lt: "?n < length (drop i xs)" by (simp add: find_if_from_def)
  from nth_length_takeWhile [OF lt] have "P (drop i xs ! ?n)" by simp
  with lt show ?thesis by (simp add: find_if_from_def)
qed

lemma find_if_from_notP:
  assumes "i \<le> j" "j < find_if_from P xs i"
  shows "\<not> P (xs ! j)"
proof -
  let ?tw = "takeWhile (\<lambda>x. \<not> P x) (drop i xs)"
  from assms have lt: "j - i < length ?tw" by (simp add: find_if_from_def)
  then have "?tw ! (j - i) \<in> set ?tw" by simp
  then have "\<not> P (?tw ! (j - i))" by (rule set_takeWhileD [THEN conjunct2])
  moreover have "?tw ! (j - i) = drop i xs ! (j - i)" using lt by (rule takeWhile_nth)
  moreover have "j - i < length (drop i xs)"
    using lt length_takeWhile_le [of "\<lambda>x. \<not> P x" "drop i xs"] by linarith
  ultimately show ?thesis using assms(1) by simp
qed

lemma find_if_from_unique:
  assumes "i \<le> k" "k \<le> length xs" "k < length xs \<Longrightarrow> P (xs ! k)"
    and "\<And>j. i \<le> j \<Longrightarrow> j < k \<Longrightarrow> \<not> P (xs ! j)"
  shows "find_if_from P xs i = k"
proof (rule antisym)
  show "find_if_from P xs i \<le> k"
  proof (rule ccontr)
    assume "\<not> find_if_from P xs i \<le> k"
    then have lt: "k < find_if_from P xs i" by simp
    from assms(1,2) have "i \<le> length xs" by simp
    from find_if_from_bound [OF this] lt have "k < length xs" by (metis le_trans not_le)
    with assms(3) find_if_from_notP [OF assms(1) lt] show False by simp
  qed
  show "k \<le> find_if_from P xs i"
  proof (rule ccontr)
    assume "\<not> k \<le> find_if_from P xs i"
    then have lt: "find_if_from P xs i < k" by simp
    with assms(2) have "find_if_from P xs i < length xs" by simp
    from find_if_from_P [OF this] assms(4) [OF find_if_from_le lt] show False by simp
  qed
qed

lemma find_if_from_mid:
  assumes "i \<le> j" "j \<le> find_if_from P xs i" "i \<le> length xs"
  shows "find_if_from P xs j = find_if_from P xs i"
proof (rule find_if_from_unique)
  show "j \<le> find_if_from P xs i" by fact
  show "find_if_from P xs i \<le> length xs" using assms(3) by (rule find_if_from_bound)
  show "P (xs ! find_if_from P xs i)" if "find_if_from P xs i < length xs"
    using that by (rule find_if_from_P)
  show "\<not> P (xs ! k)" if "j \<le> k" "k < find_if_from P xs i" for k
    using assms(1) that by (intro find_if_from_notP [of i]) simp_all
qed

lemma find_if_from_mono:
  assumes "\<And>x. Q x \<Longrightarrow> P x" "i \<le> length xs"
  shows "find_if_from P xs i \<le> find_if_from Q xs i"
proof (rule ccontr)
  assume "\<not> find_if_from P xs i \<le> find_if_from Q xs i"
  then have lt: "find_if_from Q xs i < find_if_from P xs i" by simp
  from find_if_from_bound [OF assms(2), of P] lt
  have "find_if_from Q xs i < length xs" by simp
  from find_if_from_P [OF this] have "P (xs ! find_if_from Q xs i)" by (rule assms(1))
  with find_if_from_notP [OF find_if_from_le lt] show False by simp
qed

lemma target_painted_region_mono:
  assumes "e \<le> e'" "it_first \<le> length (painted_regions layer_range)"
  shows "target_painted_region layer_range it_first e
      \<le> target_painted_region layer_range it_first e'"
  unfolding target_painted_region_def
  using assms by (intro find_if_from_mono) simp_all

lemma br_by_region_add [simp]:
  "br_expolygons (by_region_add dst x) = br_expolygons dst \<union> x"
  by (auto simp: by_region_add_def)

lemma by_region_add_at_Some:
  assumes "by_region_add_at b i x = Some b'"
  shows "length b' = length b" and "i < length b" and "b' ! i = by_region_add (b ! i) x"
    and "\<And>r. r \<noteq> i \<Longrightarrow> b' ! r = b ! r"
  using assms by (auto simp: by_region_add_at_def split: if_splits)

lemma by_region_grows_refl [simp]: "by_region_grows S p b b"
  by (simp add: by_region_grows_def)

lemma by_region_grows_trans:
  assumes "by_region_grows S p b1 b2" "by_region_grows S p b2 b3"
  shows "by_region_grows S p b1 b3"
  using assms unfolding by_region_grows_def by (auto; blast)

lemma steal_step_grows:
  assumes "steal_step G layer_range by_extruder parent_lr bb e st = Some st'"
  shows "by_region_grows (m_slices parent_lr) (print_object_region_id (m_region parent_lr))
     (by_region st) (by_region st')"
proof -
  let ?prs = "painted_regions layer_range"
  let ?pid = "print_object_region_id (m_region parent_lr)"
  let ?it = "find_if_from (\<lambda>pr. extruder_id pr \<ge> e) ?prs (it_painted_region_begin st)"
  let ?tid = "print_object_region_id (painted_region (?prs ! ?it))"
  let ?stolen = "m_slices parent_lr \<inter> be_expolygons (by_extruder ! (e - 1))"
  consider "by_region st' = by_region st"
    | b' where "?tid \<noteq> ?pid" "by_region_add_at (by_region st) ?tid ?stolen = Some b'"
        "by_region st' = b'"
    using assms
    by (auto simp: steal_step_def Let_def split: if_splits option.splits)
  then show ?thesis
  proof cases
    case 1
    then show ?thesis by simp
  next
    case 2
    note a = by_region_add_at_Some [OF 2(2)]
    show ?thesis
      unfolding by_region_grows_def 2(3)
    proof (intro conjI allI impI)
      show "length b' = length (by_region st)" by (rule a(1))
      show "b' ! ?pid = by_region st ! ?pid" using 2(1) by (intro a(4)) simp
      show "br_expolygons (by_region st ! r) \<subseteq> br_expolygons (b' ! r)" for r
        using a(3) a(4) [of r] by (cases "r = ?tid") auto
      show "br_expolygons (b' ! r) \<subseteq> br_expolygons (by_region st ! r) \<union> m_slices parent_lr"
        for r
        using a(3) a(4) [of r] by (cases "r = ?tid") auto
    qed
  qed
qed

lemma steal_loop_grows:
  assumes "steal_loop G layer_range by_extruder parent_lr bb es st = Some st'"
  shows "by_region_grows (m_slices parent_lr) (print_object_region_id (m_region parent_lr))
     (by_region st) (by_region st')"
  using assms
proof (induction es arbitrary: st)
  case Nil
  then show ?case by simp
next
  case (Cons e es)
  from Cons.prems obtain st1 where
    s1: "steal_step G layer_range by_extruder parent_lr bb e st = Some st1"
    and s2: "steal_loop G layer_range by_extruder parent_lr bb es st1 = Some st'"
    by (auto split: option.splits)
  from by_region_grows_trans [OF steal_step_grows [OF s1] Cons.IH [OF s2]] show ?case .
qed

lemma steal_step_found:
  assumes s: "steal_step G layer_range by_extruder parent_lr
      (get_extents G (m_slices parent_lr)) (Suc k) st = Some st'"
    and lo: "it_first \<le> it_painted_region_begin st"
    and hi: "it_painted_region_begin st \<le> target_painted_region layer_range it_first (Suc k)"
    and le: "it_first \<le> length (painted_regions layer_range)"
  shows "self_extruder_id st' =
      (if own_mask G layer_range by_extruder parent_lr it_first k then int (Suc k)
       else self_extruder_id st)"
    and "it_painted_region_begin st \<le> it_painted_region_begin st'"
    and "it_painted_region_begin st'
      \<le> target_painted_region layer_range it_first (Suc k)"
    and "it_painted_region_begin st' = it_painted_region_begin st
      \<or> it_painted_region_begin st' < length (painted_regions layer_range)"
proof -
  let ?prs = "painted_regions layer_range"
  let ?pid = "print_object_region_id (m_region parent_lr)"
  let ?bb = "get_extents G (m_slices parent_lr)"
  let ?t = "target_painted_region layer_range it_first (Suc k)"
  let ?it = "find_if_from (\<lambda>pr. extruder_id pr \<ge> Suc k) ?prs (it_painted_region_begin st)"
  have it: "?it = ?t"
    unfolding target_painted_region_def
    using lo hi le by (intro find_if_from_mid) (simp_all add: target_painted_region_def)
  have "self_extruder_id st' =
      (if own_mask G layer_range by_extruder parent_lr it_first k then int (Suc k)
       else self_extruder_id st)
    \<and> it_painted_region_begin st \<le> it_painted_region_begin st'
    \<and> it_painted_region_begin st' \<le> ?t
    \<and> (it_painted_region_begin st' = it_painted_region_begin st
        \<or> it_painted_region_begin st' < length ?prs)"
  proof (cases "segmented_overlaps G ?bb (by_extruder ! k)")
    case False
    with s have "st' = st" by (simp add: steal_step_def)
    with False hi show ?thesis by (simp add: own_mask_def)
  next
    case True
    with s have lt: "?it < length ?prs"
      by (auto simp: steal_step_def Let_def split: if_splits)
    show ?thesis
    proof (cases "print_object_region_id (painted_region (?prs ! ?it)) = ?pid")
      case own: True
      with s True lt have "st' = st\<lparr>it_painted_region_begin := ?it,
          self_extruder_id := int (Suc k)\<rparr>"
        by (auto simp: steal_step_def Let_def split: if_splits)
      moreover have "own_mask G layer_range by_extruder parent_lr it_first k"
        using True lt own by (simp add: own_mask_def it [symmetric])
      ultimately show ?thesis using hi lt it by simp
    next
      case False
      with s True lt have "self_extruder_id st' = self_extruder_id st
          \<and> it_painted_region_begin st' = ?it"
        by (auto simp: steal_step_def Let_def split: if_splits option.splits)
      moreover have "\<not> own_mask G layer_range by_extruder parent_lr it_first k"
        using False by (simp add: own_mask_def it [symmetric])
      ultimately show ?thesis using hi lt it by simp
    qed
  qed
  then show "self_extruder_id st' =
      (if own_mask G layer_range by_extruder parent_lr it_first k then int (Suc k)
       else self_extruder_id st)"
    and "it_painted_region_begin st \<le> it_painted_region_begin st'"
    and "it_painted_region_begin st' \<le> ?t"
    and "it_painted_region_begin st' = it_painted_region_begin st
      \<or> it_painted_region_begin st' < length ?prs"
    by blast+
qed

lemma steal_loop_self_after:
  assumes "steal_loop G layer_range by_extruder parent_lr
      (get_extents G (m_slices parent_lr)) (map Suc ks) st = Some st'"
    and "sorted_wrt (<) ks"
    and "it_first \<le> it_painted_region_begin st"
    and "\<forall>k \<in> set ks. it_painted_region_begin st
        \<le> target_painted_region layer_range it_first (Suc k)"
    and le: "it_first \<le> length (painted_regions layer_range)"
  shows "self_extruder_id st'
      = self_after G layer_range by_extruder parent_lr it_first ks (self_extruder_id st)
    \<and> it_painted_region_begin st \<le> it_painted_region_begin st'
    \<and> (it_painted_region_begin st' = it_painted_region_begin st
        \<or> it_painted_region_begin st' < length (painted_regions layer_range))"
  using assms(1-4)
proof (induction ks arbitrary: st)
  case Nil
  then show ?case by simp
next
  case (Cons k ks)
  from Cons.prems(1) obtain st1 where
    s1: "steal_step G layer_range by_extruder parent_lr
        (get_extents G (m_slices parent_lr)) (Suc k) st = Some st1"
    and s2: "steal_loop G layer_range by_extruder parent_lr
        (get_extents G (m_slices parent_lr)) (map Suc ks) st1 = Some st'"
    by (auto split: option.splits)
  from Cons.prems(4) have hi: "it_painted_region_begin st
      \<le> target_painted_region layer_range it_first (Suc k)" by simp
  note f = steal_step_found [OF s1 Cons.prems(3) hi le]
  have srt: "sorted_wrt (<) ks" and gt: "\<forall>j \<in> set ks. k < j"
    using Cons.prems(2) by simp_all
  have lo1: "it_first \<le> it_painted_region_begin st1" using Cons.prems(3) f(2) by simp
  have hi1: "\<forall>j \<in> set ks. it_painted_region_begin st1
      \<le> target_painted_region layer_range it_first (Suc j)"
  proof
    fix j assume "j \<in> set ks"
    with gt have "Suc k \<le> Suc j" by auto
    from target_painted_region_mono [OF this le] f(3)
    show "it_painted_region_begin st1
      \<le> target_painted_region layer_range it_first (Suc j)" by simp
  qed
  from Cons.IH [OF s2 srt lo1 hi1] f show ?case by auto
qed

lemma self_after_snoc:
  "self_after G layer_range by_extruder parent_lr it_first (ks @ [k]) s =
     (if own_mask G layer_range by_extruder parent_lr it_first k then int (Suc k)
      else self_after G layer_range by_extruder parent_lr it_first ks s)"
  by (induction ks arbitrary: s) simp_all

lemma last_satisfying:
  fixes P :: "nat \<Rightarrow> bool"
  shows "P n \<Longrightarrow> (k < Suc n \<and> P k \<and> (\<forall>j. k < j \<and> j < Suc n \<longrightarrow> \<not> P j)) = (k = n)"
    and "\<not> P n \<Longrightarrow> (k < Suc n \<and> P k \<and> (\<forall>j. k < j \<and> j < Suc n \<longrightarrow> \<not> P j))
        = (k < n \<and> P k \<and> (\<forall>j. k < j \<and> j < n \<longrightarrow> \<not> P j))"
proof -
  show "(k < Suc n \<and> P k \<and> (\<forall>j. k < j \<and> j < Suc n \<longrightarrow> \<not> P j)) = (k = n)" if "P n"
  proof
    assume a: "k < Suc n \<and> P k \<and> (\<forall>j. k < j \<and> j < Suc n \<longrightarrow> \<not> P j)"
    show "k = n"
    proof (rule ccontr)
      assume "k \<noteq> n"
      with a have "k < n \<and> n < Suc n" by simp
      with a that show False by blast
    qed
  next
    assume "k = n"
    with that show "k < Suc n \<and> P k \<and> (\<forall>j. k < j \<and> j < Suc n \<longrightarrow> \<not> P j)" by auto
  qed
  show "(k < Suc n \<and> P k \<and> (\<forall>j. k < j \<and> j < Suc n \<longrightarrow> \<not> P j))
      = (k < n \<and> P k \<and> (\<forall>j. k < j \<and> j < n \<longrightarrow> \<not> P j))" if "\<not> P n"
  proof
    assume a: "k < Suc n \<and> P k \<and> (\<forall>j. k < j \<and> j < Suc n \<longrightarrow> \<not> P j)"
    with that have "k \<noteq> n" by blast
    with a show "k < n \<and> P k \<and> (\<forall>j. k < j \<and> j < n \<longrightarrow> \<not> P j)" by auto
  next
    assume a: "k < n \<and> P k \<and> (\<forall>j. k < j \<and> j < n \<longrightarrow> \<not> P j)"
    have "\<not> P j" if "k < j" "j < Suc n" for j
    proof (cases "j = n")
      case True
      with \<open>\<not> P n\<close> show ?thesis by simp
    next
      case False
      with that a show ?thesis by simp
    qed
    with a show "k < Suc n \<and> P k \<and> (\<forall>j. k < j \<and> j < Suc n \<longrightarrow> \<not> P j)" by simp
  qed
qed

lemma self_after_upt:
  "self_after G layer_range by_extruder parent_lr it_first [0 ..< n] (- 1) = int (Suc k)
   \<longleftrightarrow> k < n \<and> own_mask G layer_range by_extruder parent_lr it_first k
       \<and> (\<forall>j. k < j \<and> j < n \<longrightarrow> \<not> own_mask G layer_range by_extruder parent_lr it_first j)"
proof (induction n)
  case 0
  show ?case by simp
next
  case (Suc n)
  show ?case
  proof (cases "own_mask G layer_range by_extruder parent_lr it_first n")
    case True
    have "self_after G layer_range by_extruder parent_lr it_first [0 ..< Suc n] (- 1)
        = int (Suc n)"
      using True by (simp add: self_after_snoc)
    then have "self_after G layer_range by_extruder parent_lr it_first [0 ..< Suc n] (- 1)
        = int (Suc k) \<longleftrightarrow> k = n" by auto
    then show ?thesis
      unfolding last_satisfying(1)
        [of "own_mask G layer_range by_extruder parent_lr it_first" n k, OF True] .
  next
    case False
    have "self_after G layer_range by_extruder parent_lr it_first [0 ..< Suc n] (- 1)
        = self_after G layer_range by_extruder parent_lr it_first [0 ..< n] (- 1)"
      using False by (simp add: self_after_snoc)
    then show ?thesis
      unfolding last_satisfying(2)
        [of "own_mask G layer_range by_extruder parent_lr it_first" n k, OF False]
      using Suc.IH by simp
  qed
qed

lemma last_own_mask_iff:
  "last_own_mask G layer_range by_extruder parent_lr it_first k
   \<longleftrightarrow> own_mask G layer_range by_extruder parent_lr it_first k
       \<and> (\<forall>j. k < j \<and> j < length by_extruder
              \<longrightarrow> \<not> own_mask G layer_range by_extruder parent_lr it_first j)"
  by (auto simp: last_own_mask_def list_all_iff)

lemma subtracted_masks_last_own:
  assumes "self = self_after G layer_range by_extruder parent_lr it_first
      [0 ..< length by_extruder] (- 1)"
  shows "subtracted_masks G (get_extents G (m_slices parent_lr)) self 0 by_extruder =
     \<Union> (set (map (\<lambda>k. be_expolygons (by_extruder ! k))
        (filter (\<lambda>k. segmented_overlaps G (get_extents G (m_slices parent_lr))
                        (by_extruder ! k)
                    \<and> \<not> last_own_mask G layer_range by_extruder parent_lr it_first k)
           [0 ..< length by_extruder])))"
proof -
  have iff: "int k + 1 \<noteq> self
      \<longleftrightarrow> \<not> last_own_mask G layer_range by_extruder parent_lr it_first k"
    if "k < length by_extruder" for k
    using self_after_upt [of G layer_range by_extruder parent_lr it_first
        "length by_extruder" k] that assms
    by (auto simp: last_own_mask_iff)
  have "{be_expolygons (by_extruder ! k) | k.
          k < length by_extruder \<and> int (0 + k) + 1 \<noteq> self
          \<and> segmented_overlaps G (get_extents G (m_slices parent_lr)) (by_extruder ! k)}
      = set (map (\<lambda>k. be_expolygons (by_extruder ! k))
        (filter (\<lambda>k. segmented_overlaps G (get_extents G (m_slices parent_lr))
                        (by_extruder ! k)
                    \<and> \<not> last_own_mask G layer_range by_extruder parent_lr it_first k)
           [0 ..< length by_extruder]))"
    using iff by auto
  then show ?thesis by (simp add: subtracted_masks_def)
qed

lemma find_first_painted_region_range:
  "find_first_painted_region layer_range rid xs i = Some r \<Longrightarrow> i \<le> r \<and> r \<le> i + length xs"
proof (induction xs arbitrary: i)
  case Nil
  then show ?case by simp
next
  case (Cons x xs)
  then show ?case
    by (fastforce split: option.splits if_splits)
qed

lemma map_Suc_upt_1: "[1 ..< Suc n] = map Suc [0 ..< n]"
  by (simp add: map_Suc_upt)

lemma mm_parent_layer_region_result:
  assumes run: "mm_parent_layer_region G K layer_range by_extruder layer p st = Some st'"
    and it: "fst st \<le> length (painted_regions layer_range)"
  shows "length (snd st') = length (snd st)"
    and "br_expolygons (snd st' ! p)
      = br_expolygons (snd st ! p)
        \<union> parent_contribution G K layer_range by_extruder layer p (fst st)"
    and "\<forall>r < length (snd st). r \<noteq> p \<longrightarrow>
        br_expolygons (snd st ! r) \<subseteq> br_expolygons (snd st' ! r)
        \<and> br_expolygons (snd st' ! r)
            \<subseteq> br_expolygons (snd st ! r) \<union> m_slices (m_regions layer ! p)"
    and "fst st' \<le> length (painted_regions layer_range)"
proof -
  let ?prs = "painted_regions layer_range"
  let ?parent = "m_regions layer ! p"
  let ?bb = "get_extents G (m_slices ?parent)"
  let ?C = "parent_contribution G K layer_range by_extruder layer p (fst st)"
  let ?goal = "length (snd st') = length (snd st)
    \<and> br_expolygons (snd st' ! p) = br_expolygons (snd st ! p) \<union> ?C
    \<and> (\<forall>r < length (snd st). r \<noteq> p \<longrightarrow>
        br_expolygons (snd st ! r) \<subseteq> br_expolygons (snd st' ! r)
        \<and> br_expolygons (snd st' ! r)
            \<subseteq> br_expolygons (snd st ! r) \<union> m_slices ?parent)
    \<and> fst st' \<le> length ?prs"
  have ?goal
  proof (cases "parent_is_split layer_range layer p (fst st)")
    case False
    then have C: "?C = {}" by (simp add: parent_contribution_def)
    have "st' = st"
    proof (cases "fst st = length ?prs")
      case True
      with run show ?thesis by (simp add: mm_parent_layer_region_def)
    next
      case ne: False
      with run have pid: "print_object_region_id (m_region ?parent) = p"
        by (auto simp: mm_parent_layer_region_def Let_def split: if_splits)
      show ?thesis
      proof (cases "m_slices ?parent = {}")
        case True
        with run ne pid show ?thesis by (simp add: mm_parent_layer_region_def)
      next
        case False
        with \<open>\<not> parent_is_split layer_range layer p (fst st)\<close> ne
        have "find_first_painted_region layer_range p (drop (fst st) ?prs) (fst st) = None
          \<or> find_first_painted_region layer_range p (drop (fst st) ?prs) (fst st)
              = Some (length ?prs)"
          by (auto simp: parent_is_split_def split: option.splits)
        with run ne pid False show ?thesis
          by (auto simp: mm_parent_layer_region_def)
      qed
    qed
    with C it show ?thesis by simp
  next
    case True
    then obtain it_first where ne: "fst st \<noteq> length ?prs"
      and sl: "m_slices ?parent \<noteq> {}"
      and ff: "find_first_painted_region layer_range p (drop (fst st) ?prs) (fst st)
          = Some it_first"
      and nl: "it_first \<noteq> length ?prs"
      by (auto simp: parent_is_split_def split: option.splits)
    from run ne have pid: "print_object_region_id (m_region ?parent) = p"
      by (auto simp: mm_parent_layer_region_def Let_def split: if_splits)
    from find_first_painted_region_range [OF ff] it
    have le: "it_first \<le> length ?prs" by simp
    let ?st0 = "\<lparr>it_painted_region_begin = it_first, by_region = snd st,
        self_extruder_id = - 1\<rparr>"
    from run ne pid sl ff nl obtain st2 where
      sloop: "steal_loop G layer_range by_extruder ?parent ?bb
          [1 ..< Suc (length by_extruder)] ?st0 = Some st2"
      by (auto simp: mm_parent_layer_region_def Let_def split: option.splits)
    let ?mine = "trim_mine G ?bb (self_extruder_id st2) 0 by_extruder (m_slices ?parent)"
    let ?mine2 = "if ?mine \<noteq> {}
        then ops_opening G ?mine (scaled K (5 * EPSILON K)) (scaled K (5 * EPSILON K))
        else ?mine"
    from run ne pid sl ff nl sloop have res:
      "if ?mine2 \<noteq> {}
       then (\<exists>b'. by_region_add_at (by_region st2) p ?mine2 = Some b'
               \<and> st' = (it_painted_region_begin st2, b'))
       else st' = (it_painted_region_begin st2, by_region st2)"
      by (auto simp: mm_parent_layer_region_def Let_def split: option.splits if_splits)
    have hi: "\<forall>k \<in> set [0 ..< length by_extruder]. it_painted_region_begin ?st0
        \<le> target_painted_region layer_range it_first (Suc k)"
      by (simp add: target_painted_region_def find_if_from_le)
    from steal_loop_self_after [OF sloop [unfolded map_Suc_upt_1] _ _ hi le]
    have self: "self_extruder_id st2 = self_after G layer_range by_extruder ?parent it_first
        [0 ..< length by_extruder] (- 1)"
      and itb: "it_painted_region_begin st2 = it_first
        \<or> it_painted_region_begin st2 < length ?prs"
      by simp_all
    from itb le have it2: "it_painted_region_begin st2 \<le> length ?prs" by auto
    have mine2: "?mine2 = parent_remaining G K layer_range by_extruder ?parent it_first"
      unfolding parent_remaining_def Let_def trim_mine_eq
        subtracted_masks_last_own [OF self] by simp
    have C: "?C = parent_remaining G K layer_range by_extruder ?parent it_first"
      using True ff by (simp add: parent_contribution_def)
    from steal_loop_grows [OF sloop] pid
    have grows: "by_region_grows (m_slices ?parent) p (snd st) (by_region st2)" by simp
    show ?thesis
    proof (cases "?mine2 = {}")
      case e: True
      with res have st': "st' = (it_painted_region_begin st2, by_region st2)" by simp
      from grows e C mine2 it2 show ?thesis
        unfolding st' by_region_grows_def by auto
    next
      case False
      with res obtain b' where
        add: "by_region_add_at (by_region st2) p ?mine2 = Some b'"
        and st': "st' = (it_painted_region_begin st2, b')" by auto
      note a = by_region_add_at_Some [OF add]
      have p_entry: "br_expolygons (b' ! p) = br_expolygons (snd st ! p) \<union> ?C"
        using a(3) grows C mine2 by (simp add: by_region_grows_def)
      have others: "b' ! r = by_region st2 ! r" if "r \<noteq> p" for r
        using a(4) that by simp
      from grows a(1) p_entry others it2 show ?thesis
        unfolding st' by_region_grows_def by auto
    qed
  qed
  then show "length (snd st') = length (snd st)"
    and "br_expolygons (snd st' ! p) = br_expolygons (snd st ! p) \<union> ?C"
    and "\<forall>r < length (snd st). r \<noteq> p \<longrightarrow>
        br_expolygons (snd st ! r) \<subseteq> br_expolygons (snd st' ! r)
        \<and> br_expolygons (snd st' ! r)
            \<subseteq> br_expolygons (snd st ! r) \<union> m_slices ?parent"
    and "fst st' \<le> length ?prs"
    by blast+
qed

lemma mm_parent_layer_regions_append:
  "mm_parent_layer_regions G K layer_range by_extruder layer (xs @ ys) st =
     (case mm_parent_layer_regions G K layer_range by_extruder layer xs st of
        None \<Rightarrow> None
      | Some st1 \<Rightarrow> mm_parent_layer_regions G K layer_range by_extruder layer ys st1)"
  by (induction xs arbitrary: st) (simp_all split: option.splits)

lemma mm_parent_layer_regions_others:
  assumes "mm_parent_layer_regions G K layer_range by_extruder layer qs st = Some st'"
    and "fst st \<le> length (painted_regions layer_range)"
    and "p \<notin> set qs" "p < length (snd st)"
  shows "length (snd st') = length (snd st)
    \<and> fst st' \<le> length (painted_regions layer_range)
    \<and> br_expolygons (snd st ! p) \<subseteq> br_expolygons (snd st' ! p)
    \<and> br_expolygons (snd st' ! p)
        \<subseteq> br_expolygons (snd st ! p) \<union> (\<Union>q \<in> set qs. m_slices (m_regions layer ! q))"
  using assms
proof (induction qs arbitrary: st)
  case Nil
  then show ?case by simp
next
  case (Cons q qs)
  from Cons.prems(1) obtain st1 where
    s1: "mm_parent_layer_region G K layer_range by_extruder layer q st = Some st1"
    and s2: "mm_parent_layer_regions G K layer_range by_extruder layer qs st1 = Some st'"
    by (auto split: option.splits)
  note r = mm_parent_layer_region_result [OF s1 Cons.prems(2)]
  from Cons.prems(3) have pq: "p \<noteq> q" and pn: "p \<notin> set qs" by simp_all
  from r(1) Cons.prems(4) have pl: "p < length (snd st1)" by simp
  from r(3) Cons.prems(4) pq have step:
    "br_expolygons (snd st ! p) \<subseteq> br_expolygons (snd st1 ! p)"
    "br_expolygons (snd st1 ! p)
        \<subseteq> br_expolygons (snd st ! p) \<union> m_slices (m_regions layer ! q)"
    by simp_all
  from Cons.IH [OF s2 r(4) pn pl] have ih:
    "length (snd st') = length (snd st1)"
    "fst st' \<le> length (painted_regions layer_range)"
    "br_expolygons (snd st1 ! p) \<subseteq> br_expolygons (snd st' ! p)"
    "br_expolygons (snd st' ! p)
        \<subseteq> br_expolygons (snd st1 ! p) \<union> (\<Union>q \<in> set qs. m_slices (m_regions layer ! q))"
    by simp_all
  from step ih r(1) show ?case by auto
qed

lemma mm_parent_layer_regions_bounds:
  assumes "mm_parent_layer_regions G K layer_range by_extruder layer qs st = Some st'"
    and "fst st \<le> length (painted_regions layer_range)"
  shows "length (snd st') = length (snd st)
    \<and> fst st' \<le> length (painted_regions layer_range)"
  using assms
proof (induction qs arbitrary: st)
  case Nil
  then show ?case by simp
next
  case (Cons q qs)
  from Cons.prems(1) obtain st1 where
    s1: "mm_parent_layer_region G K layer_range by_extruder layer q st = Some st1"
    and s2: "mm_parent_layer_regions G K layer_range by_extruder layer qs st1 = Some st'"
    by (auto split: option.splits)
  note r = mm_parent_layer_region_result [OF s1 Cons.prems(2)]
  from Cons.IH [OF s2 r(4)] r(1) show ?case by simp
qed

lemma upt_split3: "p < n \<Longrightarrow> [0 ..< n] = [0 ..< p] @ [p] @ [Suc p ..< n]"
  by (metis append_Cons append_Nil le_add2 le_add_same_cancel2 less_imp_add_positive
      upt_add_eq_append upt_conv_Cons)

lemma recreate_surfaces_nth:
  assumes "p < length (m_regions layer)"
  shows "m_slices (m_regions (recreate_surfaces G K b layer) ! p) =
      (if needs_merge (b ! p)
       then ops_closing_ex G (br_expolygons (b ! p)) (scaled K (10 * EPSILON K))
       else br_expolygons (b ! p))"
    and "m_region (m_regions (recreate_surfaces G K b layer) ! p) = m_region (m_regions layer ! p)"
    and "length (m_regions (recreate_surfaces G K b layer)) = length (m_regions layer)"
  using assms by (simp_all add: recreate_surfaces_def Let_def)

lemma mm_layer_result:
  assumes run: "mm_layer G K num_extruders layer_range segmentation_layer layer = Some layer'"
    and p: "p < length (m_regions layer)"
    and split: "list_ex (\<lambda>segmented. be_expolygons segmented \<noteq> {})
        (gather_by_extruder G num_extruders segmentation_layer)"
  shows "\<exists>it stolen_before stolen_after.
      mm_parent_layer_regions G K layer_range
          (gather_by_extruder G num_extruders segmentation_layer) layer [0 ..< p]
          (0, replicate (length (m_regions layer)) \<lparr>br_expolygons = {}, needs_merge = False\<rparr>)
        = Some (it, stolen_before)
      \<and> br_expolygons (stolen_before ! p)
          \<subseteq> (\<Union>q \<in> {0 ..< p}. m_slices (m_regions layer ! q))
      \<and> stolen_after \<subseteq> (\<Union>q \<in> {Suc p ..< length (m_regions layer)}.
                            m_slices (m_regions layer ! q))
      \<and> recreated_from G K layer layer' p
          (br_expolygons (stolen_before ! p)
           \<union> parent_contribution G K layer_range
               (gather_by_extruder G num_extruders segmentation_layer) layer p it
           \<union> stolen_after)"
proof -
  let ?bx = "gather_by_extruder G num_extruders segmentation_layer"
  let ?n = "length (m_regions layer)"
  let ?init = "(0 :: nat, replicate ?n \<lparr>br_expolygons = {}, needs_merge = False\<rparr>)"
  let ?prs = "painted_regions layer_range"
  from run split obtain st where
    all: "mm_parent_layer_regions G K layer_range ?bx layer [0 ..< ?n] ?init = Some st"
    and l': "layer' = recreate_surfaces G K (snd st) layer"
    by (auto simp: mm_layer_def Let_def split: if_splits option.splits)
  from all obtain st_p st_p' where
    pre: "mm_parent_layer_regions G K layer_range ?bx layer [0 ..< p] ?init = Some st_p"
    and body: "mm_parent_layer_region G K layer_range ?bx layer p st_p = Some st_p'"
    and post: "mm_parent_layer_regions G K layer_range ?bx layer [Suc p ..< ?n] st_p' = Some st"
    unfolding upt_split3 [OF p] mm_parent_layer_regions_append
    by (auto split: option.splits)
  have i0: "fst ?init \<le> length ?prs" by simp
  have pn: "p \<notin> set [0 ..< p]" "p < length (snd ?init)" using p by simp_all
  from mm_parent_layer_regions_others [OF pre i0 pn] have a:
    "length (snd st_p) = ?n" "fst st_p \<le> length ?prs"
    "br_expolygons (snd st_p ! p) \<subseteq> (\<Union>q \<in> {0 ..< p}. m_slices (m_regions layer ! q))"
    using p by simp_all
  note b = mm_parent_layer_region_result [OF body a(2)]
  have pn2: "p \<notin> set [Suc p ..< ?n]" "p < length (snd st_p')" using p a(1) b(1) by simp_all
  from mm_parent_layer_regions_others [OF post b(4) pn2] have c:
    "br_expolygons (snd st_p' ! p) \<subseteq> br_expolygons (snd st ! p)"
    "br_expolygons (snd st ! p)
      \<subseteq> br_expolygons (snd st_p' ! p)
          \<union> (\<Union>q \<in> {Suc p ..< ?n}. m_slices (m_regions layer ! q))"
    by simp_all
  define stolen_after where
    "stolen_after = br_expolygons (snd st ! p) - br_expolygons (snd st_p' ! p)"
  have sa: "stolen_after \<subseteq> (\<Union>q \<in> {Suc p ..< ?n}. m_slices (m_regions layer ! q))"
    using c(2) unfolding stolen_after_def by blast
  have E: "br_expolygons (snd st ! p)
      = br_expolygons (snd st_p ! p)
        \<union> parent_contribution G K layer_range ?bx layer p (fst st_p) \<union> stolen_after"
    using c(1) b(2) unfolding stolen_after_def by blast
  have rec: "recreated_from G K layer layer' p (br_expolygons (snd st ! p))"
    unfolding recreated_from_def l' using recreate_surfaces_nth [OF p, of G K "snd st"]
    by auto
  have "mm_parent_layer_regions G K layer_range ?bx layer [0 ..< p] ?init
      = Some (fst st_p, snd st_p)" using pre by simp
  with a(3) sa rec [unfolded E] show ?thesis by blast
qed

lemma mm_layer_not_split:
  assumes "mm_layer G K num_extruders layer_range segmentation_layer layer = Some layer'"
    and "\<not> list_ex (\<lambda>segmented. be_expolygons segmented \<noteq> {})
        (gather_by_extruder G num_extruders segmentation_layer)"
  shows "layer' = layer"
  using assms by (auto simp: mm_layer_def Let_def split: if_splits)

lemma layer_region_remaining_polygons_eq:
  "layer_region_remaining_polygons G K fuzzy_mask fuzzy_bbox parent_lr fr
     = fuzzy_parent_remaining G K fuzzy_mask fuzzy_bbox parent_lr fr"
  by (simp add: layer_region_remaining_polygons_def fuzzy_parent_remaining_def
      fuzzy_skin_trims_def Let_def)

lemma fuzzy_parent_layer_region_result:
  assumes run: "fuzzy_parent_layer_region G K layer_range fuzzy_mask fuzzy_bbox layer p st = Some st'"
    and it: "fst st \<le> length (fuzzy_skin_painted_regions layer_range)"
  shows "length (snd st') = length (snd st)"
    and "br_expolygons (snd st' ! p)
      = br_expolygons (snd st ! p)
        \<union> fuzzy_parent_contribution G K layer_range fuzzy_mask fuzzy_bbox layer p (fst st)"
    and "\<forall>r < length (snd st). r \<noteq> p \<longrightarrow>
        br_expolygons (snd st ! r) \<subseteq> br_expolygons (snd st' ! r)
        \<and> br_expolygons (snd st' ! r)
            \<subseteq> br_expolygons (snd st ! r) \<union> m_slices (m_regions layer ! p)"
    and "fst st' \<le> length (fuzzy_skin_painted_regions layer_range)"
proof -
  let ?frs = "fuzzy_skin_painted_regions layer_range"
  let ?parent = "m_regions layer ! p"
  let ?C = "fuzzy_parent_contribution G K layer_range fuzzy_mask fuzzy_bbox layer p (fst st)"
  let ?it = "find_if_from (\<lambda>fr. fuzzy_parent_region_id fr = p) ?frs (fst st)"
  let ?goal = "length (snd st') = length (snd st)
    \<and> br_expolygons (snd st' ! p) = br_expolygons (snd st ! p) \<union> ?C
    \<and> (\<forall>r < length (snd st). r \<noteq> p \<longrightarrow>
        br_expolygons (snd st ! r) \<subseteq> br_expolygons (snd st' ! r)
        \<and> br_expolygons (snd st' ! r)
            \<subseteq> br_expolygons (snd st ! r) \<union> m_slices ?parent)
    \<and> fst st' \<le> length ?frs"
  have ?goal
  proof (cases "fuzzy_parent_is_split layer_range layer p (fst st)")
    case False
    then have C: "?C = {}" by (simp add: fuzzy_parent_contribution_def)
    have "st' = st"
    proof (cases "fst st = length ?frs")
      case True
      with run show ?thesis by (simp add: fuzzy_parent_layer_region_def)
    next
      case ne: False
      with run have pid: "print_object_region_id (m_region ?parent) = p"
        by (auto simp: fuzzy_parent_layer_region_def Let_def split: if_splits)
      show ?thesis
      proof (cases "m_slices ?parent = {}")
        case True
        with run ne pid show ?thesis by (simp add: fuzzy_parent_layer_region_def)
      next
        case False
        with \<open>\<not> fuzzy_parent_is_split layer_range layer p (fst st)\<close> ne
        have "?it \<ge> length ?frs" by (simp add: fuzzy_parent_is_split_def)
        with run ne pid False show ?thesis
          by (simp add: fuzzy_parent_layer_region_def Let_def)
      qed
    qed
    with C it show ?thesis by simp
  next
    case True
    then have ne: "fst st \<noteq> length ?frs" and sl: "m_slices ?parent \<noteq> {}"
      and lt: "?it < length ?frs"
      by (simp_all add: fuzzy_parent_is_split_def)
    from run ne have pid: "print_object_region_id (m_region ?parent) = p"
      by (auto simp: fuzzy_parent_layer_region_def Let_def split: if_splits)
    let ?fr = "?frs ! ?it"
    let ?tid = "print_object_region_id (fuzzy_region ?fr)"
    let ?stolen = "m_slices ?parent \<inter> fuzzy_mask"
    let ?rem = "fuzzy_parent_remaining G K fuzzy_mask fuzzy_bbox ?parent ?fr"
    have C: "?C = ?rem" using True by (simp add: fuzzy_parent_contribution_def)
    let ?steal = "fuzzy_skin_trims G fuzzy_bbox ?parent ?fr \<and> ?stolen \<noteq> {}"
    from run ne pid sl lt obtain b1 where
      b1: "(if ?steal then by_region_add_at (snd st) ?tid ?stolen else Some (snd st)) = Some b1"
      and res: "if ?rem \<noteq> {}
         then (\<exists>b2. by_region_add_at b1 p ?rem = Some b2 \<and> st' = (Suc ?it, b2))
         else st' = (Suc ?it, b1)"
      by (auto simp: fuzzy_parent_layer_region_def Let_def
          layer_region_remaining_polygons_eq split: option.splits if_splits)
    have grows: "by_region_grows (m_slices ?parent) p (snd st) b1"
    proof (cases ?steal)
      case False
      with b1 show ?thesis by simp
    next
      case True
      with b1 have add: "by_region_add_at (snd st) ?tid ?stolen = Some b1" by simp
      from True pid have tp: "?tid \<noteq> p" by (simp add: fuzzy_skin_trims_def)
      note a = by_region_add_at_Some [OF add]
      show ?thesis
        unfolding by_region_grows_def
      proof (intro conjI allI impI)
        show "length b1 = length (snd st)" by (rule a(1))
        show "b1 ! p = snd st ! p" using tp by (intro a(4)) simp
        show "br_expolygons (snd st ! r) \<subseteq> br_expolygons (b1 ! r)" for r
          using a(3) a(4) [of r] by (cases "r = ?tid") auto
        show "br_expolygons (b1 ! r) \<subseteq> br_expolygons (snd st ! r) \<union> m_slices ?parent" for r
          using a(3) a(4) [of r] by (cases "r = ?tid") auto
      qed
    qed
    have it2: "Suc ?it \<le> length ?frs" using lt by simp
    show ?thesis
    proof (cases "?rem = {}")
      case e: True
      with res have st': "st' = (Suc ?it, b1)" by simp
      from grows e C it2 show ?thesis
        unfolding st' by_region_grows_def by auto
    next
      case False
      with res obtain b2 where add: "by_region_add_at b1 p ?rem = Some b2"
        and st': "st' = (Suc ?it, b2)" by auto
      note a = by_region_add_at_Some [OF add]
      have p_entry: "br_expolygons (b2 ! p) = br_expolygons (snd st ! p) \<union> ?C"
        using a(3) grows C by (simp add: by_region_grows_def)
      have others: "b2 ! r = b1 ! r" if "r \<noteq> p" for r
        using a(4) that by simp
      from grows a(1) p_entry others it2 show ?thesis
        unfolding st' by_region_grows_def by auto
    qed
  qed
  then show "length (snd st') = length (snd st)"
    and "br_expolygons (snd st' ! p) = br_expolygons (snd st ! p) \<union> ?C"
    and "\<forall>r < length (snd st). r \<noteq> p \<longrightarrow>
        br_expolygons (snd st ! r) \<subseteq> br_expolygons (snd st' ! r)
        \<and> br_expolygons (snd st' ! r)
            \<subseteq> br_expolygons (snd st ! r) \<union> m_slices ?parent"
    and "fst st' \<le> length ?frs"
    by blast+
qed

lemma fuzzy_parent_layer_regions_append:
  "fuzzy_parent_layer_regions G K layer_range fuzzy_mask fuzzy_bbox layer (xs @ ys) st =
     (case fuzzy_parent_layer_regions G K layer_range fuzzy_mask fuzzy_bbox layer xs st of
        None \<Rightarrow> None
      | Some st1 \<Rightarrow> fuzzy_parent_layer_regions G K layer_range fuzzy_mask fuzzy_bbox layer ys st1)"
  by (induction xs arbitrary: st) (simp_all split: option.splits)

lemma fuzzy_parent_layer_regions_others:
  assumes "fuzzy_parent_layer_regions G K layer_range fuzzy_mask fuzzy_bbox layer qs st = Some st'"
    and "fst st \<le> length (fuzzy_skin_painted_regions layer_range)"
    and "p \<notin> set qs" "p < length (snd st)"
  shows "length (snd st') = length (snd st)
    \<and> fst st' \<le> length (fuzzy_skin_painted_regions layer_range)
    \<and> br_expolygons (snd st ! p) \<subseteq> br_expolygons (snd st' ! p)
    \<and> br_expolygons (snd st' ! p)
        \<subseteq> br_expolygons (snd st ! p) \<union> (\<Union>q \<in> set qs. m_slices (m_regions layer ! q))"
  using assms
proof (induction qs arbitrary: st)
  case Nil
  then show ?case by simp
next
  case (Cons q qs)
  from Cons.prems(1) obtain st1 where
    s1: "fuzzy_parent_layer_region G K layer_range fuzzy_mask fuzzy_bbox layer q st = Some st1"
    and s2: "fuzzy_parent_layer_regions G K layer_range fuzzy_mask fuzzy_bbox layer qs st1 = Some st'"
    by (auto split: option.splits)
  note r = fuzzy_parent_layer_region_result [OF s1 Cons.prems(2)]
  from Cons.prems(3) have pq: "p \<noteq> q" and pn: "p \<notin> set qs" by simp_all
  from r(1) Cons.prems(4) have pl: "p < length (snd st1)" by simp
  from r(3) Cons.prems(4) pq have step:
    "br_expolygons (snd st ! p) \<subseteq> br_expolygons (snd st1 ! p)"
    "br_expolygons (snd st1 ! p)
        \<subseteq> br_expolygons (snd st ! p) \<union> m_slices (m_regions layer ! q)"
    by simp_all
  from Cons.IH [OF s2 r(4) pn pl] have ih:
    "length (snd st') = length (snd st1)"
    "fst st' \<le> length (fuzzy_skin_painted_regions layer_range)"
    "br_expolygons (snd st1 ! p) \<subseteq> br_expolygons (snd st' ! p)"
    "br_expolygons (snd st' ! p)
        \<subseteq> br_expolygons (snd st1 ! p) \<union> (\<Union>q \<in> set qs. m_slices (m_regions layer ! q))"
    by simp_all
  from step ih r(1) show ?case by auto
qed

lemma fuzzy_layer_result:
  assumes run: "fuzzy_layer G K layer_range segmentation_layer layer = Some layer'"
    and p: "p < length (m_regions layer)"
    and split: "segmentation_layer ! 0 \<noteq> {}"
  shows "\<exists>it stolen_before stolen_after.
      fuzzy_parent_layer_regions G K layer_range (segmentation_layer ! 0)
          (get_extents G (segmentation_layer ! 0)) layer [0 ..< p]
          (0, replicate (length (m_regions layer)) \<lparr>br_expolygons = {}, needs_merge = False\<rparr>)
        = Some (it, stolen_before)
      \<and> br_expolygons (stolen_before ! p)
          \<subseteq> (\<Union>q \<in> {0 ..< p}. m_slices (m_regions layer ! q))
      \<and> stolen_after \<subseteq> (\<Union>q \<in> {Suc p ..< length (m_regions layer)}.
                            m_slices (m_regions layer ! q))
      \<and> recreated_from G K layer layer' p
          (br_expolygons (stolen_before ! p)
           \<union> fuzzy_parent_contribution G K layer_range (segmentation_layer ! 0)
               (get_extents G (segmentation_layer ! 0)) layer p it
           \<union> stolen_after)"
proof -
  let ?fuzzy_mask = "segmentation_layer ! 0"
  let ?bb = "get_extents G ?fuzzy_mask"
  let ?n = "length (m_regions layer)"
  let ?init = "(0 :: nat, replicate ?n \<lparr>br_expolygons = {}, needs_merge = False\<rparr>)"
  let ?frs = "fuzzy_skin_painted_regions layer_range"
  from run split obtain st where
    all: "fuzzy_parent_layer_regions G K layer_range ?fuzzy_mask ?bb layer [0 ..< ?n] ?init = Some st"
    and l': "layer' = recreate_surfaces G K (snd st) layer"
    by (auto simp: fuzzy_layer_def Let_def split: if_splits option.splits)
  from all obtain st_p st_p' where
    pre: "fuzzy_parent_layer_regions G K layer_range ?fuzzy_mask ?bb layer [0 ..< p] ?init
        = Some st_p"
    and body: "fuzzy_parent_layer_region G K layer_range ?fuzzy_mask ?bb layer p st_p = Some st_p'"
    and post: "fuzzy_parent_layer_regions G K layer_range ?fuzzy_mask ?bb layer [Suc p ..< ?n] st_p'
        = Some st"
    unfolding upt_split3 [OF p] fuzzy_parent_layer_regions_append
    by (auto split: option.splits)
  have i0: "fst ?init \<le> length ?frs" by simp
  have pn: "p \<notin> set [0 ..< p]" "p < length (snd ?init)" using p by simp_all
  from fuzzy_parent_layer_regions_others [OF pre i0 pn] have a:
    "length (snd st_p) = ?n" "fst st_p \<le> length ?frs"
    "br_expolygons (snd st_p ! p) \<subseteq> (\<Union>q \<in> {0 ..< p}. m_slices (m_regions layer ! q))"
    using p by simp_all
  note b = fuzzy_parent_layer_region_result [OF body a(2)]
  have pn2: "p \<notin> set [Suc p ..< ?n]" "p < length (snd st_p')" using p a(1) b(1) by simp_all
  from fuzzy_parent_layer_regions_others [OF post b(4) pn2] have c:
    "br_expolygons (snd st_p' ! p) \<subseteq> br_expolygons (snd st ! p)"
    "br_expolygons (snd st ! p)
      \<subseteq> br_expolygons (snd st_p' ! p)
          \<union> (\<Union>q \<in> {Suc p ..< ?n}. m_slices (m_regions layer ! q))"
    by simp_all
  define stolen_after where
    "stolen_after = br_expolygons (snd st ! p) - br_expolygons (snd st_p' ! p)"
  have sa: "stolen_after \<subseteq> (\<Union>q \<in> {Suc p ..< ?n}. m_slices (m_regions layer ! q))"
    using c(2) unfolding stolen_after_def by blast
  have E: "br_expolygons (snd st ! p)
      = br_expolygons (snd st_p ! p)
        \<union> fuzzy_parent_contribution G K layer_range ?fuzzy_mask ?bb layer p (fst st_p)
        \<union> stolen_after"
    using c(1) b(2) unfolding stolen_after_def by blast
  have rec: "recreated_from G K layer layer' p (br_expolygons (snd st ! p))"
    unfolding recreated_from_def l' using recreate_surfaces_nth [OF p, of G K "snd st"]
    by auto
  have "fuzzy_parent_layer_regions G K layer_range ?fuzzy_mask ?bb layer [0 ..< p] ?init
      = Some (fst st_p, snd st_p)" using pre by simp
  with a(3) sa rec [unfolded E] show ?thesis by blast
qed

lemma fuzzy_layer_not_split:
  assumes "fuzzy_layer G K layer_range segmentation_layer layer = Some layer'"
    and "segmentation_layer ! 0 = {}"
  shows "layer' = layer"
  using assms by (auto simp: fuzzy_layer_def Let_def split: if_splits)

lemma layer_range_next_in_range:
  assumes "layer_range_next layer_rngs it z = Some it2"
  shows "it2 < length layer_rngs"
    and "fst (layer_height_range (layer_rngs ! it2)) \<le> z"
    and "z < snd (layer_height_range (layer_rngs ! it2))"
  using assms by (auto simp: layer_range_next_def Let_def split: if_splits)

lemma segmentation_items_result:
  assumes "segmentation_items per_layer layer_rngs it xs layers = Some layers'"
    and "distinct xs"
  shows "length layers' = length layers
    \<and> (\<forall>i < length layers. i \<notin> set xs \<longrightarrow> layers' ! i = layers ! i)
    \<and> (\<forall>i \<in> set xs. i < length layers
          \<and> per_layer_done per_layer layer_rngs layers layers' i)"
  using assms
proof (induction xs arbitrary: it layers)
  case Nil
  then show ?case by simp
next
  case (Cons x xs)
  from Cons.prems(1) obtain it' layer' where
    x: "x < length layers"
    and nx: "layer_range_next layer_rngs it (slice_z (layers ! x)) = Some it'"
    and pl: "per_layer (layer_rngs ! it') x (layers ! x) = Some layer'"
    and rest: "segmentation_items per_layer layer_rngs it' xs (layers[x := layer'])
        = Some layers'"
    by (auto split: if_splits option.splits)
  from Cons.prems(2) have d: "distinct xs" and xn: "x \<notin> set xs" by simp_all
  from Cons.IH [OF rest d] have ih:
    "length layers' = length layers"
    "\<forall>i < length layers. i \<notin> set xs \<longrightarrow> layers' ! i = (layers[x := layer']) ! i"
    "\<forall>i \<in> set xs. i < length layers
        \<and> per_layer_done per_layer layer_rngs (layers[x := layer']) layers' i"
    by simp_all
  note r = layer_range_next_in_range [OF nx]
  have px: "per_layer_done per_layer layer_rngs layers layers' x"
  proof -
    from ih(2) x xn have "layers' ! x = layer'" by simp
    with pl r show ?thesis
      unfolding per_layer_done_def by (intro bexI [of _ "layer_rngs ! it'"]) simp_all
  qed
  have pi: "per_layer_done per_layer layer_rngs layers layers' i" if "i \<in> set xs" for i
  proof -
    from that xn have "i \<noteq> x" by auto
    then have eq: "(layers[x := layer']) ! i = layers ! i" by simp
    from ih(3) that
    have "per_layer_done per_layer layer_rngs (layers[x := layer']) layers' i" by simp
    then show ?thesis unfolding per_layer_done_def eq .
  qed
  from ih x px pi show ?case by auto
qed

lemma segmentation_chunks_result:
  assumes "segmentation_chunks per_layer layer_rngs cs layers = Some layers'"
    and "distinct (concat cs)"
  shows "length layers' = length layers
    \<and> (\<forall>i < length layers. i \<notin> set (concat cs) \<longrightarrow> layers' ! i = layers ! i)
    \<and> (\<forall>i \<in> set (concat cs). i < length layers
          \<and> per_layer_done per_layer layer_rngs layers layers' i)"
  using assms
proof (induction cs arbitrary: layers)
  case Nil
  then show ?case by simp
next
  case (Cons c cs)
  from Cons.prems(1) obtain l1 where
    c: "segmentation_chunk per_layer layer_rngs c layers = Some l1"
    and rest: "segmentation_chunks per_layer layer_rngs cs l1 = Some layers'"
    by (auto split: option.splits)
  from Cons.prems(2) have dc: "distinct c" and dcs: "distinct (concat cs)"
    and disj: "set c \<inter> set (concat cs) = {}" by simp_all
  have c1: "length l1 = length layers
    \<and> (\<forall>i < length layers. i \<notin> set c \<longrightarrow> l1 ! i = layers ! i)
    \<and> (\<forall>i \<in> set c. i < length layers \<and> per_layer_done per_layer layer_rngs layers l1 i)"
  proof (cases c)
    case Nil
    with c show ?thesis by (simp add: segmentation_chunk_def)
  next
    case (Cons x xs)
    with c obtain it where
      "segmentation_items per_layer layer_rngs it c layers = Some l1"
      by (auto simp: segmentation_chunk_def split: if_splits option.splits)
    from segmentation_items_result [OF this dc] show ?thesis .
  qed
  from Cons.IH [OF rest dcs] have ih:
    "length layers' = length l1"
    "\<forall>i < length l1. i \<notin> set (concat cs) \<longrightarrow> layers' ! i = l1 ! i"
    "\<forall>i \<in> set (concat cs). i < length l1 \<and> per_layer_done per_layer layer_rngs l1 layers' i"
    by simp_all
  have a: "layers' ! i = layers ! i" if "i < length layers" "i \<notin> set (concat (c # cs))" for i
    using that c1 ih(2) by simp
  have b: "per_layer_done per_layer layer_rngs layers layers' i" if "i \<in> set c" for i
  proof -
    from that disj have "i \<notin> set (concat cs)" by auto
    with c1 ih(2) that have eq: "layers' ! i = l1 ! i" by simp
    from c1 that have "per_layer_done per_layer layer_rngs layers l1 i" by simp
    then show ?thesis unfolding per_layer_done_def eq .
  qed
  have d: "per_layer_done per_layer layer_rngs layers layers' i" if "i \<in> set (concat cs)" for i
  proof -
    from that disj have "i \<notin> set c" by auto
    moreover from ih(3) that c1 have "i < length layers" by auto
    ultimately have eq: "l1 ! i = layers ! i" using c1 by blast
    from ih(3) that have "per_layer_done per_layer layer_rngs l1 layers' i" by auto
    then show ?thesis unfolding per_layer_done_def eq .
  qed
  have e: "i < length layers \<and> per_layer_done per_layer layer_rngs layers layers' i"
    if "i \<in> set (concat (c # cs))" for i
  proof -
    from that consider "i \<in> set c" | "i \<in> set (concat cs)" by auto
    then show ?thesis
    proof cases
      case 1
      with c1 b show ?thesis by simp
    next
      case 2
      with ih(3) c1 have "i < length layers" by auto
      with d [OF 2] show ?thesis by simp
    qed
  qed
  from c1 ih(1) have "length layers' = length layers" by simp
  with a e show ?case by blast
qed

lemma apply_mm_segmentation_result:
  assumes "apply_mm_segmentation G K layer_chunks print_config shared segmentation layers
      = Some layers'"
    and "concat (layer_chunks [0 ..< length segmentation]) = [0 ..< length segmentation]"
    and "i < length layers"
  shows "length layers' = length layers"
    and "per_layer_done
      (\<lambda>layer_range layer_id' layer.
         mm_layer G K (length (nozzle_diameter print_config)) layer_range
           (segmentation ! layer_id') layer)
      (layer_ranges shared) layers layers' i"
proof -
  from assms(1) have len: "length segmentation = length layers"
    and run: "segmentation_chunks
      (\<lambda>layer_range layer_id' layer.
         mm_layer G K (length (nozzle_diameter print_config)) layer_range
           (segmentation ! layer_id') layer)
      (layer_ranges shared) (layer_chunks [0 ..< length segmentation]) layers = Some layers'"
    by (auto simp: apply_mm_segmentation_def split: if_splits)
  have d: "distinct (concat (layer_chunks [0 ..< length segmentation]))"
    unfolding assms(2) by simp
  note r = segmentation_chunks_result [OF run d]
  from assms(3) len have "i \<in> set (concat (layer_chunks [0 ..< length segmentation]))"
    unfolding assms(2) by simp
  with r
  show "length layers' = length layers"
    and "per_layer_done
      (\<lambda>layer_range layer_id' layer.
         mm_layer G K (length (nozzle_diameter print_config)) layer_range
           (segmentation ! layer_id') layer)
      (layer_ranges shared) layers layers' i"
    by blast+
qed

lemma apply_fuzzy_skin_segmentation_result:
  assumes "apply_fuzzy_skin_segmentation G K layer_chunks shared segmentation layers
      = Some layers'"
    and "concat (layer_chunks [0 ..< length segmentation]) = [0 ..< length segmentation]"
    and "i < length layers"
  shows "length layers' = length layers"
    and "per_layer_done
      (\<lambda>layer_range layer_id' layer.
         fuzzy_layer G K layer_range (segmentation ! layer_id') layer)
      (layer_ranges shared) layers layers' i"
proof -
  from assms(1) have len: "length segmentation = length layers"
    and run: "segmentation_chunks
      (\<lambda>layer_range layer_id' layer.
         fuzzy_layer G K layer_range (segmentation ! layer_id') layer)
      (layer_ranges shared) (layer_chunks [0 ..< length segmentation]) layers = Some layers'"
    by (auto simp: apply_fuzzy_skin_segmentation_def split: if_splits)
  have d: "distinct (concat (layer_chunks [0 ..< length segmentation]))"
    unfolding assms(2) by simp
  note r = segmentation_chunks_result [OF run d]
  from assms(3) len have "i \<in> set (concat (layer_chunks [0 ..< length segmentation]))"
    unfolding assms(2) by simp
  with r
  show "length layers' = length layers"
    and "per_layer_done
      (\<lambda>layer_range layer_id' layer.
         fuzzy_layer G K layer_range (segmentation ! layer_id') layer)
      (layer_ranges shared) layers layers' i"
    by blast+
qed

lemma mm_parent_layer_region_eq:
  assumes "fst st \<noteq> length (painted_regions layer_range)"
    and "print_object_region_id (m_region (m_regions layer ! p)) = p"
    and "m_slices (m_regions layer ! p) \<noteq> {}"
    and "find_first_painted_region layer_range p
        (drop (fst st) (painted_regions layer_range)) (fst st) = Some it_first"
    and "it_first \<noteq> length (painted_regions layer_range)"
    and "steal_loop G layer_range by_extruder (m_regions layer ! p)
        (get_extents G (m_slices (m_regions layer ! p))) [1 ..< Suc (length by_extruder)]
        \<lparr>it_painted_region_begin = it_first, by_region = snd st, self_extruder_id = - 1\<rparr>
      = Some st2"
    and "trim_mine G (get_extents G (m_slices (m_regions layer ! p))) (self_extruder_id st2) 0
        by_extruder (m_slices (m_regions layer ! p)) = mine"
    and "mine \<noteq> {}"
    and "ops_opening G mine (scaled K (5 * EPSILON K)) (scaled K (5 * EPSILON K)) = mine2"
    and "mine2 \<noteq> {}"
    and "by_region_add_at (by_region st2) p mine2 = Some b'"
  shows "mm_parent_layer_region G K layer_range by_extruder layer p st
      = Some (it_painted_region_begin st2, b')"
  using assms by (simp add: mm_parent_layer_region_def Let_def)

lemma mm_layer_eq:
  assumes "num_extruders \<le> length segmentation_layer"
    and "gather_by_extruder G num_extruders segmentation_layer = by_extruder"
    and "list_ex (\<lambda>segmented. be_expolygons segmented \<noteq> {}) by_extruder"
    and "mm_parent_layer_regions G K layer_range by_extruder layer
        [0 ..< length (m_regions layer)]
        (0, replicate (length (m_regions layer)) \<lparr>br_expolygons = {}, needs_merge = False\<rparr>)
      = Some st"
    and "recreate_surfaces G K (snd st) layer = layer'"
  shows "mm_layer G K num_extruders layer_range segmentation_layer layer = Some layer'"
  using assms by (simp add: mm_layer_def Let_def)

lemma painted_layer_simps [simp]:
  "m_regions (painted_layer s0 s1) ! 0 = \<lparr>m_region = mk_region 0, m_slices = s0\<rparr>"
  "m_regions (painted_layer s0 s1) ! Suc 0 = \<lparr>m_region = mk_region 1, m_slices = s1\<rparr>"
  "length (m_regions (painted_layer s0 s1)) = 2"
  "slice_z (painted_layer s0 s1) = 1 / 2"
  by (simp_all add: painted_layer_def)

lemma interval_ops_simps [simp]:
  "get_extents interval_ops S = (Min S, Max S)"
  "bbox_defined interval_ops b \<longleftrightarrow> fst b \<le> snd b"
  "bbox_overlap interval_ops l r \<longleftrightarrow> \<not> (snd l < fst r \<or> snd r < fst l)"
  "ops_opening interval_ops S r1 r2 = S"
  "ops_closing_ex interval_ops S radius = S"
  by (simp_all add: interval_ops_def)

lemma painted_range_simps [simp]:
  "painted_regions painted_range =
     [\<lparr>extruder_id = 1, painted_parent = 0, painted_region = mk_region 0\<rparr>,
      \<lparr>extruder_id = 2, painted_parent = 0, painted_region = mk_region 1\<rparr>]"
  "fuzzy_skin_painted_regions painted_range =
     [\<lparr>fuzzy_parent_region_id = 0, fuzzy_region = mk_region 1\<rparr>]"
  "layer_height_range painted_range = (0, 10)"
  "painted_parent_region_id painted_range
     \<lparr>extruder_id = e, painted_parent = 0, painted_region = r\<rparr> = Some 0"
  by (simp_all add: painted_range_def painted_parent_region_id_def mk_region_def)

lemma mk_region_id [simp]: "print_object_region_id (mk_region i) = i"
  by (simp add: mk_region_def)

lemma painted_gather: "gather_by_extruder interval_ops 2 [{1}, {2}] = two_masks"
  by (simp add: gather_by_extruder_def upt_rec two_masks_def)

lemma painted_steal:
  "steal_loop interval_ops painted_range two_masks \<lparr>m_region = mk_region 0, m_slices = {1, 2, 3}\<rparr>
     (get_extents interval_ops {1, 2, 3}) [1 ..< Suc (length two_masks)]
     \<lparr>it_painted_region_begin = 0,
      by_region = [\<lparr>br_expolygons = {}, needs_merge = False\<rparr>,
                   \<lparr>br_expolygons = {}, needs_merge = False\<rparr>],
      self_extruder_id = - 1\<rparr>
   = Some \<lparr>it_painted_region_begin = 1,
      by_region = [\<lparr>br_expolygons = {}, needs_merge = False\<rparr>,
                   \<lparr>br_expolygons = {2}, needs_merge = False\<rparr>],
      self_extruder_id = 1\<rparr>"
  by (simp add: two_masks_def upt_rec steal_step_def segmented_overlaps_def
      find_if_from_def by_region_add_at_def by_region_add_def)

lemma painted_trim:
  "trim_mine interval_ops (get_extents interval_ops {1, 2, 3}) 1 0 two_masks {1, 2, 3} = {1, 3}"
  by (auto simp: two_masks_def segmented_overlaps_def)

lemma painted_parent_0:
  "mm_parent_layer_region interval_ops libslic3r painted_range two_masks
     (painted_layer {1, 2, 3} {}) 0
     (0, [\<lparr>br_expolygons = {}, needs_merge = False\<rparr>,
          \<lparr>br_expolygons = {}, needs_merge = False\<rparr>])
   = Some (1, [\<lparr>br_expolygons = {1, 3}, needs_merge = False\<rparr>,
               \<lparr>br_expolygons = {2 :: nat}, needs_merge = False\<rparr>])"
proof -
  have "mm_parent_layer_region interval_ops libslic3r painted_range two_masks
     (painted_layer {1, 2, 3} {}) 0
     (0, [\<lparr>br_expolygons = {}, needs_merge = False\<rparr>,
          \<lparr>br_expolygons = {}, needs_merge = False\<rparr>])
   = Some (it_painted_region_begin \<lparr>it_painted_region_begin = 1,
      by_region = [\<lparr>br_expolygons = {}, needs_merge = False\<rparr>,
                   \<lparr>br_expolygons = {2 :: nat}, needs_merge = False\<rparr>],
      self_extruder_id = 1\<rparr>,
      [\<lparr>br_expolygons = {1, 3}, needs_merge = False\<rparr>,
       \<lparr>br_expolygons = {2 :: nat}, needs_merge = False\<rparr>])"
  proof (rule mm_parent_layer_region_eq [where it_first = 0 and mine = "{1, 3}"
        and ?mine2.0 = "{1, 3}"])
    show "steal_loop interval_ops painted_range two_masks
        (m_regions (painted_layer {1, 2, 3} {}) ! 0)
        (get_extents interval_ops (m_slices (m_regions (painted_layer {1, 2, 3} {}) ! 0)))
        [1 ..< Suc (length two_masks)]
        \<lparr>it_painted_region_begin = 0,
         by_region = snd (0 :: nat, [\<lparr>br_expolygons = {}, needs_merge = False\<rparr>,
                          \<lparr>br_expolygons = {}, needs_merge = False\<rparr>]),
         self_extruder_id = - 1\<rparr>
      = Some \<lparr>it_painted_region_begin = 1,
          by_region = [\<lparr>br_expolygons = {}, needs_merge = False\<rparr>,
                       \<lparr>br_expolygons = {2 :: nat}, needs_merge = False\<rparr>],
          self_extruder_id = 1\<rparr>"
      using painted_steal by simp
    show "trim_mine interval_ops
        (get_extents interval_ops (m_slices (m_regions (painted_layer {1, 2, 3} {}) ! 0)))
        (self_extruder_id \<lparr>it_painted_region_begin = 1,
          by_region = [\<lparr>br_expolygons = {}, needs_merge = False\<rparr>,
                       \<lparr>br_expolygons = {2 :: nat}, needs_merge = False\<rparr>],
          self_extruder_id = 1\<rparr>) 0 two_masks
        (m_slices (m_regions (painted_layer {1, 2, 3} {}) ! 0)) = {1, 3}"
      using painted_trim by simp
  qed (simp_all add: by_region_add_at_def by_region_add_def)
  then show ?thesis by simp
qed

lemma painted_parent_1:
  "mm_parent_layer_region interval_ops libslic3r painted_range two_masks
     (painted_layer {1, 2, 3} {}) (Suc 0) (1, b) = Some (1, b)"
  by (simp add: mm_parent_layer_region_def)

lemma painted_mm_layer:
  "mm_layer interval_ops libslic3r 2 painted_range [{1}, {2}] (painted_layer {1, 2, 3} {})
     = Some (painted_layer {1, 3} {2})"
proof (rule mm_layer_eq [OF _ painted_gather])
  show "list_ex (\<lambda>segmented. be_expolygons segmented \<noteq> {}) two_masks"
    by (simp add: two_masks_def)
  show "mm_parent_layer_regions interval_ops libslic3r painted_range two_masks
      (painted_layer {1, 2, 3} {}) [0 ..< length (m_regions (painted_layer {1, 2, 3} {}))]
      (0, replicate (length (m_regions (painted_layer {1, 2, 3} {})))
            \<lparr>br_expolygons = {}, needs_merge = False\<rparr>)
    = Some (1, [\<lparr>br_expolygons = {1, 3}, needs_merge = False\<rparr>,
                \<lparr>br_expolygons = {2 :: nat}, needs_merge = False\<rparr>])"
  proof -
    have u: "[0 ..< length (m_regions (painted_layer {1, 2, 3} {}))] = [0, Suc 0]"
      by (simp add: upt_rec)
    have r: "replicate (length (m_regions (painted_layer {1, 2, 3} {}))) x = [x, x]" for x :: "nat ByRegion"
      by (simp add: numeral_2_eq_2)
    show ?thesis
      unfolding u r by (simp add: painted_parent_0 [simplified] painted_parent_1 [simplified])
  qed
  show "recreate_surfaces interval_ops libslic3r
      (snd (1 :: nat, [\<lparr>br_expolygons = {1, 3}, needs_merge = False\<rparr>,
                \<lparr>br_expolygons = {2 :: nat}, needs_merge = False\<rparr>]))
      (painted_layer {1, 2, 3} {}) = painted_layer {1, 3} {2}"
    by (simp add: recreate_surfaces_def painted_layer_def upt_rec)
qed simp

lemma painted_fuzzy_parent_0:
  "fuzzy_parent_layer_region interval_ops libslic3r painted_range {2}
     (get_extents interval_ops {2}) (painted_layer {1, 2, 3} {}) 0
     (0, [\<lparr>br_expolygons = {}, needs_merge = False\<rparr>,
          \<lparr>br_expolygons = {}, needs_merge = False\<rparr>])
   = Some (1, [\<lparr>br_expolygons = {1, 3}, needs_merge = False\<rparr>,
               \<lparr>br_expolygons = {2 :: nat}, needs_merge = False\<rparr>])"
proof -
  have d: "{Suc 0, 2, 3} - {2 :: nat} = {Suc 0, 3}"
    by auto
  show ?thesis
    by (simp add: fuzzy_parent_layer_region_def find_if_from_def
        layer_region_remaining_polygons_def fuzzy_skin_trims_def by_region_add_at_def
        by_region_add_def Let_def d)
qed

lemma painted_fuzzy_parent_1:
  "fuzzy_parent_layer_region interval_ops libslic3r painted_range {2}
     (get_extents interval_ops {2}) (painted_layer {1, 2, 3} {}) (Suc 0) (1, b) = Some (1, b)"
  by (simp add: fuzzy_parent_layer_region_def)

lemma painted_fuzzy_layer:
  "fuzzy_layer interval_ops libslic3r painted_range [{2}] (painted_layer {1, 2, 3} {})
     = Some (painted_layer {1, 3} {2})"
proof -
  have u: "[0 ..< length (m_regions (painted_layer {1, 2, 3} {}))] = [0, Suc 0]"
    by (simp add: upt_rec)
  have r: "replicate (length (m_regions (painted_layer {1, 2, 3} {}))) x = [x, x]"
    for x :: "nat ByRegion"
    by (simp add: numeral_2_eq_2)
  have run: "fuzzy_parent_layer_regions interval_ops libslic3r painted_range {2}
      (get_extents interval_ops {2}) (painted_layer {1, 2, 3} {})
      [0 ..< length (m_regions (painted_layer {1, 2, 3} {}))]
      (0, replicate (length (m_regions (painted_layer {1, 2, 3} {})))
            \<lparr>br_expolygons = {}, needs_merge = False\<rparr>)
    = Some (1, [\<lparr>br_expolygons = {1, 3}, needs_merge = False\<rparr>,
                \<lparr>br_expolygons = {2 :: nat}, needs_merge = False\<rparr>])"
    unfolding u r
    by (simp add: painted_fuzzy_parent_0 [simplified] painted_fuzzy_parent_1 [simplified])
  have rec: "recreate_surfaces interval_ops libslic3r
      [\<lparr>br_expolygons = {1, 3}, needs_merge = False\<rparr>,
       \<lparr>br_expolygons = {2 :: nat}, needs_merge = False\<rparr>]
      (painted_layer {1, 2, 3} {}) = painted_layer {1, 3} {2}"
    by (simp add: recreate_surfaces_def painted_layer_def upt_rec)
  show ?thesis
    unfolding fuzzy_layer_def Let_def using run rec by simp
qed

lemma painted_layer_range:
  "layer_range_first [painted_range] (1 / 2) = Some 0"
  "layer_range_next [painted_range] 0 (1 / 2) = Some 0"
  by (simp_all add: layer_range_first_def layer_range_next_def Let_def)

lemma painted_apply_mm:
  "apply_mm_segmentation interval_ops libslic3r one_chunk two_nozzles painted_shared
     [[{1}, {2}]] [painted_layer {1, 2, 3} {}] = Some [painted_layer {1, 3} {2}]"
proof -
  have two: "Suc (Suc 0) = 2"
    by simp
  show ?thesis
    by (simp add: apply_mm_segmentation_def one_chunk_def segmentation_chunk_def
        painted_shared_def two_nozzles_def painted_layer_range two
        painted_mm_layer [simplified])
qed

lemma painted_apply_fuzzy:
  "apply_fuzzy_skin_segmentation interval_ops libslic3r one_chunk painted_shared
     [[{2}]] [painted_layer {1, 2, 3} {}] = Some [painted_layer {1, 3} {2}]"
  by (simp add: apply_fuzzy_skin_segmentation_def one_chunk_def segmentation_chunk_def
      painted_shared_def painted_layer_range painted_fuzzy_layer [simplified])

text \<open>
  C4. \<^verbatim>\<open>apply_mm_segmentation\<close> and \<^verbatim>\<open>apply_fuzzy_skin_segmentation\<close> work on every
  layer with a layer range that holds its \<^verbatim>\<open>slice_z\<close>, when the chunks of the parallel
  loop make up the layers in order. A layer without paint is left as it is. In a layer
  with paint, the layer region \<open>p\<close> gets what was stolen from the other parents for its
  print region and its own contribution (\<open>parent_contribution\<close>,
  \<open>fuzzy_parent_contribution\<close>): if a painted region overrides it, its own polygons with
  every overlapping mask subtracted except its own one, opened by \<open>5 * EPSILON\<close>. For
  multi-material painting the own mask is the mask of the extruder whose painted region
  is the print region of \<open>p\<close> itself (\<open>last_own_mask\<close> in \<open>parent_remaining\<close>); for fuzzy
  skin it is the one mask, when the fuzzy skin region is the print region of \<open>p\<close> itself
  (\<open>fuzzy_parent_remaining\<close>).
\<close>

theorem C4_own_mask_not_subtracted:
  assumes "concat (layer_chunks [0 ..< length layers]) = [0 ..< length layers]"
    and "i < length layers"
    and "p < length (m_regions (layers ! i))"
  shows "(apply_mm_segmentation G K layer_chunks print_config shared segmentation layers
            = Some layers'
          \<longrightarrow> length layers' = length layers
            \<and> (\<exists>layer_range \<in> set (layer_ranges shared).
                 fst (layer_height_range layer_range) \<le> slice_z (layers ! i)
                 \<and> slice_z (layers ! i) < snd (layer_height_range layer_range)
                 \<and> (if list_ex (\<lambda>segmented. be_expolygons segmented \<noteq> {})
                          (gather_by_extruder G (length (nozzle_diameter print_config))
                             (segmentation ! i))
                    then mm_layer_region_split G K layer_range
                           (gather_by_extruder G (length (nozzle_diameter print_config))
                              (segmentation ! i))
                           (layers ! i) (layers' ! i) p
                    else layers' ! i = layers ! i)))
       \<and> (apply_fuzzy_skin_segmentation G K layer_chunks shared fuzzy_segmentation layers
            = Some layers''
          \<longrightarrow> length layers'' = length layers
            \<and> (\<exists>layer_range \<in> set (layer_ranges shared).
                 fst (layer_height_range layer_range) \<le> slice_z (layers ! i)
                 \<and> slice_z (layers ! i) < snd (layer_height_range layer_range)
                 \<and> (if fuzzy_segmentation ! i ! 0 \<noteq> {}
                    then fuzzy_layer_region_split G K layer_range (fuzzy_segmentation ! i ! 0)
                           (layers ! i) (layers'' ! i) p
                    else layers'' ! i = layers ! i)))"
proof (intro conjI impI)
  let ?n = "length (nozzle_diameter print_config)"
  assume run: "apply_mm_segmentation G K layer_chunks print_config shared segmentation layers
      = Some layers'"
  then have len: "length segmentation = length layers"
    by (auto simp: apply_mm_segmentation_def split: if_splits)
  from assms(1) len
  have c: "concat (layer_chunks [0 ..< length segmentation]) = [0 ..< length segmentation]"
    by simp
  show "length layers' = length layers"
    by (rule apply_mm_segmentation_result(1) [OF run c assms(2)])
  from apply_mm_segmentation_result(2) [OF run c assms(2)]
  obtain layer_range where lr: "layer_range \<in> set (layer_ranges shared)"
    and lo: "fst (layer_height_range layer_range) \<le> slice_z (layers ! i)"
    and hi: "slice_z (layers ! i) < snd (layer_height_range layer_range)"
    and ml: "mm_layer G K ?n layer_range (segmentation ! i) (layers ! i) = Some (layers' ! i)"
    unfolding per_layer_done_def by blast
  have "if list_ex (\<lambda>segmented. be_expolygons segmented \<noteq> {})
             (gather_by_extruder G ?n (segmentation ! i))
        then mm_layer_region_split G K layer_range (gather_by_extruder G ?n (segmentation ! i))
               (layers ! i) (layers' ! i) p
        else layers' ! i = layers ! i"
  proof (cases "list_ex (\<lambda>segmented. be_expolygons segmented \<noteq> {})
             (gather_by_extruder G ?n (segmentation ! i))")
    case True
    from mm_layer_result [OF ml assms(3) True] True show ?thesis
      unfolding mm_layer_region_split_def by simp
  next
    case False
    from mm_layer_not_split [OF ml False] False show ?thesis by simp
  qed
  with lr lo hi
  show "\<exists>layer_range \<in> set (layer_ranges shared).
      fst (layer_height_range layer_range) \<le> slice_z (layers ! i)
      \<and> slice_z (layers ! i) < snd (layer_height_range layer_range)
      \<and> (if list_ex (\<lambda>segmented. be_expolygons segmented \<noteq> {})
               (gather_by_extruder G ?n (segmentation ! i))
         then mm_layer_region_split G K layer_range (gather_by_extruder G ?n (segmentation ! i))
                (layers ! i) (layers' ! i) p
         else layers' ! i = layers ! i)"
    by blast
next
  assume run: "apply_fuzzy_skin_segmentation G K layer_chunks shared fuzzy_segmentation layers
      = Some layers''"
  then have len: "length fuzzy_segmentation = length layers"
    by (auto simp: apply_fuzzy_skin_segmentation_def split: if_splits)
  from assms(1) len
  have c: "concat (layer_chunks [0 ..< length fuzzy_segmentation])
      = [0 ..< length fuzzy_segmentation]"
    by simp
  show "length layers'' = length layers"
    by (rule apply_fuzzy_skin_segmentation_result(1) [OF run c assms(2)])
  from apply_fuzzy_skin_segmentation_result(2) [OF run c assms(2)]
  obtain layer_range where lr: "layer_range \<in> set (layer_ranges shared)"
    and lo: "fst (layer_height_range layer_range) \<le> slice_z (layers ! i)"
    and hi: "slice_z (layers ! i) < snd (layer_height_range layer_range)"
    and fl: "fuzzy_layer G K layer_range (fuzzy_segmentation ! i) (layers ! i)
        = Some (layers'' ! i)"
    unfolding per_layer_done_def by blast
  have "if fuzzy_segmentation ! i ! 0 \<noteq> {}
        then fuzzy_layer_region_split G K layer_range (fuzzy_segmentation ! i ! 0)
               (layers ! i) (layers'' ! i) p
        else layers'' ! i = layers ! i"
  proof (cases "fuzzy_segmentation ! i ! 0 = {}")
    case True
    from fuzzy_layer_not_split [OF fl True] True show ?thesis by simp
  next
    case False
    from fuzzy_layer_result [OF fl assms(3) False] False show ?thesis
      unfolding fuzzy_layer_region_split_def by simp
  qed
  with lr lo hi
  show "\<exists>layer_range \<in> set (layer_ranges shared).
      fst (layer_height_range layer_range) \<le> slice_z (layers ! i)
      \<and> slice_z (layers ! i) < snd (layer_height_range layer_range)
      \<and> (if fuzzy_segmentation ! i ! 0 \<noteq> {}
         then fuzzy_layer_region_split G K layer_range (fuzzy_segmentation ! i ! 0)
                (layers ! i) (layers'' ! i) p
         else layers'' ! i = layers ! i)"
    by blast
qed

lemma painted_parent_contribution:
  "parent_contribution interval_ops libslic3r painted_range two_masks
     (painted_layer {1, 2, 3} {}) 0 0 = {1, 3}"
proof -
  have f: "[0 ..< length two_masks] = [0, Suc 0]"
    by (simp add: two_masks_def upt_rec)
  have d: "{Suc 0, 2, 3} - {2 :: nat} = {Suc 0, 3}"
    by auto
  show ?thesis
    unfolding parent_contribution_def parent_is_split_def parent_remaining_def f
    by (simp add: last_own_mask_def own_mask_def target_painted_region_def find_if_from_def
        segmented_overlaps_def two_masks_def upt_rec d)
qed

lemma painted_fuzzy_parent_contribution:
  "fuzzy_parent_contribution interval_ops libslic3r painted_range {2}
     (get_extents interval_ops {2}) (painted_layer {1, 2, 3} {}) 0 0 = {1, 3}"
proof -
  have d: "{Suc 0, 2, 3} - {2 :: nat} = {Suc 0, 3}"
    by auto
  show ?thesis
    unfolding fuzzy_parent_contribution_def fuzzy_parent_is_split_def
      fuzzy_parent_remaining_def
    by (simp add: find_if_from_def fuzzy_skin_trims_def d)
qed

lemma painted_split: "list_ex (\<lambda>segmented. be_expolygons segmented \<noteq> {}) two_masks"
  by (simp add: two_masks_def)

theorem C4_own_mask_not_subtracted_witness:
  "apply_mm_segmentation interval_ops libslic3r one_chunk two_nozzles painted_shared
     [[{1}, {2}]] [painted_layer {1, 2, 3} {}] = Some [painted_layer {1, 3} {2}]
   \<and> mm_layer_region_split interval_ops libslic3r painted_range two_masks
       (painted_layer {1, 2, 3} {}) (painted_layer {1, 3} {2}) 0
   \<and> parent_contribution interval_ops libslic3r painted_range two_masks
       (painted_layer {1, 2, 3} {}) 0 0 = {1, 3}
   \<and> apply_fuzzy_skin_segmentation interval_ops libslic3r one_chunk painted_shared
       [[{2}]] [painted_layer {1, 2, 3} {}] = Some [painted_layer {1, 3} {2}]
   \<and> fuzzy_layer_region_split interval_ops libslic3r painted_range {2}
       (painted_layer {1, 2, 3} {}) (painted_layer {1, 3} {2}) 0
   \<and> fuzzy_parent_contribution interval_ops libslic3r painted_range {2}
       (get_extents interval_ops {2}) (painted_layer {1, 2, 3} {}) 0 0 = {1, 3}"
proof -
  have two: "Suc (Suc 0) = 2"
    by simp
  have h1: "concat (one_chunk [0 ..< length [painted_layer {1, 2, 3} {}]])
      = [0 ..< length [painted_layer {1, 2, 3} {}]]"
    by (simp add: one_chunk_def)
  have h2: "0 < length [painted_layer {1, 2, 3} {}]"
    by simp
  have h3: "0 < length (m_regions ([painted_layer {1, 2, 3} {}] ! 0))"
    by simp
  note t = C4_own_mask_not_subtracted [where layer_chunks = one_chunk
      and layers = "[painted_layer {1, 2, 3} {}]" and i = 0 and p = 0
      and G = interval_ops and K = libslic3r and print_config = two_nozzles
      and shared = painted_shared and segmentation = "[[{1}, {2}]]"
      and layers' = "[painted_layer {1, 3} {2}]" and fuzzy_segmentation = "[[{2}]]"
      and layers'' = "[painted_layer {1, 3} {2}]", OF h1 h2 h3]
  from t [THEN conjunct1, rule_format, OF painted_apply_mm]
  have a: "mm_layer_region_split interval_ops libslic3r painted_range two_masks
      (painted_layer {1, 2, 3} {}) (painted_layer {1, 3} {2}) 0"
    by (simp add: painted_shared_def two_nozzles_def two painted_gather [simplified]
        painted_split)
  from t [THEN conjunct2, rule_format, OF painted_apply_fuzzy]
  have b: "fuzzy_layer_region_split interval_ops libslic3r painted_range {2}
      (painted_layer {1, 2, 3} {}) (painted_layer {1, 3} {2}) 0"
    by (simp add: painted_shared_def)
  show ?thesis
    by (intro conjI painted_apply_mm a painted_parent_contribution painted_apply_fuzzy b
        painted_fuzzy_parent_contribution)
qed

end
